theory Spec2Isabelle
  imports Complex_Main "HOL-Library.Sublist"
begin

section \<open>JavaScript string primitives\<close>

text \<open>
  Source strings are modelled as \<^typ>\<open>string\<close>: lists of characters with codes below 256.
  Case conversion acts on the ASCII letters only. In that range no other character is mapped
  onto an ASCII letter that occurs in one of the search tokens of the program, so substring
  tests against the program's ASCII tokens agree with the source.
\<close>

definition startsWith :: "string \<Rightarrow> string \<Rightarrow> bool" where
  "startsWith s p = (take (length p) s = p)"

definition endsWith :: "string \<Rightarrow> string \<Rightarrow> bool" where
  "endsWith s p = (length p \<le> length s \<and> drop (length s - length p) s = p)"

text \<open>\<^verbatim>\<open>s.includes(p)\<close>: \<open>p\<close> occurs in \<open>s\<close> as a contiguous block.\<close>

fun includes_js :: "string \<Rightarrow> string \<Rightarrow> bool" where
  "includes_js [] p = (p = [])"
| "includes_js (c # cs) p = (startsWith (c # cs) p \<or> includes_js cs p)"

definition toUpperChar :: "char \<Rightarrow> char" where
  "toUpperChar c =
     (let n = (of_char c :: nat) in if 97 \<le> n \<and> n \<le> 122 then char_of (n - 32) else c)"

definition toLowerChar :: "char \<Rightarrow> char" where
  "toLowerChar c =
     (let n = (of_char c :: nat) in if 65 \<le> n \<and> n \<le> 90 then char_of (n + 32) else c)"

definition toUpperCase :: "string \<Rightarrow> string" where
  "toUpperCase s = map toUpperChar s"

definition toLowerCase :: "string \<Rightarrow> string" where
  "toLowerCase s = map toLowerChar s"

text \<open>White space removed by \<^verbatim>\<open>trim()\<close>: TAB, LF, VT, FF, CR, space and the no-break space.\<close>

definition isWhitespace :: "char \<Rightarrow> bool" where
  "isWhitespace c = ((of_char c :: nat) \<in> {9, 10, 11, 12, 13, 32, 160})"

definition trim_js :: "string \<Rightarrow> string" where
  "trim_js s = rev (dropWhile isWhitespace (rev (dropWhile isWhitespace s)))"

text \<open>
  \<^verbatim>\<open>s.split(sep)\<close> for a one-character separator. The result is never empty, so the last
  branch of the case distinction is not reached.
\<close>

fun split_js :: "char \<Rightarrow> string \<Rightarrow> string list" where
  "split_js sep [] = [[]]"
| "split_js sep (c # cs) =
     (if c = sep then [] # split_js sep cs
      else (case split_js sep cs of w # ws \<Rightarrow> (c # w) # ws | [] \<Rightarrow> [[c]]))"

text \<open>\<^verbatim>\<open>xs.join(sep)\<close>.\<close>

fun join_js :: "string \<Rightarrow> string list \<Rightarrow> string" where
  "join_js sep [] = []"
| "join_js sep [x] = x"
| "join_js sep (x # y # ys) = x @ sep @ join_js sep (y # ys)"

section \<open>Reading a property of an object literal\<close>

text \<open>
  \<^verbatim>\<open>obj[key]\<close> on an object literal whose values are strings finds the value written under the
  key, or else the member of that name that every object inherits from \<^verbatim>\<open>Object.prototype\<close>, or
  else \<^verbatim>\<open>undefined\<close>. The inherited members are functions, and \<^verbatim>\<open>__proto__\<close> is the prototype
  object: all of them are truthy. \<open>memberText\<close> is the text that a template string makes of the
  value, for an inherited member the one of Node.
\<close>

datatype member = Own string | Inherited string

definition objectPrototypeMembers :: "string list" where
  "objectPrototypeMembers =
     [''constructor'', ''__defineGetter__'', ''__defineSetter__'', ''hasOwnProperty'',
      ''__lookupGetter__'', ''__lookupSetter__'', ''isPrototypeOf'', ''propertyIsEnumerable'',
      ''toString'', ''valueOf'', ''__proto__'', ''toLocaleString'']"

definition lookup :: "(string \<times> string) list \<Rightarrow> string \<Rightarrow> member option" where
  "lookup obj key =
     (case map_of obj key of
        Some v \<Rightarrow> Some (Own v)
      | None \<Rightarrow> if key \<in> set objectPrototypeMembers then Some (Inherited key) else None)"

definition memberTruthy :: "member \<Rightarrow> bool" where
  "memberTruthy m = (case m of Own v \<Rightarrow> v \<noteq> [] | Inherited k \<Rightarrow> True)"

definition memberText :: "member \<Rightarrow> string" where
  "memberText m =
     (case m of
        Own v \<Rightarrow> v
      | Inherited k \<Rightarrow>
          if k = ''__proto__'' then ''[object Object]''
          else ''function '' @ (if k = ''constructor'' then ''Object'' else k) @
               ''() { [native code] }'')"

section \<open>Breaking-change flag\<close>

text \<open>
  \<^verbatim>\<open>isBreakingChange(subject, body)\<close>, the same text in the git manager and in the generator.
  \<^verbatim>\<open>!subject\<close> holds for the empty string.
\<close>

definition isBreakingChange :: "string \<Rightarrow> string \<Rightarrow> bool" where
  "isBreakingChange subject body =
     (if subject = [] then False
      else includes_js subject ''!:'' \<or>
           includes_js (toUpperCase subject) ''BREAKING'' \<or>
           includes_js body ''BREAKING CHANGE:'' \<or>
           includes_js body ''BREAKING-CHANGE:'' \<or>
           includes_js (toUpperCase body) ''BREAKING CHANGE'')"

text \<open>
  The rule as the specification words it: the subject contains \<^verbatim>\<open>!:\<close>, or the subject or the
  body contains the token \<^verbatim>\<open>BREAKING CHANGE\<close> in any letter case.
\<close>

definition specBreaking :: "string \<Rightarrow> string \<Rightarrow> bool" where
  "specBreaking subject body =
     (includes_js subject ''!:'' \<or>
      includes_js (toUpperCase subject) ''BREAKING CHANGE'' \<or>
      includes_js (toUpperCase body) ''BREAKING CHANGE'')"

section \<open>Data model\<close>

text \<open>
  The objects of the generator as records. A field carries a short prefix of its record
  where its name occurs in several object shapes or is a reserved word. Levels, categories
  and types stay strings, as in the source.
\<close>

record DiffStats =
  ds_files :: nat
  ds_insertions :: nat
  ds_deletions :: nat

record SemanticChanges =
  sc_changeType :: string
  sc_patterns :: "string list"
  sc_frameworks :: "string list"
  sc_keywords :: "string list"
  sc_codeElements :: "string list"
  sc_apiChanges :: "string list"
  sc_dataChanges :: "string list"

record FunctionalImpact =
  fi_scope :: string
  fi_breaking :: bool
  fi_userFacing :: bool
  fi_apiChanges :: bool
  fi_dataChanges :: bool
  fi_securityRelated :: bool
  fi_performanceImpact :: bool
  fi_migrationRequired :: bool
  fi_deploymentImpact :: string

record BusinessRelevance =
  br_priority :: string
  br_userImpact :: string
  br_businessValue :: string
  br_customerFacing :: bool
  br_revenueImpact :: bool

record FileChange =
  fc_status :: string
  fc_filePath :: string
  fc_diff :: string
  fc_beforeContent :: string
  fc_afterContent :: string
  fc_category :: string
  fc_language :: member
  fc_importance :: nat
  fc_complexity :: nat
  fc_semanticChanges :: SemanticChanges
  fc_functionalImpact :: FunctionalImpact
  fc_businessRelevance :: BusinessRelevance

record ComplexityFactors =
  cf_filesCount :: nat
  cf_linesChanged :: nat
  cf_categoriesCount :: nat

record Complexity =
  cx_level :: string
  cx_score :: nat
  cx_factors :: ComplexityFactors

record RiskAssessment =
  risk_level :: string
  risk_score :: nat
  risk_factors :: "string list"

section \<open>Commit aggregator\<close>

text \<open>
  \<^verbatim>\<open>assessOverallComplexity(files, diffStats)\<close>. The size of the \<^verbatim>\<open>Set\<close> of categories is the
  number of distinct categories.
\<close>

definition assessOverallComplexity :: "FileChange list \<Rightarrow> DiffStats \<Rightarrow> Complexity" where
  "assessOverallComplexity files diffStats =
     (let filesCount = length files;
          linesChanged = ds_insertions diffStats + ds_deletions diffStats;
          fileScore = (if filesCount > 50 then 5
                       else if filesCount > 20 then 3
                       else if filesCount > 10 then 2
                       else if filesCount > 5 then 1 else 0);
          lineScore = (if linesChanged > 5000 then 5
                       else if linesChanged > 1000 then 3
                       else if linesChanged > 500 then 2
                       else if linesChanged > 100 then 1 else 0);
          categories = remdups (map fc_category files);
          diversity = (if length categories > 4 then 2
                       else if length categories > 2 then 1 else 0);
          complexityScore = fileScore + lineScore + diversity;
          level = (if complexityScore \<ge> 8 then ''very high''
                   else if complexityScore \<ge> 6 then ''high''
                   else if complexityScore \<ge> 4 then ''medium''
                   else if complexityScore \<ge> 2 then ''low'' else ''minimal'')
      in \<lparr>cx_level = level, cx_score = complexityScore,
          cx_factors = \<lparr>cf_filesCount = filesCount, cf_linesChanged = linesChanged,
                         cf_categoriesCount = length categories\<rparr>\<rparr>)"

definition securityKeywords :: "string list" where
  "securityKeywords = [''auth'', ''security'', ''password'', ''token'', ''permission'']"

text \<open>
  \<^verbatim>\<open>assessRisk(files, diffStats, subject, body)\<close>: each factor that is present adds its points
  and pushes its name, in the order of the source.
\<close>

definition assessRisk :: "FileChange list \<Rightarrow> DiffStats \<Rightarrow> string \<Rightarrow> string \<Rightarrow> RiskAssessment" where
  "assessRisk files diffStats subject body =
     (let breakingF = isBreakingChange subject body;
          databaseF = list_ex (\<lambda>f. fc_category f = ''database'') files;
          configF = list_ex (\<lambda>f. fc_category f = ''config'') files;
          largeF = (length files > 50 \<or> ds_insertions diffStats + ds_deletions diffStats > 2000);
          securityF = list_ex (\<lambda>keyword. includes_js (toLowerCase subject) keyword \<or>
                                          includes_js (toLowerCase body) keyword) securityKeywords;
          riskScore = (if breakingF then 5 else 0) + (if databaseF then 3 else 0) +
                      (if configF then 2 else 0) + (if largeF then 2 else 0) +
                      (if securityF then 3 else 0);
          riskFactors = (if breakingF then [''Breaking changes detected''] else []) @
                        (if databaseF then [''Database schema changes''] else []) @
                        (if configF then [''Configuration changes''] else []) @
                        (if largeF then [''Large scale changes''] else []) @
                        (if securityF then [''Security-related changes''] else []);
          level = (if riskScore \<ge> 8 then ''critical''
                   else if riskScore \<ge> 6 then ''high''
                   else if riskScore \<ge> 4 then ''medium''
                   else if riskScore \<ge> 2 then ''low-medium'' else ''low'')
      in \<lparr>risk_level = level, risk_score = riskScore, risk_factors = riskFactors\<rparr>)"

section \<open>Model selector\<close>

record ModelConfig =
  mc_default :: string
  mc_simple :: string
  mc_complex :: string
  mc_reasoning :: string
  mc_advanced_reasoning :: string
  mc_reasoning_legacy :: string
  mc_advanced_reasoning_legacy :: string
  mc_nano :: string

record CommitInfo =
  ci_files :: "string list"
  ci_additions :: nat
  ci_deletions :: nat
  ci_message :: string
  ci_breaking :: bool
  ci_complex :: bool

text \<open>
  \<^verbatim>\<open>selectModelForCommit(commitInfo)\<close> of the provider; \<open>modelConfig\<close> and \<open>activeProvider\<close> are
  the provider's fields of these names.
\<close>

definition selectModelForCommit :: "ModelConfig \<Rightarrow> string \<Rightarrow> CommitInfo \<Rightarrow> string" where
  "selectModelForCommit modelConfig activeProvider commitInfo =
     (let filesChanged = length (ci_files commitInfo);
          linesChanged = ci_additions commitInfo + ci_deletions commitInfo;
          hasBreakingChanges = (includes_js (ci_message commitInfo) ''BREAKING'' \<or>
                                includes_js (ci_message commitInfo) ''!:'');
          hasComplexLogic = (includes_js (toLowerCase (ci_message commitInfo)) ''refactor'' \<or>
                             includes_js (toLowerCase (ci_message commitInfo)) ''algorithm'' \<or>
                             includes_js (toLowerCase (ci_message commitInfo)) ''architecture'')
      in if filesChanged > 100 \<or> linesChanged > 5000 \<or> hasBreakingChanges \<or> hasComplexLogic
         then (if activeProvider = ''azure''
               then (if filesChanged > 200 \<or> linesChanged > 10000
                     then mc_advanced_reasoning modelConfig
                     else mc_reasoning modelConfig)
               else mc_complex modelConfig)
         else if filesChanged > 20 \<or> linesChanged > 1000 then mc_complex modelConfig
         else if filesChanged < 3 \<and> linesChanged < 50 then mc_nano modelConfig
         else if filesChanged < 10 \<and> linesChanged < 200 then mc_simple modelConfig
         else mc_default modelConfig)"

text \<open>
  The commit information the generator hands to the provider in \<^verbatim>\<open>selectOptimalModel\<close>:
  the paths of the files, the line counts of the diff statistics and the subject.
\<close>

definition commitInfoOf ::
  "FileChange list \<Rightarrow> DiffStats \<Rightarrow> string \<Rightarrow> bool \<Rightarrow> bool \<Rightarrow> CommitInfo" where
  "commitInfoOf files diffStats subject breaking hasArchitecturalChanges =
     \<lparr>ci_files = map fc_filePath files, ci_additions = ds_insertions diffStats,
      ci_deletions = ds_deletions diffStats, ci_message = subject, ci_breaking = breaking,
      ci_complex = hasArchitecturalChanges\<rparr>"

text \<open>
  A file-change object for the example scenario of the specification, which fixes only the
  number of files and the category of one of them: path and category are given, the other
  fields are those of a modified file without diff text and with no finding.
\<close>

definition scenarioFile :: "string \<Rightarrow> string \<Rightarrow> FileChange" where
  "scenarioFile path cat =
     \<lparr>fc_status = ''M'', fc_filePath = path, fc_diff = [], fc_beforeContent = [], fc_afterContent = [],
      fc_category = cat, fc_language = Own ''Unknown'', fc_importance = 0, fc_complexity = 1,
      fc_semanticChanges = \<lparr>sc_changeType = ''modification'', sc_patterns = [], sc_frameworks = [],
        sc_keywords = [], sc_codeElements = [], sc_apiChanges = [], sc_dataChanges = []\<rparr>,
      fc_functionalImpact = \<lparr>fi_scope = ''local'', fi_breaking = False, fi_userFacing = False,
        fi_apiChanges = False, fi_dataChanges = False, fi_securityRelated = False,
        fi_performanceImpact = False, fi_migrationRequired = False, fi_deploymentImpact = ''low''\<rparr>,
      fc_businessRelevance = \<lparr>br_priority = ''low'', br_userImpact = ''minimal'',
        br_businessValue = ''technical'', br_customerFacing = False, br_revenueImpact = False\<rparr>\<rparr>"


text \<open>The model names the provider configures when the environment sets none.\<close>

definition defaultModelConfig :: ModelConfig where
  "defaultModelConfig =
     \<lparr>mc_default = ''gpt-4.1'', mc_simple = ''gpt-4.1-mini'', mc_complex = ''gpt-4.1'',
      mc_reasoning = ''o4-mini'', mc_advanced_reasoning = ''o4'',
      mc_reasoning_legacy = ''o3-mini'', mc_advanced_reasoning_legacy = ''o3'',
      mc_nano = ''gpt-4.1-nano''\<rparr>"

text \<open>
  The two commits of the example scenario: two files with 40 changed lines, and 120 files
  with 3000 changed lines, one of them of category \<^verbatim>\<open>database\<close>.
\<close>

definition loginFiles :: "FileChange list" where
  "loginFiles = [scenarioFile ''src/auth/login.js'' ''source'',
                 scenarioFile ''src/auth/session.js'' ''source'']"

definition loginStats :: DiffStats where
  "loginStats = \<lparr>ds_files = 2, ds_insertions = 30, ds_deletions = 10\<rparr>"

definition endpointFiles :: "FileChange list" where
  "endpointFiles = replicate 119 (scenarioFile ''src/api/legacy.js'' ''source'') @
                   [scenarioFile ''db/migrations/001_drop.sql'' ''database'']"

definition endpointStats :: DiffStats where
  "endpointStats = \<lparr>ds_files = 120, ds_insertions = 1000, ds_deletions = 2000\<rparr>"

section \<open>Batch processing\<close>

text \<open>
  The outcome of a promise that has settled: fulfilled with a value, or rejected.
\<close>

datatype 'a settled = Fulfilled 'a | Rejected

text \<open>
  \<^verbatim>\<open>Promise.allSettled(promises)\<close>. Every promise owns the slot of its own index; when the
  promise with index \<open>i\<close> settles, its outcome is written into slot \<open>i\<close>. The list \<open>order\<close>
  gives the indices in the order in which the promises settle. The combined promise resolves,
  with the slots in index order, once every slot is filled; \<open>None\<close> stands for a combined
  promise that never resolves.
\<close>

definition settle :: "'a settled list \<Rightarrow> nat \<Rightarrow> 'a settled option list \<Rightarrow> 'a settled option list" where
  "settle promises i slots =
     (if i < length promises then slots[i := Some (promises ! i)] else slots)"

definition allSettled :: "nat list \<Rightarrow> 'a settled list \<Rightarrow> 'a settled list option" where
  "allSettled order promises =
     (let slots = fold (settle promises) order (replicate (length promises) None)
      in if list_all (\<lambda>s. s \<noteq> None) slots then Some (map the slots) else None)"

text \<open>
  \<^verbatim>\<open>batchResults.filter(r => r.status === 'fulfilled' && r.value).map(r => r.value)\<close>. The value of
  a commit analysis is the analysis object, or \<^verbatim>\<open>null\<close> (here \<open>None\<close>) when the analysis caught
  an error.
\<close>

definition fulfilledValue :: "'a option settled \<Rightarrow> 'a option" where
  "fulfilledValue r = (case r of Fulfilled (Some v) \<Rightarrow> Some v | _ \<Rightarrow> None)"

definition successfulResults :: "'a option settled list \<Rightarrow> 'a list" where
  "successfulResults batchResults = List.map_filter fulfilledValue batchResults"

definition batchSize :: nat where
  "batchSize = 10"

text \<open>
  The state of the loop of \<^verbatim>\<open>generateChangelogBatch\<close>: the results collected so far, the
  counter \<^verbatim>\<open>metrics.batchesProcessed\<close>, and the lengths of the batches as the progress
  message prints them.
\<close>

record 'a BatchState =
  results :: "'a list"
  batchesProcessed :: nat
  batchLog :: "nat list"

text \<open>
  The loop \<^verbatim>\<open>for (let i = 0; i < commitHashes.length; i += batchSize)\<close>. The parameter
  \<open>getCommitAnalysis\<close> is the outcome of the analysis of a commit hash, and \<open>sched i batch\<close> is
  the order in which the analyses of the batch that starts at index \<open>i\<close> settle. The pause
  between two batches has no effect on the state.
\<close>

function generateChangelogBatch_loop ::
  "(string \<Rightarrow> 'a option settled) \<Rightarrow> (nat \<Rightarrow> string list \<Rightarrow> nat list) \<Rightarrow> string list \<Rightarrow> nat \<Rightarrow>
   'a BatchState \<Rightarrow> 'a BatchState option" where
  "generateChangelogBatch_loop getCommitAnalysis sched commitHashes i st =
     (if i < length commitHashes then
        (let batch = take batchSize (drop i commitHashes);
             batchPromises = map getCommitAnalysis batch
         in case allSettled (sched i batch) batchPromises of
              None \<Rightarrow> None
            | Some batchResults \<Rightarrow>
                generateChangelogBatch_loop getCommitAnalysis sched commitHashes (i + batchSize)
                  (st\<lparr>results := results st @ successfulResults batchResults,
                      batchesProcessed := batchesProcessed st + 1,
                      batchLog := batchLog st @ [length batch]\<rparr>))
      else Some st)"
  by pat_completeness auto
termination
  by (relation "measure (\<lambda>(g, s, commitHashes, i, st). length commitHashes - i)")
     (auto simp: batchSize_def)

declare generateChangelogBatch_loop.simps [simp del]

text \<open>
  \<^verbatim>\<open>generateChangelogBatch(commitHashes)\<close>, started with the counter at \<open>processed\<close>. The analysis
  objects collected are not \<^verbatim>\<open>null\<close>, so the final \<^verbatim>\<open>results.filter(Boolean)\<close> keeps all of
  them.
\<close>

definition generateChangelogBatch ::
  "(string \<Rightarrow> 'a option settled) \<Rightarrow> (nat \<Rightarrow> string list \<Rightarrow> nat list) \<Rightarrow> nat \<Rightarrow> string list \<Rightarrow>
   'a BatchState option" where
  "generateChangelogBatch getCommitAnalysis sched processed commitHashes =
     generateChangelogBatch_loop getCommitAnalysis sched commitHashes 0
       \<lparr>results = [], batchesProcessed = processed, batchLog = []\<rparr>"

text \<open>
  Fixed-size batches, as the specification words them: \<open>n\<close> commits are cut into batches of
  10, the last batch taking the remainder.
\<close>

definition batchSizes :: "nat \<Rightarrow> nat list" where
  "batchSizes n = replicate (n div 10) 10 @ (if n mod 10 = 0 then [] else [n mod 10])"

text \<open>
  Example inputs: twelve commit hashes; an analysis that is rejected for the third hash and
  fulfilled, with the hash itself as analysis object, for the others; and two orders of
  settling, last promise first and first promise first.
\<close>

definition exampleHashes :: "string list" where
  "exampleHashes = [''c01'', ''c02'', ''c03'', ''c04'', ''c05'', ''c06'', ''c07'', ''c08'',
                    ''c09'', ''c10'', ''c11'', ''c12'']"

definition exampleAnalysis :: "string \<Rightarrow> string option settled" where
  "exampleAnalysis h = (if h = ''c03'' then Rejected else Fulfilled (Some h))"

definition lastFirst :: "nat \<Rightarrow> string list \<Rightarrow> nat list" where
  "lastFirst i batch = rev [0..<length batch]"

definition firstFirst :: "nat \<Rightarrow> string list \<Rightarrow> nat list" where
  "firstFirst i batch = [0..<length batch]"

section \<open>Values, numbers as text, sets as arrays\<close>

text \<open>
  A JavaScript value, as far as the summaries need it: the result of \<^verbatim>\<open>JSON.parse\<close> and the
  fields of a summary object. Numbers are rationals (the decimal literals of JSON and of the
  source); objects are association lists.
\<close>

datatype jsval =
    JUndefined
  | JNull
  | JBool bool
  | JNum rat
  | JStr string
  | JArr "jsval list"
  | JObj "(string \<times> jsval) list"

text \<open>Truthiness, as \<^verbatim>\<open>||\<close>, \<^verbatim>\<open>!\<close> and \<^verbatim>\<open>Boolean()\<close> test it.\<close>

fun truthy :: "jsval \<Rightarrow> bool" where
  "truthy JUndefined = False"
| "truthy JNull = False"
| "truthy (JBool b) = b"
| "truthy (JNum n) = (n \<noteq> 0)"
| "truthy (JStr s) = (s \<noteq> [])"
| "truthy (JArr xs) = True"
| "truthy (JObj kvs) = True"

text \<open>
  Reading a property of a parsed value: a missing key, and any property of a boolean, number,
  string or array that the program asks for, is \<^verbatim>\<open>undefined\<close>. Reading a property of
  \<^verbatim>\<open>null\<close> or \<^verbatim>\<open>undefined\<close> throws; the callers test \<open>nullish\<close> first.
\<close>

fun getProp :: "jsval \<Rightarrow> string \<Rightarrow> jsval" where
  "getProp (JObj kvs) key = (case map_of kvs key of Some v \<Rightarrow> v | None \<Rightarrow> JUndefined)"
| "getProp v key = JUndefined"

definition nullish :: "jsval \<Rightarrow> bool" where
  "nullish v = (v = JNull \<or> v = JUndefined)"

text \<open>\<^verbatim>\<open>a || b\<close> on values.\<close>

definition jsOr :: "jsval \<Rightarrow> jsval \<Rightarrow> jsval" where
  "jsOr a b = (if truthy a then a else b)"

fun isArray :: "jsval \<Rightarrow> bool" where
  "isArray (JArr xs) = True"
| "isArray v = False"

text \<open>The decimal text of a natural number, as template strings print it.\<close>

definition digit :: "nat \<Rightarrow> char" where
  "digit d = char_of (48 + d)"

function decimal :: "nat \<Rightarrow> string" where
  "decimal n = (if n < 10 then [digit n] else decimal (n div 10) @ [digit (n mod 10)])"
  by pat_completeness auto
termination
  by (relation "measure id") auto

declare decimal.simps [simp del]

text \<open>
  A \<^verbatim>\<open>Set\<close> turned into an array lists its members once each, in the order of their first
  insertion.
\<close>

definition setAdd :: "'a \<Rightarrow> 'a list \<Rightarrow> 'a list" where
  "setAdd x xs = (if x \<in> set xs then xs else xs @ [x])"

definition uniq :: "'a list \<Rightarrow> 'a list" where
  "uniq xs = fold setAdd xs []"

section \<open>Commit analysis and summary objects\<close>

record SemanticAnalysis =
  sa_hasApiChanges :: bool
  sa_hasDbChanges :: bool
  sa_hasUiChanges :: bool
  sa_hasConfigChanges :: bool
  sa_affectedFeatures :: "string list"
  sa_riskLevel :: string
  sa_patterns :: "string list"
  sa_frameworks :: "string list"
  sa_codeElements :: "string list"

text \<open>The analysis object of \<^verbatim>\<open>getCommitAnalysis\<close>; \<open>ca_scope\<close> is \<open>None\<close> for \<^verbatim>\<open>null\<close>.\<close>

record CommitAnalysis =
  ca_hash :: string
  ca_fullHash :: string
  ca_subject :: string
  ca_author :: string
  ca_date :: string
  ca_body :: string
  ca_files :: "FileChange list"
  ca_diffStats :: DiffStats
  ca_type :: string
  ca_scope :: "string option"
  ca_breaking :: bool
  ca_semanticAnalysis :: SemanticAnalysis
  ca_complexity :: Complexity
  ca_riskAssessment :: RiskAssessment

text \<open>
  A summary object. The service path copies values of a parsed response into it, so its
  fields are JavaScript values.
\<close>

record AISummary =
  ai_summary :: jsval
  ai_technicalSummary :: jsval
  ai_category :: jsval
  ai_impact :: jsval
  ai_scope :: jsval
  ai_userFacing :: jsval
  ai_breaking :: jsval
  ai_businessImpact :: jsval
  ai_technicalImpact :: jsval
  ai_highlights :: jsval
  ai_migrationNotes :: jsval
  ai_tags :: jsval
  ai_relatedAreas :: jsval
  ai_riskLevel :: jsval
  ai_confidence :: jsval

text \<open>
  An analyzed commit as \<^verbatim>\<open>generateChangelog\<close> hands it on: the analysis object, with the
  summary under \<^verbatim>\<open>aiSummary\<close> on the one-by-one path and without it on the batch path.
\<close>

record AnalyzedCommit = CommitAnalysis +
  aiSummary :: "AISummary option"

text \<open>
  \<^verbatim>\<open>{...commitAnalysis, aiSummary}\<close>, the analyzed commit of the one-by-one path, and the bare
  analysis object of the batch path.
\<close>

definition analyzedCommit :: "CommitAnalysis \<Rightarrow> AISummary option \<Rightarrow> AnalyzedCommit" where
  "analyzedCommit commitAnalysis summary =
     \<lparr>ca_hash = ca_hash commitAnalysis, ca_fullHash = ca_fullHash commitAnalysis,
      ca_subject = ca_subject commitAnalysis, ca_author = ca_author commitAnalysis,
      ca_date = ca_date commitAnalysis, ca_body = ca_body commitAnalysis,
      ca_files = ca_files commitAnalysis, ca_diffStats = ca_diffStats commitAnalysis,
      ca_type = ca_type commitAnalysis, ca_scope = ca_scope commitAnalysis,
      ca_breaking = ca_breaking commitAnalysis,
      ca_semanticAnalysis = ca_semanticAnalysis commitAnalysis,
      ca_complexity = ca_complexity commitAnalysis,
      ca_riskAssessment = ca_riskAssessment commitAnalysis,
      aiSummary = summary\<rparr>"

definition withSummary :: "CommitAnalysis \<Rightarrow> AISummary \<Rightarrow> AnalyzedCommit" where
  "withSummary commitAnalysis summary = analyzedCommit commitAnalysis (Some summary)"

definition withoutSummary :: "CommitAnalysis \<Rightarrow> AnalyzedCommit" where
  "withoutSummary commitAnalysis = analyzedCommit commitAnalysis None"

record Metrics =
  commitsProcessed :: nat
  apiCalls :: nat
  errors :: nat
  m_batchesProcessed :: nat
  totalTokens :: nat
  cacheHits :: nat

section \<open>Release insight synthesizer\<close>

record ReleaseInsights =
  ri_summary :: string
  ri_totalCommits :: nat
  ri_commitTypes :: "(string \<times> nat) list"
  ri_riskLevel :: string
  ri_affectedAreas :: "string list"
  ri_breaking :: bool
  ri_complexity :: string
  ri_businessImpact :: string
  ri_deploymentRequirements :: "string list"

text \<open>\<^verbatim>\<open>counts[key] = (counts[key] || 0) + 1\<close> on an object whose keys keep their order.\<close>

fun bumpCount :: "string \<Rightarrow> (string \<times> nat) list \<Rightarrow> (string \<times> nat) list" where
  "bumpCount key [] = [(key, 1)]"
| "bumpCount key ((k, n) # kvs) =
     (if k = key then (k, n + 1) # kvs else (k, n) # bumpCount key kvs)"

definition countOf :: "(string \<times> nat) list \<Rightarrow> string \<Rightarrow> nat" where
  "countOf counts key = (case map_of counts key of Some n \<Rightarrow> n | None \<Rightarrow> 0)"

text \<open>The body of \<^verbatim>\<open>analyzedCommits.forEach(commit => ...)\<close> in \<^verbatim>\<open>generateReleaseInsights\<close>.\<close>

definition insightsStep :: "AnalyzedCommit \<Rightarrow> ReleaseInsights \<Rightarrow> ReleaseInsights" where
  "insightsStep commit insights =
     (let i1 = insights\<lparr>ri_commitTypes := bumpCount (ca_type commit) (ri_commitTypes insights)\<rparr>;
          i2 = (if ca_breaking commit then i1\<lparr>ri_breaking := True\<rparr> else i1);
          i3 = (if sa_riskLevel (ca_semanticAnalysis commit) = ''high''
                then i2\<lparr>ri_riskLevel := ''high''\<rparr> else i2);
          i4 = i3\<lparr>ri_affectedAreas :=
                  fold setAdd (map fc_category (ca_files commit)) (ri_affectedAreas i3)\<rparr>;
          i5 = (if sa_hasDbChanges (ca_semanticAnalysis commit)
                then i4\<lparr>ri_deploymentRequirements :=
                        ri_deploymentRequirements i4 @ [''Database migration required'']\<rparr>
                else i4);
          i6 = (if ca_breaking commit
                then i5\<lparr>ri_deploymentRequirements :=
                        ri_deploymentRequirements i5 @
                        [''Breaking changes - review migration notes above.'']\<rparr>
                else i5)
      in i6)"

text \<open>
  \<^verbatim>\<open>generateReleaseInsights(analyzedCommits, version)\<close>. The average number of files per commit
  exceeds a bound \<open>b\<close> exactly when the total exceeds \<open>b\<close> times the number of commits; with no
  commit the average is not a number and exceeds nothing.
\<close>

definition generateReleaseInsights :: "AnalyzedCommit list \<Rightarrow> string \<Rightarrow> ReleaseInsights" where
  "generateReleaseInsights analyzedCommits version =
     (let initial = \<lparr>ri_summary = [], ri_totalCommits = length analyzedCommits,
                     ri_commitTypes = [], ri_riskLevel = ''low'', ri_affectedAreas = [],
                     ri_breaking = False, ri_complexity = ''low'', ri_businessImpact = ''minor'',
                     ri_deploymentRequirements = []\<rparr>;
          insights = fold insightsStep analyzedCommits initial;
          totalFiles = sum_list (map (\<lambda>commit. length (ca_files commit)) analyzedCommits);
          n = length analyzedCommits;
          complexity = (if totalFiles > 20 * n \<or> ri_breaking insights then ''high''
                        else if totalFiles > 10 * n then ''medium''
                        else ri_complexity insights);
          hasUserFacingChanges =
            list_ex (\<lambda>commit. list_ex (\<lambda>file. fi_userFacing (fc_functionalImpact file))
                                       (ca_files commit)) analyzedCommits;
          hasRevenueImpact =
            list_ex (\<lambda>commit. list_ex (\<lambda>file. br_revenueImpact (fc_businessRelevance file))
                                       (ca_files commit)) analyzedCommits;
          businessImpact = (if hasRevenueImpact \<or> ri_breaking insights then ''major''
                            else if hasUserFacingChanges then ''moderate''
                            else ri_businessImpact insights);
          features = countOf (ri_commitTypes insights) ''feat'';
          fixes = countOf (ri_commitTypes insights) ''fix'';
          breaking = (if ri_breaking insights then '' with breaking changes'' else [])
      in insights\<lparr>ri_complexity := complexity, ri_businessImpact := businessImpact,
                   ri_summary := ''Release includes '' @ decimal features @ '' new features, '' @
                                 decimal fixes @ '' bug fixes'' @ breaking\<rparr>)"

text \<open>
  The release flag as the specification words it: some commit's summary is marked breaking.
\<close>

definition specReleaseBreaking :: "AnalyzedCommit list \<Rightarrow> bool" where
  "specReleaseBreaking analyzedCommits =
     list_ex (\<lambda>commit. case aiSummary commit of
                          Some s \<Rightarrow> ai_breaking s = JBool True
                        | None \<Rightarrow> False) analyzedCommits"

section \<open>Commit type, scope and commit-level semantics\<close>

definition commitTypes :: "string list" where
  "commitTypes = [''feat'', ''fix'', ''docs'', ''style'', ''refactor'', ''perf'', ''test'', ''build'',
                  ''ci'', ''chore'', ''revert'', ''security'', ''deps'', ''config'', ''ui'', ''api'',
                  ''db'', ''wip'']"

text \<open>A character that \<^verbatim>\<open>.\<close> matches: any but a line terminator.\<close>

definition isDot :: "char \<Rightarrow> bool" where
  "isDot c = ((of_char c :: nat) \<notin> {10, 13})"

text \<open>The tail \<^verbatim>\<open>!?:\<close> of the conventional-commit patterns, matched at the start of \<open>r\<close>.\<close>

definition bangColon :: "string \<Rightarrow> bool" where
  "bangColon r = (startsWith r '':'' \<or> startsWith r ''!:'')"

text \<open>
  The positions \<open>k\<close> at which \<^verbatim>\<open>\(.+\)!?:\<close> can close its group when matched at the start of
  \<open>r\<close>: \<open>r\<close> opens with a parenthesis, \<open>k\<close> characters that are not line terminators follow
  (at least one), then the closing parenthesis and the tail.
\<close>

definition scopeEnds :: "string \<Rightarrow> nat list" where
  "scopeEnds r =
     (case r of
        c # rest \<Rightarrow>
          (if c = CHR ''(''
           then filter (\<lambda>k. list_all isDot (take k rest) \<and>
                             startsWith (drop k rest) '')'' \<and>
                             bangColon (drop (Suc k) rest)) [1..<length rest]
           else [])
      | [] \<Rightarrow> [])"

definition inferTypeFromMessage :: "string \<Rightarrow> string" where
  "inferTypeFromMessage message =
     (if message = [] then ''other''
      else let lowerMessage = toLowerCase message;
               has = includes_js lowerMessage
           in if has ''add'' \<or> has ''new'' \<or> has ''implement'' then ''feat''
              else if has ''fix'' \<or> has ''bug'' \<or> has ''resolve'' then ''fix''
              else if has ''update'' \<or> has ''upgrade'' \<or> has ''improve'' then ''refactor''
              else if has ''remove'' \<or> has ''delete'' \<or> has ''clean'' then ''chore''
              else if has ''test'' \<or> has ''spec'' then ''test''
              else if has ''doc'' \<or> has ''readme'' then ''docs''
              else if has ''style'' \<or> has ''format'' \<or> has ''lint'' then ''style''
              else if has ''performance'' \<or> has ''perf'' \<or> has ''optimize'' then ''perf''
              else if has ''security'' \<or> has ''vulnerability'' then ''security''
              else if has ''config'' \<or> has ''setting'' then ''config''
              else if has ''build'' \<or> has ''deploy'' \<or> has ''release'' then ''build''
              else if has ''ci'' \<or> has ''workflow'' \<or> has ''action'' then ''ci''
              else if has ''depend'' \<or> has ''package'' \<or> has ''version'' then ''deps''
              else ''other'')"

text \<open>
  The pattern \<^verbatim>\<open>^(t1|t2|...)(\(.+\))?!?:\<close> with letter case ignored: the first of the alternatives
  with which the whole pattern matches, in lower case.
\<close>

definition conventionalType :: "string list \<Rightarrow> string \<Rightarrow> string option" where
  "conventionalType types subject =
     find (\<lambda>t. startsWith (toLowerCase subject) t \<and>
               (bangColon (drop (length t) subject) \<or>
                scopeEnds (drop (length t) subject) \<noteq> [])) types"

text \<open>\<^verbatim>\<open>extractCommitType(subject)\<close> of the generator.\<close>

definition extractCommitType :: "string \<Rightarrow> string" where
  "extractCommitType subject =
     (if subject = [] then ''other''
      else case conventionalType commitTypes subject of
             Some t \<Rightarrow> t
           | None \<Rightarrow> inferTypeFromMessage subject)"

definition isLetter :: "char \<Rightarrow> bool" where
  "isLetter c = (let n = (of_char c :: nat) in (65 \<le> n \<and> n \<le> 90) \<or> (97 \<le> n \<and> n \<le> 122))"

text \<open>
  \<^verbatim>\<open>extractCommitScope(subject)\<close> of the generator: the pattern \<^verbatim>\<open>^[a-z]+\((.+)\)!?:\<close>, letter
  case ignored; the group is greedy, so it ends at the last position that fits.
\<close>

definition extractCommitScope :: "string \<Rightarrow> string option" where
  "extractCommitScope subject =
     (if subject = [] then None
      else let letters = takeWhile isLetter subject;
               r = dropWhile isLetter subject
           in if letters = [] \<or> scopeEnds r = [] then None
              else Some (take (last (scopeEnds r)) (tl r)))"

text \<open>\<^verbatim>\<open>performSemanticAnalysis(files, subject, body)\<close>: first the loop body, then the whole.\<close>

definition semanticStep :: "FileChange \<Rightarrow> SemanticAnalysis \<Rightarrow> SemanticAnalysis" where
  "semanticStep file analysis =
     (let path = fc_filePath file;
          a1 = (if includes_js path ''/api/''
                then analysis\<lparr>sa_hasApiChanges := True,
                              sa_frameworks := sa_frameworks analysis @ [''API'']\<rparr>
                else analysis);
          a2 = (if includes_js path ''migration'' \<or> includes_js path ''schema''
                then a1\<lparr>sa_hasDbChanges := True, sa_frameworks := sa_frameworks a1 @ [''Database'']\<rparr>
                else a1);
          a3 = (if list_ex (endsWith path) [''.tsx'', ''.jsx'', ''.css'', ''.scss'']
                then a2\<lparr>sa_hasUiChanges := True, sa_frameworks := sa_frameworks a2 @ [''React'']\<rparr>
                else a2);
          a4 = (if includes_js path ''config'' \<or> includes_js path ''.env''
                then a3\<lparr>sa_hasConfigChanges := True,
                        sa_patterns := setAdd ''configuration'' (sa_patterns a3)\<rparr>
                else a3)
      in a4\<lparr>sa_frameworks := fold setAdd (sc_frameworks (fc_semanticChanges file)) (sa_frameworks a4),
            sa_patterns := fold setAdd (sc_patterns (fc_semanticChanges file)) (sa_patterns a4),
            sa_codeElements :=
              fold setAdd (sc_codeElements (fc_semanticChanges file)) (sa_codeElements a4)\<rparr>)"

definition performSemanticAnalysis :: "FileChange list \<Rightarrow> string \<Rightarrow> string \<Rightarrow> SemanticAnalysis" where
  "performSemanticAnalysis files subject body =
     (let initial = \<lparr>sa_hasApiChanges = False, sa_hasDbChanges = False, sa_hasUiChanges = False,
                     sa_hasConfigChanges = False, sa_affectedFeatures = [], sa_riskLevel = ''low'',
                     sa_patterns = [], sa_frameworks = [], sa_codeElements = []\<rparr>;
          analysis = fold semanticStep files initial;
          message = toLowerCase (subject @ '' '' @ body);
          has = includes_js message;
          p1 = (if has ''feat'' \<or> has ''add'' \<or> has ''new''
                then setAdd ''new_feature'' (sa_patterns analysis) else sa_patterns analysis);
          p2 = (if has ''fix'' \<or> has ''bug'' \<or> has ''resolve'' then setAdd ''bug_fix'' p1 else p1);
          p3 = (if has ''perf'' \<or> has ''optim'' \<or> has ''speed''
                then setAdd ''performance_optimization'' p2 else p2);
          p4 = (if has ''security'' \<or> has ''auth'' \<or> has ''permission''
                then setAdd ''security_policy'' p3 else p3);
          riskLevel = (if sa_hasApiChanges analysis \<or> sa_hasDbChanges analysis then ''high''
                       else if sa_hasUiChanges analysis \<or> sa_hasConfigChanges analysis then ''medium''
                       else sa_riskLevel analysis)
      in analysis\<lparr>sa_patterns := p4, sa_riskLevel := riskLevel\<rparr>)"

text \<open>
  The analysis object that \<^verbatim>\<open>getCommitAnalysis\<close> assembles from the fields of the commit header,
  the analyzed files and the diff statistics.
\<close>

definition getCommitAnalysis_object ::
  "string \<Rightarrow> string \<Rightarrow> string \<Rightarrow> string \<Rightarrow> string \<Rightarrow> FileChange list \<Rightarrow> DiffStats \<Rightarrow> CommitAnalysis" where
  "getCommitAnalysis_object hash subject author date body validFiles diffStats =
     \<lparr>ca_hash = take 7 hash, ca_fullHash = hash, ca_subject = subject, ca_author = author,
      ca_date = date, ca_body = body, ca_files = validFiles, ca_diffStats = diffStats,
      ca_type = extractCommitType subject, ca_scope = extractCommitScope subject,
      ca_breaking = isBreakingChange subject body,
      ca_semanticAnalysis = performSemanticAnalysis validFiles subject body,
      ca_complexity = assessOverallComplexity validFiles diffStats,
      ca_riskAssessment = assessRisk validFiles diffStats subject body\<rparr>"

text \<open>
  The analysis object of the first example commit, and that of a commit with the same files
  whose subject carries the breaking-change mark.
\<close>

definition loginCommit :: CommitAnalysis where
  "loginCommit = getCommitAnalysis_object ''1f3c5a7b9d'' ''feat(auth): add login'' ''dev''
                   ''2025-06-01'' [] loginFiles loginStats"

definition breakingCommit :: CommitAnalysis where
  "breakingCommit = getCommitAnalysis_object ''2e4d6f8a0c'' ''fix!: remove deprecated endpoint''
                      ''dev'' ''2025-06-02'' [] loginFiles loginStats"

section \<open>Rule-based summary\<close>

text \<open>
  \<^verbatim>\<open>generateRuleBasedSummary(commitAnalysis)\<close>. The assignments to \<^verbatim>\<open>impact\<close>, \<^verbatim>\<open>category\<close> and
  \<^verbatim>\<open>userFacing\<close> are made in the order of the source, a later branch overriding an earlier
  value.
\<close>

definition generateRuleBasedSummary :: "CommitAnalysis \<Rightarrow> AISummary" where
  "generateRuleBasedSummary commitAnalysis =
     (let subject = ca_subject commitAnalysis;
          files = ca_files commitAnalysis;
          semanticAnalysis = ca_semanticAnalysis commitAnalysis;
          diffStats = ca_diffStats commitAnalysis;
          complexity = ca_complexity commitAnalysis;
          riskAssessment = ca_riskAssessment commitAnalysis;
          category0 = (if ca_type commitAnalysis \<noteq> [] then ca_type commitAnalysis else ''other'');
          (impact1, category1) =
            (if risk_level riskAssessment = ''critical'' \<or> risk_level riskAssessment = ''high''
             then (risk_level riskAssessment, ''breaking'')
             else if cx_level complexity = ''high'' \<or> cx_level complexity = ''very high''
             then (''medium'', category0)
             else (''low'', category0));
          hasUIChanges = list_ex (\<lambda>f. fc_category f = ''source'' \<and>
                                      list_ex (endsWith (fc_filePath f)) [''.tsx'', ''.jsx'']) files;
          hasDBChanges = list_ex (\<lambda>f. fc_category f = ''database'') files;
          hasAPIChanges = list_ex (\<lambda>f. fi_apiChanges (fc_functionalImpact f)) files;
          hasSecurityChanges = list_ex (\<lambda>f. fi_securityRelated (fc_functionalImpact f)) files;
          (impact, category, userFacing) =
            (if hasSecurityChanges then (''high'', ''security'', False)
             else if ca_breaking commitAnalysis then (''critical'', ''breaking'', False)
             else if hasDBChanges \<or> hasAPIChanges then (''medium'', category1, False)
             else if hasUIChanges then (''medium'', category1, True)
             else (impact1, category1, False));
          insights =
            (if ''new_feature'' \<in> set (sa_patterns semanticAnalysis)
             then [''introduces new functionality''] else []) @
            (if ''bug_fix'' \<in> set (sa_patterns semanticAnalysis)
             then [''resolves issues''] else []) @
            (if ''performance_optimization'' \<in> set (sa_patterns semanticAnalysis)
             then [''improves performance''] else []) @
            (if ''security_policy'' \<in> set (sa_patterns semanticAnalysis)
             then [''enhances security''] else []) @
            (if ''React'' \<in> set (sa_frameworks semanticAnalysis)
             then [''updates React components''] else []) @
            (if ''Database'' \<in> set (sa_frameworks semanticAnalysis)
             then [''modifies database layer''] else []);
          highlights =
            (if ds_insertions diffStats > 100 then [''Significant code additions''] else []) @
            (if length files > 10 then [''Wide-ranging changes''] else []) @
            (if hasUIChanges then [''User interface updates''] else []) @
            (if hasDBChanges then [''Database modifications''] else []) @
            (if cx_level complexity \<noteq> ''minimal''
             then [cx_level complexity @ '' complexity changes''] else []);
          areas = uniq (map fc_category files)
      in \<lparr>ai_summary = JStr (if insights \<noteq> []
                              then subject @ '' ('' @ join_js '', '' (take 2 insights) @ '')''
                              else subject),
          ai_technicalSummary =
            JStr (''Modified '' @ decimal (length files) @ '' files with +'' @
                  decimal (ds_insertions diffStats) @ ''/-'' @ decimal (ds_deletions diffStats) @
                  '' lines. Complexity: '' @ cx_level complexity),
          ai_category = JStr category,
          ai_impact = JStr impact,
          ai_scope = JStr (if impact = ''critical'' then ''major''
                           else if impact = ''high'' then ''minor'' else ''patch''),
          ai_userFacing = JBool userFacing,
          ai_breaking = JBool (ca_breaking commitAnalysis),
          ai_businessImpact =
            JStr (if userFacing then ''Affects user experience'' else ''Internal improvements''),
          ai_technicalImpact = JStr (''Changes in '' @ join_js '', '' areas),
          ai_highlights = JArr (map JStr (take 3 highlights)),
          ai_migrationNotes = (if ca_breaking commitAnalysis
                               then JStr ''Review breaking changes before deployment''
                               else JNull),
          ai_tags = JArr (map JStr (sa_frameworks semanticAnalysis @
                                    take 3 (sa_patterns semanticAnalysis))),
          ai_relatedAreas = JArr (map JStr (take 3 areas)),
          ai_riskLevel = JStr (risk_level riskAssessment),
          ai_confidence = JNum (7 / 10)\<rparr>)"

section \<open>Parsing the response of the service\<close>

text \<open>
  The fence of a Markdown code block is three characters with code 96. The two
  \<^verbatim>\<open>replace\<close> calls of \<^verbatim>\<open>parseAIResponse\<close> drop an opening fence with the white space after
  it, and a closing fence at the very end with the white space before it.
\<close>

definition fence :: string where
  "fence = replicate 3 (char_of (96 :: nat))"

definition dropClosingFence :: "string \<Rightarrow> string" where
  "dropClosingFence s =
     (if endsWith s fence
      then rev (dropWhile isWhitespace (rev (take (length s - 3) s)))
      else s)"

definition stripFences :: "string \<Rightarrow> string" where
  "stripFences content =
     (let jsonStr = trim_js content
      in if startsWith jsonStr (fence @ ''json'')
         then dropClosingFence (dropWhile isWhitespace (drop 7 jsonStr))
         else if startsWith jsonStr fence
         then dropClosingFence (dropWhile isWhitespace (drop 3 jsonStr))
         else jsonStr)"

text \<open>
  \<^verbatim>\<open>parseAIResponse(content, originalCommit)\<close>. The parameter \<open>jsonParse\<close> is \<^verbatim>\<open>JSON.parse\<close>, with
  \<open>None\<close> for a syntax error. A syntax error, and the type error of reading a property of
  \<^verbatim>\<open>null\<close>, are caught: the error counter goes up and the rule-based summary is returned.
\<close>

definition parseAIResponse ::
  "(string \<Rightarrow> jsval option) \<Rightarrow> string \<Rightarrow> CommitAnalysis \<Rightarrow> Metrics \<Rightarrow> AISummary \<times> Metrics" where
  "parseAIResponse jsonParse content originalCommit metrics =
     (case jsonParse (stripFences content) of
        None \<Rightarrow> (generateRuleBasedSummary originalCommit, metrics\<lparr>errors := errors metrics + 1\<rparr>)
      | Some parsed \<Rightarrow>
          if nullish parsed
          then (generateRuleBasedSummary originalCommit, metrics\<lparr>errors := errors metrics + 1\<rparr>)
          else
            (\<lparr>ai_summary = jsOr (getProp parsed ''summary'') (JStr (ca_subject originalCommit)),
              ai_technicalSummary = jsOr (getProp parsed ''technicalSummary'') (JStr []),
              ai_category = jsOr (jsOr (getProp parsed ''category'') (JStr (ca_type originalCommit)))
                                 (JStr ''other''),
              ai_impact = jsOr (getProp parsed ''impact'') (JStr ''low''),
              ai_scope = jsOr (getProp parsed ''scope'') (JStr ''patch''),
              ai_userFacing = JBool (truthy (getProp parsed ''userFacing'')),
              ai_breaking = JBool (truthy (getProp parsed ''breaking'')),
              ai_businessImpact = jsOr (getProp parsed ''businessImpact'') (JStr []),
              ai_technicalImpact = jsOr (getProp parsed ''technicalImpact'') (JStr []),
              ai_highlights = (if isArray (getProp parsed ''highlights'')
                               then getProp parsed ''highlights'' else JArr []),
              ai_migrationNotes = jsOr (getProp parsed ''migrationNotes'') JNull,
              ai_tags = (if isArray (getProp parsed ''tags'') then getProp parsed ''tags''
                         else JArr []),
              ai_relatedAreas = (if isArray (getProp parsed ''relatedAreas'')
                                 then getProp parsed ''relatedAreas'' else JArr []),
              ai_riskLevel = jsOr (getProp parsed ''riskLevel'') (JStr ''low''),
              ai_confidence = jsOr (getProp parsed ''confidence'') (JNum (8 / 10))\<rparr>,
             metrics))"

section \<open>Model availability and the summarization orchestrator\<close>

text \<open>
  The provider: its active provider, its model names, and \<open>p_azureProbe\<close>, which tells for a
  model name whether the one-token test completion against the Azure deployment succeeds.
\<close>

record Provider =
  p_activeProvider :: string
  p_modelConfig :: ModelConfig
  p_azureProbe :: "string \<Rightarrow> bool"

definition supportedModels :: "string list" where
  "supportedModels = [''gpt-4.1'', ''gpt-4.1-mini'', ''gpt-4.1-nano'', ''gpt-4o'', ''gpt-4o-mini'',
                      ''gpt-4'', ''gpt-3.5-turbo'']"

text \<open>\<^verbatim>\<open>validateModelAvailability(modelName)\<close>, the field \<^verbatim>\<open>available\<close> of its result.\<close>

definition validateModelAvailability :: "Provider \<Rightarrow> string \<Rightarrow> bool" where
  "validateModelAvailability provider modelName =
     (if p_activeProvider provider = ''azure'' then p_azureProbe provider modelName
      else if p_activeProvider provider = ''openai'' then modelName \<in> set supportedModels
      else False)"

text \<open>
  \<^verbatim>\<open>selectOptimalModel(commitInfo)\<close> of the provider, the field \<^verbatim>\<open>model\<close> of its result; \<open>None\<close>
  when it throws because no model of the Azure deployment is available.
\<close>

definition provider_selectOptimalModel :: "Provider \<Rightarrow> CommitInfo \<Rightarrow> string option" where
  "provider_selectOptimalModel provider commitInfo =
     (let preferredModel =
            selectModelForCommit (p_modelConfig provider) (p_activeProvider provider) commitInfo
      in if validateModelAvailability provider preferredModel then Some preferredModel
         else if p_activeProvider provider = ''azure''
         then find (\<lambda>fallback. fallback \<noteq> preferredModel \<and>
                                validateModelAvailability provider fallback)
                [mc_default (p_modelConfig provider), mc_simple (p_modelConfig provider),
                 ''gpt-4o'', ''gpt-4'', ''gpt-35-turbo'']
         else Some preferredModel)"

record Generator =
  g_hasAI :: bool
  g_modelOverride :: "string option"
  g_analysisMode :: string
  g_aiProvider :: Provider

text \<open>
  \<^verbatim>\<open>selectOptimalModel(commitAnalysis)\<close> of the generator; \<open>None\<close> is \<^verbatim>\<open>null\<close>. An override that is
  the empty string counts as no override. An error thrown by the provider's selection is
  caught and the default model is used.
\<close>

definition selectOptimalModel :: "Generator \<Rightarrow> CommitAnalysis \<Rightarrow> string option" where
  "selectOptimalModel gen commitAnalysis =
     (if \<not> g_hasAI gen then None
      else if (case g_modelOverride gen of Some m \<Rightarrow> m \<noteq> [] | None \<Rightarrow> False)
      then g_modelOverride gen
      else
        (let semanticAnalysis = ca_semanticAnalysis commitAnalysis;
             hasArchitecturalChanges =
               (''refactor'' \<in> set (sa_patterns semanticAnalysis) \<or>
                ''architecture'' \<in> set (sa_patterns semanticAnalysis) \<or>
                length (sa_frameworks semanticAnalysis) > 2);
             commitInfo = commitInfoOf (ca_files commitAnalysis) (ca_diffStats commitAnalysis)
                            (ca_subject commitAnalysis) (ca_breaking commitAnalysis)
                            hasArchitecturalChanges
         in case provider_selectOptimalModel (g_aiProvider gen) commitInfo of
              Some model \<Rightarrow>
                if model \<noteq> [] then Some model
                else Some (mc_default (p_modelConfig (g_aiProvider gen)))
            | None \<Rightarrow> Some (mc_default (p_modelConfig (g_aiProvider gen)))))"

text \<open>A request to the service, standing for the prompt built from the commit, and its outcome:
  the call throws, or returns a response with its \<^verbatim>\<open>content\<close> (or none) and the
  \<^verbatim>\<open>total_tokens\<close> of its \<^verbatim>\<open>usage\<close> (or none).\<close>

record Request =
  rq_commit :: CommitAnalysis
  rq_model :: "string option"
  rq_reasoning_effort :: "string option"

datatype completion =
    ServiceThrows
  | ServiceResponse "string option" "nat option"

text \<open>\<^verbatim>\<open>selectedModel || this.aiProvider.modelConfig.default\<close>, the model whose availability
  \<^verbatim>\<open>generateAISummary\<close> checks.\<close>

definition modelToCheck :: "Generator \<Rightarrow> CommitAnalysis \<Rightarrow> string" where
  "modelToCheck gen commitAnalysis =
     (case selectOptimalModel gen commitAnalysis of
        Some m \<Rightarrow> if m \<noteq> [] then m else mc_default (p_modelConfig (g_aiProvider gen))
      | None \<Rightarrow> mc_default (p_modelConfig (g_aiProvider gen)))"

text \<open>The settings of the request: the selected model, and a reasoning effort for the models
  whose name contains \<^verbatim>\<open>o3\<close> or \<^verbatim>\<open>o4\<close>.\<close>

definition serviceRequest :: "Generator \<Rightarrow> CommitAnalysis \<Rightarrow> Request" where
  "serviceRequest gen commitAnalysis =
     (let selectedModel = selectOptimalModel gen commitAnalysis;
          effort = (case selectedModel of
                      Some m \<Rightarrow>
                        if m \<noteq> [] \<and> (includes_js m ''o3'' \<or> includes_js m ''o4'')
                        then Some (if g_analysisMode gen = ''enterprise'' then ''high'' else ''medium'')
                        else None
                    | None \<Rightarrow> None)
      in \<lparr>rq_commit = commitAnalysis, rq_model = selectedModel, rq_reasoning_effort = effort\<rparr>)"

text \<open>
  The counters after a call of the service has returned: \<^verbatim>\<open>apiCalls\<close> goes up by one, and
  \<^verbatim>\<open>totalTokens\<close> by the tokens of the usage report, if there is one.
\<close>

definition countCall :: "Metrics \<Rightarrow> nat option \<Rightarrow> Metrics" where
  "countCall metrics usage =
     (let m1 = metrics\<lparr>apiCalls := apiCalls metrics + 1\<rparr>
      in case usage of
           Some total_tokens \<Rightarrow> m1\<lparr>totalTokens := totalTokens m1 + total_tokens\<rparr>
         | None \<Rightarrow> m1)"

text \<open>
  \<^verbatim>\<open>generateAISummary(commitAnalysis)\<close>, with the metrics as state. The parameter
  \<open>generateCompletion\<close> is the call of the service. Inside the \<^verbatim>\<open>try\<close> block a thrown call and
  an empty content end in the \<^verbatim>\<open>catch\<close> branch, which counts an error and returns the
  rule-based summary; the counters raised before the throw keep their values.
\<close>

definition generateAISummary ::
  "Generator \<Rightarrow> (Request \<Rightarrow> completion) \<Rightarrow> (string \<Rightarrow> jsval option) \<Rightarrow> CommitAnalysis \<Rightarrow> Metrics \<Rightarrow>
   AISummary \<times> Metrics" where
  "generateAISummary gen generateCompletion jsonParse commitAnalysis metrics =
     (if \<not> g_hasAI gen then (generateRuleBasedSummary commitAnalysis, metrics)
      else if \<not> validateModelAvailability (g_aiProvider gen) (modelToCheck gen commitAnalysis)
      then (generateRuleBasedSummary commitAnalysis, metrics)
      else case generateCompletion (serviceRequest gen commitAnalysis) of
             ServiceThrows \<Rightarrow>
               (generateRuleBasedSummary commitAnalysis, metrics\<lparr>errors := errors metrics + 1\<rparr>)
           | ServiceResponse content usage \<Rightarrow>
               (let counted = countCall metrics usage
                in case content of
                     None \<Rightarrow>
                       (generateRuleBasedSummary commitAnalysis,
                        counted\<lparr>errors := errors counted + 1\<rparr>)
                   | Some c \<Rightarrow>
                       if c = []
                       then (generateRuleBasedSummary commitAnalysis,
                             counted\<lparr>errors := errors counted + 1\<rparr>)
                       else parseAIResponse jsonParse c commitAnalysis counted))"

text \<open>
  A structurally complete summary, as the specification words it: every field but
  \<^verbatim>\<open>migrationNotes\<close> holds a value that is neither \<^verbatim>\<open>null\<close> nor \<^verbatim>\<open>undefined\<close>.
\<close>

definition structurallyComplete :: "AISummary \<Rightarrow> bool" where
  "structurallyComplete s =
     list_all (\<lambda>v. \<not> nullish v)
       [ai_summary s, ai_technicalSummary s, ai_category s, ai_impact s, ai_scope s,
        ai_userFacing s, ai_breaking s, ai_businessImpact s, ai_technicalImpact s,
        ai_highlights s, ai_tags s, ai_relatedAreas s, ai_riskLevel s, ai_confidence s]"

text \<open>
  Example inputs: a generator on the OpenAI provider with the default model names; a service
  whose call throws, and one that answers with text that is not JSON; a parser for three JSON
  texts; zeroed counters.
\<close>

definition exampleProvider :: Provider where
  "exampleProvider = \<lparr>p_activeProvider = ''openai'', p_modelConfig = defaultModelConfig,
                       p_azureProbe = (\<lambda>m. False)\<rparr>"

definition exampleGenerator :: Generator where
  "exampleGenerator = \<lparr>g_hasAI = True, g_modelOverride = None, g_analysisMode = ''standard'',
                        g_aiProvider = exampleProvider\<rparr>"

definition throwingService :: "Request \<Rightarrow> completion" where
  "throwingService request = ServiceThrows"

definition proseService :: "Request \<Rightarrow> completion" where
  "proseService request = ServiceResponse (Some ''I cannot summarise this commit.'') (Some 12)"

definition exampleParse :: "string \<Rightarrow> jsval option" where
  "exampleParse s = (if s = ''null'' then Some JNull
                     else if s = ''true'' then Some (JBool True)
                     else if s = ''{}'' then Some (JObj [])
                     else None)"

definition zeroMetrics :: Metrics where
  "zeroMetrics = \<lparr>commitsProcessed = 0, apiCalls = 0, errors = 0, m_batchesProcessed = 0,
                   totalTokens = 0, cacheHits = 0\<rparr>"

text \<open>
  Further example inputs: the generator on an Azure deployment that offers none of the models;
  the first example commit with a summary that marks it breaking; and the breaking commit as
  the batch path returns it, without a summary.
\<close>

definition azureGenerator :: Generator where
  "azureGenerator = exampleGenerator\<lparr>g_aiProvider :=
      \<lparr>p_activeProvider = ''azure'', p_modelConfig = defaultModelConfig,
       p_azureProbe = (\<lambda>m. False)\<rparr>\<rparr>"

definition summarisedLogin :: AnalyzedCommit where
  "summarisedLogin =
     withSummary loginCommit ((generateRuleBasedSummary loginCommit)\<lparr>ai_breaking := JBool True\<rparr>)"

definition batchBreaking :: AnalyzedCommit where
  "batchBreaking = withoutSummary breakingCommit"

section \<open>Diff classifier\<close>

text \<open>
  The patterns the classifier tests a text against. A pattern without a regular-expression
  operator is a substring test, \<open>Lit\<close>, or with the flag \<^verbatim>\<open>i\<close> a substring test on the
  lower-cased text, \<open>LitI\<close> (its token is written in lower case). The other patterns, \<open>Rx\<close>,
  are given by their source text, with \<^verbatim>\<open>%\<close> written for the backslash, and are decided by
  the regular-expression engine, a parameter \<open>rx\<close> of the classifier; \<open>rxAll\<close> is the engine's
  \<^verbatim>\<open>matchAll\<close>, reduced to the first group of every match.
\<close>

datatype pat = Lit string | LitI string | Rx string

fun test :: "(string \<Rightarrow> string \<Rightarrow> bool) \<Rightarrow> pat \<Rightarrow> string \<Rightarrow> bool" where
  "test rx (Lit s) text = includes_js text s"
| "test rx (LitI s) text = includes_js (toLowerCase text) s"
| "test rx (Rx src) text = rx src text"

definition unavailable :: string where
  "unavailable = ''Binary file or diff unavailable''"

text \<open>\<^verbatim>\<open>!diff || diff === 'Binary file or diff unavailable'\<close>.\<close>

definition noDiff :: "string \<Rightarrow> bool" where
  "noDiff diff = (diff = [] \<or> diff = unavailable)"

text \<open>\<^verbatim>\<open>categorizeFile(filePath)\<close>; a pattern \<^verbatim>\<open>\.(a|b)$\<close> holds when the path ends in one of the
  suffixes.\<close>

definition hasSuffix :: "string \<Rightarrow> string list \<Rightarrow> bool" where
  "hasSuffix path exts = list_ex (endsWith path) exts"

definition categorizeFile :: "string \<Rightarrow> string" where
  "categorizeFile filePath =
     (if filePath = [] then ''other''
      else let pathLower = toLowerCase filePath
           in if hasSuffix pathLower [''.ts'', ''.tsx'', ''.js'', ''.jsx''] then ''source''
              else if hasSuffix pathLower [''.css'', ''.scss'', ''.sass'', ''.less'', ''.styl'']
              then ''style''
              else if hasSuffix pathLower [''.json'', ''.yaml'', ''.yml'', ''.toml'', ''.ini'', ''.xml'']
              then ''config''
              else if hasSuffix pathLower [''.md'', ''.txt'', ''.rst'', ''.adoc''] then ''docs''
              else if hasSuffix pathLower
                        (concat (map (\<lambda>a. map (\<lambda>b. a @ b) [''.ts'', ''.tsx'', ''.js'', ''.jsx''])
                                     [''.test'', ''.spec'']))
              then ''test''
              else if hasSuffix pathLower [''.sql'', ''.prisma''] \<or> includes_js pathLower ''migration''
              then ''database''
              else if hasSuffix pathLower [''.png'', ''.jpg'', ''.jpeg'', ''.gif'', ''.svg'', ''.webp'',
                                           ''.ico'']
              then ''asset''
              else if hasSuffix pathLower [''.sh'', ''.bash'', ''.ps1'', ''.bat''] then ''script''
              else ''other'')"

definition languageMap :: "(string \<times> string) list" where
  "languageMap =
     [(''ts'', ''TypeScript''), (''tsx'', ''TypeScript React''), (''js'', ''JavaScript''),
      (''jsx'', ''JavaScript React''), (''py'', ''Python''), (''java'', ''Java''), (''c'', ''C''),
      (''cpp'', ''C++''), (''go'', ''Go''), (''rs'', ''Rust''), (''php'', ''PHP''), (''rb'', ''Ruby''),
      (''swift'', ''Swift''), (''kt'', ''Kotlin''), (''css'', ''CSS''), (''scss'', ''SCSS''),
      (''sass'', ''Sass''), (''html'', ''HTML''), (''json'', ''JSON''), (''md'', ''Markdown''),
      (''sql'', ''SQL''), (''yml'', ''YAML''), (''yaml'', ''YAML''), (''toml'', ''TOML''),
      (''sh'', ''Shell''), (''bash'', ''Bash'')]"

text \<open>
  \<^verbatim>\<open>detectLanguage(filePath)\<close>: \<^verbatim>\<open>languageMap[ext] || 'Unknown'\<close>. For the extension \<^verbatim>\<open>constructor\<close>
  or \<^verbatim>\<open>__proto__\<close> the language is the inherited member, not a string.
\<close>

definition detectLanguage :: "string \<Rightarrow> member" where
  "detectLanguage filePath =
     (if filePath = [] then Own ''Unknown''
      else case lookup languageMap (toLowerCase (last (split_js (CHR ''.'') filePath))) of
             Some l \<Rightarrow> if memberTruthy l then l else Own ''Unknown''
           | None \<Rightarrow> Own ''Unknown'')"

definition includesAny :: "string \<Rightarrow> string list \<Rightarrow> bool" where
  "includesAny text tokens = list_ex (includes_js text) tokens"

definition assessFileImportance :: "string \<Rightarrow> string \<Rightarrow> nat" where
  "assessFileImportance filePath status =
     (if filePath = [] then 1
      else min 5
        ((if includesAny filePath [''/pages/'', ''/app/'', ''/src/'', ''/components/''] then 3 else 0) +
         (if includesAny filePath [''/api/'', ''/server/'', ''/backend/''] then 3 else 0) +
         (if includesAny filePath [''/utils/'', ''/lib/'', ''/helpers/''] then 2 else 0) +
         (if list_ex (startsWith filePath)
               [''package.json'', ''tsconfig'', ''webpack.config'', ''babel.config''] then 3 else 0) +
         (if includesAny (toLowerCase filePath) [''.env'', ''dockerfile'', ''docker-compose'']
          then 2 else 0) +
         (if includesAny filePath [''/migrations/'', ''/schema/'', ''/database/''] then 3 else 0) +
         (if status = ''A'' then 2 else 0) +
         (if status = ''D'' then 1 else 0)))"

definition newline :: char where
  "newline = char_of (10 :: nat)"

text \<open>\<^verbatim>\<open>assessChangeComplexity(diff)\<close>.\<close>

definition assessChangeComplexity :: "string \<Rightarrow> nat" where
  "assessChangeComplexity diff =
     (if noDiff diff then 1
      else let lines = split_js newline diff;
               additions = length (filter (\<lambda>line. startsWith line ''+'') lines);
               deletions = length (filter (\<lambda>line. startsWith line ''-'') lines);
               total = additions + deletions
           in if total < 10 then 1
              else if total < 50 then 2
              else if total < 100 then 3
              else if total < 200 then 4
              else 5)"

definition codePatterns :: "(string \<times> string) list" where
  "codePatterns =
     [(''function_definition'', ''(?:export%s+)?(?:async%s+)?function%s+(%w+)''),
      (''component_definition'', ''(?:export%s+)?(?:const|function)%s+(%w+Component|%w+Page|%w+Layout)''),
      (''hook_definition'', ''(?:export%s+)?(?:const|function)%s+(use%w+)''),
      (''type_definition'', ''(?:export%s+)?(?:type|interface)%s+(%w+)''),
      (''constant_definition'', ''(?:export%s+)?const%s+(%w+)'')]"

definition advancedPatterns :: "(string \<times> pat list) list" where
  "advancedPatterns =
     [(''error_handling'', [Rx ''try%s*{'', Rx ''catch%s*%('', Rx ''throw%s+'', Lit ''Error('']),
      (''async_operations'', [Rx ''async%s+'', Rx ''await%s+'', Lit ''Promise.'', Lit ''.then('']),
      (''data_validation'', [Lit ''validate'', Lit ''schema'', Lit ''validation'', LitI ''validator'']),
      (''authentication'', [Lit ''auth'', Lit ''login'', Lit ''logout'', Lit ''token'', Lit ''jwt'',
                            LitI ''session'']),
      (''authorization'', [Lit ''permission'', Lit ''role'', Lit ''access'', Lit ''policy'',
                           LitI ''guard'']),
      (''caching'', [Lit ''cache'', Lit ''memo'', Lit ''useMemo'', LitI ''usecallback'']),
      (''testing'', [Lit ''test'', Lit ''spec'', Lit ''mock'', Lit ''describe'', Lit ''it('']),
      (''styling'', [Lit ''className'', Lit ''css'', Lit ''styled'', Lit ''style'']),
      (''state_management'', [Lit ''useState'', Lit ''useReducer'', Lit ''store'', LitI ''state'']),
      (''routing'', [Lit ''router'', Lit ''navigate'', Lit ''redirect'', Lit ''route'', Lit ''Link'']),
      (''data_fetching'', [Lit ''fetch'', Lit ''axios'', Lit ''useQuery'', Lit ''useMutation'',
                           LitI ''api''])]"

definition emptyAnalysis :: SemanticChanges where
  "emptyAnalysis = \<lparr>sc_changeType = ''modification'', sc_patterns = [], sc_frameworks = [],
                     sc_keywords = [], sc_codeElements = [], sc_apiChanges = [],
                     sc_dataChanges = []\<rparr>"

text \<open>The step of the loop over the HTTP methods in \<^verbatim>\<open>analyzeSemanticChanges\<close>.\<close>

definition methodStep :: "string \<Rightarrow> string \<Rightarrow> SemanticChanges \<Rightarrow> SemanticChanges" where
  "methodStep diff method analysis =
     (if includes_js diff (''export async function '' @ method) \<or>
         includes_js diff (''app.'' @ toLowerCase method)
      then analysis\<lparr>sc_apiChanges := sc_apiChanges analysis @ [method @ '' endpoint''],
                    sc_patterns := setAdd ''api_endpoint'' (sc_patterns analysis)\<rparr>
      else analysis)"

definition codePatternStep ::
  "(string \<Rightarrow> string \<Rightarrow> string list) \<Rightarrow> string \<Rightarrow> string \<times> string \<Rightarrow> SemanticChanges \<Rightarrow> SemanticChanges" where
  "codePatternStep rxAll diff entry analysis =
     (let matches = rxAll (snd entry) diff
      in if matches \<noteq> []
         then analysis\<lparr>sc_patterns := setAdd (fst entry) (sc_patterns analysis),
                       sc_codeElements := fold setAdd matches (sc_codeElements analysis)\<rparr>
         else analysis)"

definition advancedPatternStep ::
  "(string \<Rightarrow> string \<Rightarrow> bool) \<Rightarrow> string \<Rightarrow> string \<times> pat list \<Rightarrow> SemanticChanges \<Rightarrow> SemanticChanges" where
  "advancedPatternStep rx diff entry analysis =
     (if list_ex (\<lambda>p. test rx p diff) (snd entry)
      then analysis\<lparr>sc_patterns := setAdd (fst entry) (sc_patterns analysis)\<rparr>
      else analysis)"

text \<open>
  \<^verbatim>\<open>analyzeSemanticChanges(diff, filePath)\<close>. The lists of added and removed lines that the
  source computes are not used by it afterwards.
\<close>

definition analyzeSemanticChanges ::
  "(string \<Rightarrow> string \<Rightarrow> bool) \<Rightarrow> (string \<Rightarrow> string \<Rightarrow> string list) \<Rightarrow> string \<Rightarrow> string \<Rightarrow>
   SemanticChanges" where
  "analyzeSemanticChanges rx rxAll diff filePath =
     (if noDiff diff then emptyAnalysis
      else
        let a0 = emptyAnalysis;
            a1 = (if includesAny filePath [''database/'', ''sql/'', ''migrations/'']
                  then let b0 = a0\<lparr>sc_frameworks := setAdd ''Database'' (sc_frameworks a0)\<rparr>;
                           b1 = (if includes_js diff ''CREATE TABLE'' \<or> includes_js diff ''ALTER TABLE''
                                 then b0\<lparr>sc_changeType := ''schema_change'',
                                         sc_patterns := setAdd ''database_schema'' (sc_patterns b0)\<rparr>
                                 else b0)
                       in if includes_js diff ''CREATE POLICY'' \<or> includes_js diff ''ALTER POLICY''
                          then b1\<lparr>sc_patterns := setAdd ''security_policy'' (sc_patterns b1)\<rparr>
                          else b1
                  else a0);
            a2 = (if endsWith filePath ''.tsx'' \<or> endsWith filePath ''.jsx''
                  then let b0 = a1\<lparr>sc_frameworks := setAdd ''React'' (sc_frameworks a1)\<rparr>;
                           b1 = (if includes_js diff ''useState'' \<or> includes_js diff ''useEffect''
                                 then b0\<lparr>sc_patterns := setAdd ''react_hooks'' (sc_patterns b0)\<rparr>
                                 else b0)
                       in if includes_js diff ''useCallback'' \<or> includes_js diff ''useMemo''
                          then b1\<lparr>sc_patterns :=
                                    setAdd ''performance_optimization'' (sc_patterns b1)\<rparr>
                          else b1
                  else a1);
            a3 = (if includes_js filePath ''/api/'' \<or> includes_js filePath ''route.''
                  then fold (methodStep diff) [''GET'', ''POST'', ''PUT'', ''DELETE'', ''PATCH'']
                         (a2\<lparr>sc_frameworks := setAdd ''API'' (sc_frameworks a2),
                             sc_changeType := ''api_change''\<rparr>)
                  else a2);
            a4 = fold (codePatternStep rxAll diff) codePatterns a3
        in fold (advancedPatternStep rx diff) advancedPatterns a4)"

definition determineChangeScope :: "string \<Rightarrow> string" where
  "determineChangeScope filePath =
     (if filePath = [] then ''local''
      else if includesAny filePath [''/lib/'', ''/utils/'', ''shared/''] then ''wide''
      else if includesAny filePath [''/components/'', ''/hooks/''] then ''moderate''
      else ''local'')"

definition breakingPatterns :: "pat list" where
  "breakingPatterns =
     [Rx ''BREAKING%s*CHANGE/i'', Rx ''export%s+(?:interface|type)%s+%w+.*{'',
      Rx ''export%s+(?:const|function)%s+%w+'', Rx ''DROP%s+TABLE/i'', Rx ''ALTER%s+TABLE.*DROP/i'',
      LitI ''removefield'', LitI ''deletecolumn'']"

definition securityPatterns :: "pat list" where
  "securityPatterns =
     map LitI [''auth'', ''security'', ''password'', ''token'', ''jwt'', ''encrypt'', ''decrypt'',
               ''hash'', ''validate'', ''sanitize'', ''policy'', ''permission'', ''role'', ''access'',
               ''cors'']"

definition performancePatterns :: "pat list" where
  "performancePatterns =
     map LitI [''lazy'', ''memo'', ''callback'', ''optimize'', ''cache'', ''index'', ''query'',
               ''batch'', ''concurrent'', ''async'']"

text \<open>\<^verbatim>\<open>analyzeFunctionalImpact(diff, filePath, status)\<close>.\<close>

definition analyzeFunctionalImpact ::
  "(string \<Rightarrow> string \<Rightarrow> bool) \<Rightarrow> string \<Rightarrow> string \<Rightarrow> string \<Rightarrow> FunctionalImpact" where
  "analyzeFunctionalImpact rx diff filePath status =
     (let impact = \<lparr>fi_scope = determineChangeScope filePath, fi_breaking = False,
                     fi_userFacing = False, fi_apiChanges = False, fi_dataChanges = False,
                     fi_securityRelated = False, fi_performanceImpact = False,
                     fi_migrationRequired = False, fi_deploymentImpact = ''low''\<rparr>
      in if noDiff diff then impact
         else
           let breaking = list_ex (\<lambda>p. test rx p diff) breakingPatterns;
               userFacing = includesAny filePath
                 [''/pages/'', ''/app/'', ''/src/'', ''/components/'', ''/views/'', ''/templates/'',
                  ''/public/'', ''.css'', ''.scss'', ''.html''];
               apiChanges = (includes_js filePath ''/api/'' \<or> includes_js filePath ''route.'' \<or>
                             includes_js diff ''export async function'' \<or>
                             includes_js diff ''app.get'' \<or> includes_js diff ''app.post'');
               dataChanges = (includes_js filePath ''database/'' \<or>
                              includes_js filePath ''migration'' \<or>
                              includes_js filePath ''schema'' \<or>
                              includes_js diff ''CREATE TABLE'' \<or> includes_js diff ''ALTER TABLE'');
               securityRelated = list_ex (\<lambda>p. test rx p diff) securityPatterns;
               performanceImpact = list_ex (\<lambda>p. test rx p diff) performancePatterns;
               migrationRequired = (breaking \<or> dataChanges \<or>
                                    includes_js filePath ''package.json'' \<or>
                                    includes_js filePath ''.env'');
               deploymentImpact =
                 (if breaking \<or> dataChanges then ''high''
                  else if apiChanges \<or> securityRelated \<or> includes_js filePath ''config''
                  then ''medium''
                  else ''low'')
           in impact\<lparr>fi_breaking := breaking, fi_userFacing := userFacing,
                      fi_apiChanges := apiChanges, fi_dataChanges := dataChanges,
                      fi_securityRelated := securityRelated,
                      fi_performanceImpact := performanceImpact,
                      fi_migrationRequired := migrationRequired,
                      fi_deploymentImpact := deploymentImpact\<rparr>)"

definition revenueKeywords :: "pat list" where
  "revenueKeywords =
     map LitI [''payment'', ''billing'', ''subscription'', ''checkout'', ''revenue'', ''pricing'',
               ''plan'', ''upgrade'', ''downgrade'']"

text \<open>\<^verbatim>\<open>assessBusinessRelevance(filePath, diff)\<close>.\<close>

definition assessBusinessRelevance ::
  "(string \<Rightarrow> string \<Rightarrow> bool) \<Rightarrow> string \<Rightarrow> string \<Rightarrow> BusinessRelevance" where
  "assessBusinessRelevance rx filePath diff =
     (let relevance = \<lparr>br_priority = ''low'', br_userImpact = ''minimal'',
                        br_businessValue = ''technical'', br_customerFacing = False,
                        br_revenueImpact = False\<rparr>
      in if filePath = [] then relevance
         else
           let r1 = (if includesAny filePath
                          [''/dashboard'', ''/billing'', ''/auth'', ''/onboarding'', ''/checkout'',
                           ''/payment'', ''/subscription'', ''/profile'']
                     then relevance\<lparr>br_priority := ''high'', br_customerFacing := True,
                                     br_businessValue := ''direct''\<rparr>
                     else if includesAny filePath
                          [''/app/'', ''/components/ui'', ''/components/forms'', ''/api/auth'',
                           ''/api/users'']
                     then relevance\<lparr>br_priority := ''medium'', br_customerFacing := True,
                                     br_businessValue := ''indirect''\<rparr>
                     else relevance)
           in if diff \<noteq> []
              then r1\<lparr>br_revenueImpact := list_ex (\<lambda>p. test rx p diff) revenueKeywords\<rparr>
              else r1)"

text \<open>
  \<^verbatim>\<open>analyzeFileChange(commitHash, status, filePath)\<close>. The parameter \<open>execGitSafe\<close> is the call
  \<^verbatim>\<open>this.gitManager.execGitSafe(command)\<close>: the output of the command, the empty string when
  the command fails, and \<open>None\<close> when the call itself throws. Each call sits in a
  \<^verbatim>\<open>try\<close> of its own; no other step of the function throws on strings, so the \<^verbatim>\<open>catch\<close> that
  returns \<^verbatim>\<open>null\<close> is not reached and the function returns a file-change object.
\<close>

definition dq :: string where
  "dq = [char_of (34 :: nat)]"

definition diffCommand :: "string \<Rightarrow> string \<Rightarrow> string" where
  "diffCommand commitHash filePath =
     ''git show '' @ commitHash @ '' --pretty=format: -U5 -- '' @ dq @ filePath @ dq"

definition analyzeFileChange ::
  "(string \<Rightarrow> string option) \<Rightarrow> (string \<Rightarrow> string \<Rightarrow> bool) \<Rightarrow> (string \<Rightarrow> string \<Rightarrow> string list) \<Rightarrow>
   string \<Rightarrow> string \<Rightarrow> string \<Rightarrow> FileChange" where
  "analyzeFileChange execGitSafe rx rxAll commitHash status filePath =
     (let diff = (case execGitSafe (diffCommand commitHash filePath) of
                    Some out \<Rightarrow> out
                  | None \<Rightarrow> unavailable);
          beforeContent =
            (if status \<noteq> ''A'' \<and> diff \<noteq> unavailable
             then (case execGitSafe (''git show '' @ commitHash @ ''~1:'' @ dq @ filePath @ dq) of
                     Some out \<Rightarrow> take 1000 out
                   | None \<Rightarrow> [])
             else []);
          afterContent =
            (if status \<noteq> ''D'' \<and> diff \<noteq> unavailable
             then (case execGitSafe (''git show '' @ commitHash @ '':'' @ dq @ filePath @ dq) of
                     Some out \<Rightarrow> take 1000 out
                   | None \<Rightarrow> [])
             else [])
      in \<lparr>fc_status = status, fc_filePath = filePath, fc_diff = diff,
          fc_beforeContent = beforeContent, fc_afterContent = afterContent,
          fc_category = categorizeFile filePath, fc_language = detectLanguage filePath,
          fc_importance = assessFileImportance filePath status,
          fc_complexity = assessChangeComplexity diff,
          fc_semanticChanges = analyzeSemanticChanges rx rxAll diff filePath,
          fc_functionalImpact = analyzeFunctionalImpact rx diff filePath status,
          fc_businessRelevance = assessBusinessRelevance rx filePath diff\<rparr>)"

text \<open>
  The files of a commit, as \<^verbatim>\<open>getCommitAnalysis\<close> computes them from the output of
  \<^verbatim>\<open>git show --name-status\<close>: one line per file, status and path separated by a tab; a line
  without a tab gives \<^verbatim>\<open>null\<close> and is filtered out.
\<close>

definition tab :: char where
  "tab = char_of (9 :: nat)"

definition getCommitAnalysis_files ::
  "(string \<Rightarrow> string option) \<Rightarrow> (string \<Rightarrow> string \<Rightarrow> bool) \<Rightarrow> (string \<Rightarrow> string \<Rightarrow> string list) \<Rightarrow>
   string \<Rightarrow> string \<Rightarrow> FileChange list" where
  "getCommitAnalysis_files execGitSafe rx rxAll commitHash filesOutput =
     List.map_filter
       (\<lambda>line. let parts = split_js tab line
               in if length parts < 2 then None
                  else Some (analyzeFileChange execGitSafe rx rxAll commitHash
                               (parts ! 0) (parts ! 1)))
       (filter (\<lambda>line. line \<noteq> []) (split_js newline filesOutput))"

text \<open>
  Example inputs for the classifier: a git manager whose calls throw, one whose commands all
  fail, and an engine that finds no match.
\<close>

definition throwingGit :: "string \<Rightarrow> string option" where
  "throwingGit command = None"

definition failingGit :: "string \<Rightarrow> string option" where
  "failingGit command = Some []"

definition noMatch :: "string \<Rightarrow> string \<Rightarrow> bool" where
  "noMatch src text = False"

definition noMatches :: "string \<Rightarrow> string \<Rightarrow> string list" where
  "noMatches src text = []"

section \<open>Commit record parser of the git manager\<close>

text \<open>
  The git manager has its own type and scope extraction: its type pattern also knows
  \<^verbatim>\<open>breaking\<close>, its inference table has no entry for dependencies, and its scope pattern
  \<^verbatim>\<open>^\w+\((.+)\)!?:\<close> is case-sensitive over word characters and trims the scope.
\<close>

definition gm_commitTypes :: "string list" where
  "gm_commitTypes = [''feat'', ''fix'', ''docs'', ''style'', ''refactor'', ''perf'', ''test'', ''build'',
                     ''ci'', ''chore'', ''revert'', ''breaking'', ''security'', ''deps'', ''config'',
                     ''ui'', ''api'', ''db'', ''wip'']"

definition gm_inferTypeFromMessage :: "string \<Rightarrow> string" where
  "gm_inferTypeFromMessage message =
     (if message = [] then ''other''
      else let lowerMessage = toLowerCase message;
               has = includes_js lowerMessage
           in if has ''add'' \<or> has ''new'' \<or> has ''implement'' then ''feat''
              else if has ''fix'' \<or> has ''bug'' \<or> has ''resolve'' then ''fix''
              else if has ''update'' \<or> has ''upgrade'' \<or> has ''improve'' then ''refactor''
              else if has ''remove'' \<or> has ''delete'' \<or> has ''clean'' then ''chore''
              else if has ''test'' \<or> has ''spec'' then ''test''
              else if has ''doc'' \<or> has ''readme'' then ''docs''
              else if has ''style'' \<or> has ''format'' \<or> has ''lint'' then ''style''
              else if has ''performance'' \<or> has ''perf'' \<or> has ''optimize'' then ''perf''
              else if has ''security'' \<or> has ''vulnerability'' then ''security''
              else if has ''config'' \<or> has ''setting'' then ''config''
              else if has ''build'' \<or> has ''deploy'' \<or> has ''release'' then ''build''
              else if has ''ci'' \<or> has ''workflow'' \<or> has ''action'' then ''ci''
              else ''other'')"

definition gm_extractCommitType :: "string \<Rightarrow> string" where
  "gm_extractCommitType message =
     (if message = [] then ''other''
      else case conventionalType gm_commitTypes message of
             Some t \<Rightarrow> t
           | None \<Rightarrow> gm_inferTypeFromMessage message)"

definition isWordChar :: "char \<Rightarrow> bool" where
  "isWordChar c = (let n = (of_char c :: nat)
                   in (48 \<le> n \<and> n \<le> 57) \<or> (65 \<le> n \<and> n \<le> 90) \<or> n = 95 \<or>
                      (97 \<le> n \<and> n \<le> 122))"

definition gm_extractCommitScope :: "string \<Rightarrow> string option" where
  "gm_extractCommitScope message =
     (if message = [] then None
      else let word = takeWhile isWordChar message;
               r = dropWhile isWordChar message
           in if word = [] \<or> scopeEnds r = [] then None
              else Some (trim_js (take (last (scopeEnds r)) (tl r))))"

text \<open>The commit objects of the four shapes that \<^verbatim>\<open>parseCommitOutput\<close> returns.\<close>

record SimpleCommit =
  s_shortHash :: string
  s_message :: string
  s_author :: string
  s_date :: string
  s_type :: string
  s_scope :: "string option"

text \<open>The three last fields are present in the detailed format only.\<close>

record FullCommit =
  f_hash :: string
  f_shortHash :: string
  f_subject :: string
  f_body :: string
  f_message :: string
  f_author :: string
  f_email :: string
  f_authorDate :: string
  f_commitDate :: string
  f_type :: string
  f_scope :: "string option"
  f_breaking :: bool
  f_parents :: "string list option"
  f_refs :: "string option"
  f_isMerge :: "bool option"

datatype commit =
    OnelineCommit string "string option" string
  | SimpleC SimpleCommit
  | FullC FullCommit
  | MessageOnly string

definition pipe :: char where
  "pipe = CHR ''|''"

definition nul :: char where
  "nul = char_of (0 :: nat)"

definition parseOnelineLine :: "string \<Rightarrow> commit" where
  "parseOnelineLine line =
     (if CHR '' '' \<notin> set line then OnelineCommit line None []
      else let hash = takeWhile (\<lambda>c. c \<noteq> CHR '' '') line
           in OnelineCommit hash (Some hash) (drop (length hash + 1) line))"

definition parseSimpleLine :: "string \<Rightarrow> commit option" where
  "parseSimpleLine line =
     (let parts = split_js pipe line
      in if length parts < 4 then None
         else Some (SimpleC
           \<lparr>s_shortHash = trim_js (parts ! 0), s_message = trim_js (parts ! 1),
            s_author = trim_js (parts ! 2), s_date = trim_js (parts ! 3),
            s_type = gm_extractCommitType (parts ! 1),
            s_scope = gm_extractCommitScope (parts ! 1)\<rparr>))"

definition parseFullLine :: "string \<Rightarrow> string \<Rightarrow> commit option" where
  "parseFullLine format line =
     (let parts = split_js pipe line
      in if length parts < 8 then None
         else
           let subject = parts ! 2;
               body = parts ! 3;
               parents = (if length parts > 8
                          then filter (\<lambda>p. p \<noteq> []) (split_js (CHR '' '') (trim_js (parts ! 8)))
                          else []);
               refs = (if length parts > 9 then trim_js (parts ! 9) else [])
           in Some (FullC
             \<lparr>f_hash = trim_js (parts ! 0), f_shortHash = trim_js (parts ! 1),
              f_subject = trim_js subject, f_body = trim_js body,
              f_message = trim_js subject @
                          (if trim_js body \<noteq> [] then [newline, newline] @ trim_js body else []),
              f_author = trim_js (parts ! 4), f_email = trim_js (parts ! 5),
              f_authorDate = trim_js (parts ! 6), f_commitDate = trim_js (parts ! 7),
              f_type = gm_extractCommitType subject, f_scope = gm_extractCommitScope subject,
              f_breaking = isBreakingChange subject body,
              f_parents = (if format = ''detailed'' then Some parents else None),
              f_refs = (if format = ''detailed'' then Some refs else None),
              f_isMerge = (if format = ''detailed'' then Some (length parents > 1) else None)\<rparr>))"

text \<open>
  \<^verbatim>\<open>parseCommitOutput(output, format)\<close>. The records of the full and the detailed format are
  separated by the character with code 0, those of the other formats by line feeds. No step
  inside the \<^verbatim>\<open>try\<close> block throws on strings, so its \<^verbatim>\<open>catch\<close> branch is not reached.
\<close>

definition recordSeparator :: "string \<Rightarrow> char" where
  "recordSeparator format = (if format = ''full'' \<or> format = ''detailed'' then nul else newline)"

definition recordLines :: "string \<Rightarrow> string \<Rightarrow> string list" where
  "recordLines output format =
     (if format = ''full'' \<or> format = ''detailed''
      then filter (\<lambda>line. line \<noteq> []) (split_js nul (trim_js output))
      else filter (\<lambda>line. trim_js line \<noteq> []) (split_js newline (trim_js output)))"

definition parseCommitOutput :: "string \<Rightarrow> string \<Rightarrow> commit list" where
  "parseCommitOutput output format =
     (if trim_js output = [] then []
      else let lines = recordLines output format
           in if format = ''oneline'' then map parseOnelineLine lines
              else if format = ''simple'' then List.map_filter parseSimpleLine lines
              else if format = ''full'' \<or> format = ''detailed''
              then List.map_filter (parseFullLine format) lines
              else map (\<lambda>line. MessageOnly (trim_js line)) lines)"

text \<open>
  A well-formed record, as the specification words it: it has at least the number of fields
  that its format expects, the fields being separated by \<^verbatim>\<open>|\<close>.
\<close>

definition expectedFields :: "string \<Rightarrow> nat" where
  "expectedFields format = (if format = ''simple'' then 4 else 8)"

definition wellFormed :: "string \<Rightarrow> string \<Rightarrow> bool" where
  "wellFormed format record = (expectedFields format \<le> length (split_js pipe record))"

definition parseRecord :: "string \<Rightarrow> string \<Rightarrow> commit option" where
  "parseRecord format record =
     (if format = ''simple'' then parseSimpleLine record else parseFullLine format record)"

section \<open>Listing commits\<close>

record Options =
  o_count :: "int option"
  o_since :: "string option"
  o_until :: "string option"
  o_author :: "string option"
  o_grep :: "string option"
  o_format :: "string option"
  o_excludeMerges :: "bool option"
  o_branch :: "string option"

text \<open>\<^verbatim>\<open>s.replace(/["\\]/g, '\\$&')\<close>: a backslash before every double quote and backslash.\<close>

definition escapeQuotes :: "string \<Rightarrow> string" where
  "escapeQuotes s =
     concat (map (\<lambda>c. if (of_char c :: nat) = 34 \<or> (of_char c :: nat) = 92
                       then [char_of (92 :: nat), c] else [c]) s)"

definition formatStrings :: "(string \<times> string) list" where
  "formatStrings =
     [(''simple'', ''%h|%s|%an|%ad''),
      (''full'', ''%H|%h|%s|%B|%an|%ae|%ad|%cd''),
      (''oneline'', ''%h %s''),
      (''detailed'', ''%H|%h|%s|%B|%an|%ae|%ad|%cd|%P|%D'')]"

text \<open>The requested count with its default of 20, and the format with its default.\<close>

definition countOption :: "Options \<Rightarrow> int" where
  "countOption options = (case o_count options of Some n \<Rightarrow> n | None \<Rightarrow> 20)"

definition formatOption :: "Options \<Rightarrow> string" where
  "formatOption options = (case o_format options of Some f \<Rightarrow> f | None \<Rightarrow> ''full'')"

text \<open>
  The pieces of the command of \<^verbatim>\<open>getCommits\<close>, in the order in which the source appends them.
  \<open>branchExists\<close> tells whether \<^verbatim>\<open>git rev-parse --verify\<close> succeeds for the branch, and
  \<open>isValidGitDate\<close> is the date check of the git manager.
\<close>

definition branchArg :: "(string \<Rightarrow> bool) \<Rightarrow> Options \<Rightarrow> string" where
  "branchArg branchExists options =
     (case o_branch options of
        Some branch \<Rightarrow> if branch \<noteq> [] \<and> branchExists branch then '' '' @ branch else []
      | None \<Rightarrow> [])"

definition countArg :: "Options \<Rightarrow> string" where
  "countArg options =
     (let count = countOption options
      in if count \<noteq> 0 \<and> count > 0 then '' -'' @ decimal (nat (min count 1000)) else [])"

definition dateArg :: "(string \<Rightarrow> bool) \<Rightarrow> string \<Rightarrow> string option \<Rightarrow> string" where
  "dateArg isValidGitDate name v =
     (case v of
        Some d \<Rightarrow> if d \<noteq> [] \<and> isValidGitDate d then '' --'' @ name @ ''='' @ dq @ d @ dq else []
      | None \<Rightarrow> [])"

definition filterArg :: "string \<Rightarrow> string option \<Rightarrow> string" where
  "filterArg name v =
     (case v of
        Some s \<Rightarrow> if s \<noteq> [] then '' --'' @ name @ ''='' @ dq @ escapeQuotes s @ dq else []
      | None \<Rightarrow> [])"

text \<open>
  \<^verbatim>\<open>formatStrings[format] || formatStrings.full\<close>, written into the command by a template string.
  A format that names an inherited member puts the text of that member into the command.
\<close>

definition formatArgs :: "Options \<Rightarrow> string" where
  "formatArgs options =
     (let format = formatOption options;
          formatString = (case lookup formatStrings format of
                            Some m \<Rightarrow> if memberTruthy m then memberText m
                                      else ''%H|%h|%s|%B|%an|%ae|%ad|%cd''
                          | None \<Rightarrow> ''%H|%h|%s|%B|%an|%ae|%ad|%cd'')
      in '' --pretty=format:'' @ dq @ formatString @ dq @ '' --date=iso'' @
         (if format = ''full'' \<or> format = ''detailed'' then '' -z'' else []))"

definition getCommitsCommand :: "(string \<Rightarrow> bool) \<Rightarrow> (string \<Rightarrow> bool) \<Rightarrow> Options \<Rightarrow> string" where
  "getCommitsCommand branchExists isValidGitDate options =
     ''git log'' @ branchArg branchExists options @ countArg options @
     dateArg isValidGitDate ''since'' (o_since options) @
     dateArg isValidGitDate ''until'' (o_until options) @
     filterArg ''author'' (o_author options) @ filterArg ''grep'' (o_grep options) @
     (if (case o_excludeMerges options of Some b \<Rightarrow> b | None \<Rightarrow> True) then '' --no-merges'' else []) @
     formatArgs options"

text \<open>
  \<^verbatim>\<open>getCommits(options)\<close>. \<open>execGit\<close> runs a command: its output, or \<open>None\<close> when it throws, in
  which case the list of commits is empty.
\<close>

definition getCommits ::
  "(string \<Rightarrow> bool) \<Rightarrow> (string \<Rightarrow> bool) \<Rightarrow> (string \<Rightarrow> string option) \<Rightarrow> Options \<Rightarrow> commit list" where
  "getCommits branchExists isValidGitDate execGit options =
     (case execGit (getCommitsCommand branchExists isValidGitDate options) of
        Some output \<Rightarrow> parseCommitOutput output (formatOption options)
      | None \<Rightarrow> [])"

text \<open>
  The command of \<^verbatim>\<open>getCommits\<close> with the limit \<open>L\<close> in the place of the count argument. It is
  used to say that git honours the limit that a command carries.
\<close>

definition commandWithLimit ::
  "(string \<Rightarrow> bool) \<Rightarrow> (string \<Rightarrow> bool) \<Rightarrow> Options \<Rightarrow> nat \<Rightarrow> string" where
  "commandWithLimit branchExists isValidGitDate options L =
     ''git log'' @ branchArg branchExists options @ '' -'' @ decimal L @
     dateArg isValidGitDate ''since'' (o_since options) @
     dateArg isValidGitDate ''until'' (o_until options) @
     filterArg ''author'' (o_author options) @ filterArg ''grep'' (o_grep options) @
     (if (case o_excludeMerges options of Some b \<Rightarrow> b | None \<Rightarrow> True) then '' --no-merges'' else []) @
     formatArgs options"

text \<open>The formats for which \<^verbatim>\<open>parseCommitOutput\<close> has a branch of its own.\<close>

definition knownFormat :: "string \<Rightarrow> bool" where
  "knownFormat format =
     (format = ''oneline'' \<or> format = ''simple'' \<or> format = ''full'' \<or> format = ''detailed'')"

text \<open>
  Example inputs: options that ask for 5000 commits and for one commit in the simple format;
  a repository with two commits, and its git, which answers the commands of these options
  with at most as many commits as their limit says; a log of three records in the simple
  format, the second of which lacks fields.
\<close>

definition acceptAll :: "string \<Rightarrow> bool" where
  "acceptAll s = True"

definition manyOptions :: Options where
  "manyOptions = \<lparr>o_count = Some 5000, o_since = None, o_until = None, o_author = None,
                   o_grep = None, o_format = Some ''simple'', o_excludeMerges = None,
                   o_branch = None\<rparr>"

definition twoCommitLog :: string where
  "twoCommitLog = ''1f3c5a7|feat(auth): add login|dev|2025-06-01'' @ [newline] @
                  ''2e4d6f8|fix!: remove deprecated endpoint|dev|2025-06-02''"

definition oneOptions :: Options where
  "oneOptions = manyOptions\<lparr>o_count := Some 1\<rparr>"

definition twoCommitGit :: "string \<Rightarrow> string option" where
  "twoCommitGit command =
     (if command = commandWithLimit acceptAll acceptAll manyOptions 0 then Some []
      else if command = commandWithLimit acceptAll acceptAll manyOptions 1
      then Some ''1f3c5a7|feat(auth): add login|dev|2025-06-01''
      else Some twoCommitLog)"

definition threeRecords :: "string list" where
  "threeRecords = [''1f3c5a7|feat(auth): add login|dev|2025-06-01'',
                   ''garbled line'',
                   ''2e4d6f8|fix!: remove deprecated endpoint|dev|2025-06-02'']"

text \<open>The lines of an output that are not blank, each without the white space at its ends.\<close>

definition trimmedLines :: "string \<Rightarrow> string list" where
  "trimmedLines output = filter (\<lambda>line. line \<noteq> []) (map trim_js (split_js newline output))"

text \<open>
  Further example inputs: options that ask for 3 and for 5000 commits in a format that the
  git manager does not know, \<^verbatim>\<open>custom\<close>. Their command asks for the format string of the full
  format, without \<^verbatim>\<open>-z\<close>, so git prints every commit on several lines: the hashes and the
  subject, then the message, which \<^verbatim>\<open>%B\<close> prints with its line breaks, then the remaining
  fields. \<open>printedCommit i\<close> is commit number \<open>i\<close> printed so, and the two gits answer every
  command with the first 3 and the first 1000 commits of a long history.
\<close>

definition customOptions :: Options where
  "customOptions = \<lparr>o_count = Some 3, o_since = None, o_until = None, o_author = None,
                     o_grep = None, o_format = Some ''custom'', o_excludeMerges = None,
                     o_branch = None\<rparr>"

definition largeOptions :: Options where
  "largeOptions = customOptions\<lparr>o_count := Some 5000\<rparr>"

definition printedLines :: "nat \<Rightarrow> string list" where
  "printedLines i =
     [''c'' @ decimal i @ ''|c'' @ decimal i @ ''|feat: change|feat: change'',
      [],
      ''details of the change'',
      ''|dev|dev@example.org|2025-06-01|2025-06-01'']"

definition printedCommit :: "nat \<Rightarrow> string" where
  "printedCommit i = join_js [newline] (printedLines i)"

definition customGit :: "string \<Rightarrow> string option" where
  "customGit command = Some (join_js [newline] (map printedCommit [0..<3]))"

definition largeGit :: "string \<Rightarrow> string option" where
  "largeGit command = Some (join_js [newline] (map printedCommit [0..<1000]))"

section \<open>Verified properties\<close>

subsection \<open>Substring tests\<close>

lemma startsWith_iff: "startsWith s p \<longleftrightarrow> (\<exists>b. s = p @ b)"
proof
  assume "startsWith s p"
  then have "take (length p) s = p" by (simp add: startsWith_def)
  then have "s = p @ drop (length p) s" by (metis append_take_drop_id)
  then show "\<exists>b. s = p @ b" ..
next
  assume "\<exists>b. s = p @ b"
  then obtain b where "s = p @ b" ..
  then show "startsWith s p" by (simp add: startsWith_def)
qed

lemma includes_js_iff: "includes_js s p \<longleftrightarrow> (\<exists>a b. s = a @ p @ b)"
proof (induction s)
  case Nil
  show ?case by simp
next
  case (Cons c cs)
  show ?case
  proof
    assume "includes_js (c # cs) p"
    then consider "startsWith (c # cs) p" | "includes_js cs p" by auto
    then show "\<exists>a b. c # cs = a @ p @ b"
    proof cases
      case 1
      then obtain b where "c # cs = p @ b" unfolding startsWith_iff ..
      then have "c # cs = [] @ p @ b" by simp
      then show ?thesis by (intro exI)
    next
      case 2
      then obtain a b where "cs = a @ p @ b" unfolding Cons.IH by (elim exE)
      then have "c # cs = (c # a) @ p @ b" by simp
      then show ?thesis by (intro exI)
    qed
  next
    assume "\<exists>a b. c # cs = a @ p @ b"
    then obtain a b where ab: "c # cs = a @ p @ b" by (elim exE)
    show "includes_js (c # cs) p"
    proof (cases a)
      case Nil
      with ab have "c # cs = p @ b" by simp
      then have "startsWith (c # cs) p" unfolding startsWith_iff ..
      then show ?thesis by simp
    next
      case (Cons x a')
      with ab have "cs = a' @ p @ b" by simp
      then have "\<exists>a b. cs = a @ p @ b" by (intro exI)
      then have "includes_js cs p" unfolding Cons.IH .
      then show ?thesis by simp
    qed
  qed
qed

lemma includes_js_mono:
  assumes "includes_js s q" and "includes_js q p"
  shows "includes_js s p"
proof -
  from assms(1) obtain a b where 1: "s = a @ q @ b"
    unfolding includes_js_iff by (elim exE)
  from assms(2) obtain c d where 2: "q = c @ p @ d"
    unfolding includes_js_iff by (elim exE)
  from 1 2 have "s = (a @ c) @ p @ (d @ b)" by simp
  then have "\<exists>x y. s = x @ p @ y" by (intro exI)
  then show ?thesis unfolding includes_js_iff .
qed

lemma toUpperCase_append: "toUpperCase (a @ b) = toUpperCase a @ toUpperCase b"
  by (simp add: toUpperCase_def)

lemma includes_js_toUpperCase:
  assumes "includes_js s p"
  shows "includes_js (toUpperCase s) (toUpperCase p)"
proof -
  from assms obtain a b where "s = a @ p @ b"
    unfolding includes_js_iff by (elim exE)
  then have "toUpperCase s = toUpperCase a @ toUpperCase p @ toUpperCase b"
    by (simp add: toUpperCase_append)
  then have "\<exists>x y. toUpperCase s = x @ toUpperCase p @ y" by (intro exI)
  then show ?thesis unfolding includes_js_iff .
qed

subsection \<open>C3: the breaking-change flag\<close>

lemma upper_breaking_change_colon: "toUpperCase ''BREAKING CHANGE:'' = ''BREAKING CHANGE:''"
  by code_simp

lemma breaking_change_in_colon: "includes_js ''BREAKING CHANGE:'' ''BREAKING CHANGE''"
  by code_simp

lemma breaking_in_breaking_change: "includes_js ''BREAKING CHANGE'' ''BREAKING''"
  by code_simp

lemma body_colon_subsumed:
  assumes "includes_js body ''BREAKING CHANGE:''"
  shows "includes_js (toUpperCase body) ''BREAKING CHANGE''"
proof -
  have "includes_js (toUpperCase body) ''BREAKING CHANGE:''"
    using includes_js_toUpperCase [OF assms] upper_breaking_change_colon by simp
  then show ?thesis by (rule includes_js_mono [OF _ breaking_change_in_colon])
qed

text \<open>
  C3, as stated, fails on the code. The subject \<^verbatim>\<open>fix breaking test\<close> with an empty body
  contains neither \<^verbatim>\<open>!:\<close> nor the token \<^verbatim>\<open>BREAKING CHANGE\<close>, yet the code sets the flag,
  because it looks for \<^verbatim>\<open>BREAKING\<close> alone in the upper-cased subject.
\<close>

theorem C3_subject_breaking_counterexample:
  "isBreakingChange ''fix breaking test'' '''' \<and> \<not> specBreaking ''fix breaking test'' ''''"
  by code_simp

text \<open>
  C3 amended: the flag is set exactly when the subject is not empty and one of the following
  holds: the condition of the claim (the subject contains \<^verbatim>\<open>!:\<close>, or subject or body contains
  \<^verbatim>\<open>BREAKING CHANGE\<close> in any letter case), or the subject contains \<^verbatim>\<open>BREAKING\<close> in any
  letter case, or the body contains \<^verbatim>\<open>BREAKING-CHANGE:\<close>. With an empty subject, or with none
  of these tokens, the flag is false.
\<close>

theorem C3_isBreakingChange_characterisation:
  "isBreakingChange subject body \<longleftrightarrow>
     subject \<noteq> [] \<and>
     (specBreaking subject body \<or>
      includes_js (toUpperCase subject) ''BREAKING'' \<or>
      includes_js body ''BREAKING-CHANGE:'')"
proof (cases "subject = []")
  case True
  then show ?thesis by (simp add: isBreakingChange_def)
next
  case False
  have sub: "includes_js (toUpperCase subject) ''BREAKING CHANGE''
      \<Longrightarrow> includes_js (toUpperCase subject) ''BREAKING''"
    by (rule includes_js_mono [OF _ breaking_in_breaking_change])
  show ?thesis
    using False sub body_colon_subsumed [of body]
    unfolding isBreakingChange_def specBreaking_def by auto
qed

theorem C3_isBreakingChange_characterisation_witness:
  "isBreakingChange ''fix!: remove deprecated endpoint'' '''' \<and>
   specBreaking ''fix!: remove deprecated endpoint'' '''' \<and>
   \<not> isBreakingChange '''' ''BREAKING CHANGE: gone'' \<and>
   \<not> isBreakingChange ''feat(auth): add login'' ''''"
proof -
  have a: "specBreaking ''fix!: remove deprecated endpoint'' ''''"
    by code_simp
  have b: "\<not> specBreaking ''feat(auth): add login'' ''''"
    by code_simp
  have c: "\<not> includes_js (toUpperCase ''feat(auth): add login'') ''BREAKING''"
    by code_simp
  have d: "\<not> includes_js '''' ''BREAKING-CHANGE:''"
    by simp
  show ?thesis
    using a b c d
      C3_isBreakingChange_characterisation [of "''fix!: remove deprecated endpoint''" "''''"]
      C3_isBreakingChange_characterisation [of "''''" "''BREAKING CHANGE: gone''"]
      C3_isBreakingChange_characterisation [of "''feat(auth): add login''" "''''"]
    by simp
qed

subsection \<open>Scores and levels of the aggregator\<close>

lemma assessRisk_score:
  "risk_score (assessRisk files d s b) =
     (if isBreakingChange s b then 5 else 0) +
     (if list_ex (\<lambda>f. fc_category f = ''database'') files then 3 else 0) +
     (if list_ex (\<lambda>f. fc_category f = ''config'') files then 2 else 0) +
     (if length files > 50 \<or> ds_insertions d + ds_deletions d > 2000 then 2 else 0) +
     (if list_ex (\<lambda>keyword. includes_js (toLowerCase s) keyword \<or>
                              includes_js (toLowerCase b) keyword) securityKeywords then 3 else 0)"
  by (simp add: assessRisk_def Let_def)

lemma assessRisk_level:
  "risk_level (assessRisk files d s b) =
     (let n = risk_score (assessRisk files d s b) in
      if n \<ge> 8 then ''critical'' else if n \<ge> 6 then ''high''
      else if n \<ge> 4 then ''medium'' else if n \<ge> 2 then ''low-medium'' else ''low'')"
  by (simp add: assessRisk_def Let_def)

lemma assessOverallComplexity_score:
  "cx_score (assessOverallComplexity files d) =
     (if length files > 50 then 5 else if length files > 20 then 3
      else if length files > 10 then 2 else if length files > 5 then 1 else 0) +
     (if ds_insertions d + ds_deletions d > 5000 then 5 else if ds_insertions d + ds_deletions d > 1000 then 3
      else if ds_insertions d + ds_deletions d > 500 then 2
      else if ds_insertions d + ds_deletions d > 100 then 1 else 0) +
     (if length (remdups (map fc_category files)) > 4 then 2
      else if length (remdups (map fc_category files)) > 2 then 1 else 0)"
  by (simp add: assessOverallComplexity_def Let_def)

lemma assessOverallComplexity_level:
  "cx_level (assessOverallComplexity files d) =
     (let n = cx_score (assessOverallComplexity files d) in
      if n \<ge> 8 then ''very high'' else if n \<ge> 6 then ''high''
      else if n \<ge> 4 then ''medium'' else if n \<ge> 2 then ''low'' else ''minimal'')"
  by (simp add: assessOverallComplexity_def Let_def)

lemma login_subject_security:
  "list_ex (\<lambda>keyword. includes_js (toLowerCase ''feat(auth): add login'') keyword \<or>
                        includes_js (toLowerCase b) keyword) securityKeywords"
proof -
  have "includes_js (toLowerCase ''feat(auth): add login'') ''auth''" by code_simp
  then show ?thesis by (simp add: securityKeywords_def)
qed

lemma login_subject_not_breaking: "\<not> isBreakingChange ''feat(auth): add login'' []"
  by code_simp

lemma empty_body_no_keyword: "\<not> includes_js (toLowerCase []) (c # cs)"
  by (simp add: toLowerCase_def startsWith_def)

lemma endpoint_subject_breaking: "isBreakingChange ''fix!: remove deprecated endpoint'' b"
proof -
  have "includes_js ''fix!: remove deprecated endpoint'' ''!:''" by code_simp
  then show ?thesis by (simp add: isBreakingChange_def)
qed

lemma login_commit_complexity:
  assumes "length files = 2" and "ds_insertions d + ds_deletions d = 40"
  shows "cx_score (assessOverallComplexity files d) = 0"
proof -
  have "length (remdups (map fc_category files)) \<le> 2"
    using length_remdups_leq [of "map fc_category files"] assms(1) by simp
  then show ?thesis using assms by (simp add: assessOverallComplexity_score)
qed

lemma login_commit_risk_lower:
  "3 \<le> risk_score (assessRisk files d ''feat(auth): add login'' b)"
  using login_subject_security [of b] by (simp add: assessRisk_score)

lemma login_commit_risk_exact:
  assumes "length files = 2" and "ds_insertions d + ds_deletions d = 40"
    and "\<not> list_ex (\<lambda>f. fc_category f = ''database'') files"
    and "\<not> list_ex (\<lambda>f. fc_category f = ''config'') files"
  shows "risk_score (assessRisk files d ''feat(auth): add login'' []) = 3"
  using assms login_subject_security [of "[]"] login_subject_not_breaking
  by (simp add: assessRisk_score)

lemma login_commit_model:
  assumes "length files = 2" and "ds_insertions d + ds_deletions d = 40"
  shows "selectModelForCommit cfg provider
           (commitInfoOf files d ''feat(auth): add login'' br cx) = mc_nano cfg"
proof -
  have 1: "\<not> includes_js ''feat(auth): add login'' ''BREAKING''" by code_simp
  have 2: "\<not> includes_js ''feat(auth): add login'' ''!:''" by code_simp
  have 3: "\<not> includes_js (toLowerCase ''feat(auth): add login'') ''refactor''" by code_simp
  have 4: "\<not> includes_js (toLowerCase ''feat(auth): add login'') ''algorithm''" by code_simp
  have 5: "\<not> includes_js (toLowerCase ''feat(auth): add login'') ''architecture''" by code_simp
  show ?thesis
    using assms 1 2 3 4 5
    by (simp add: selectModelForCommit_def commitInfoOf_def Let_def)
qed

lemma endpoint_commit_complexity:
  assumes "length files = 120" and "ds_insertions d + ds_deletions d = 3000"
  shows "8 \<le> cx_score (assessOverallComplexity files d)"
  using assms by (simp add: assessOverallComplexity_score)

lemma endpoint_commit_risk:
  assumes "length files = 120" and "list_ex (\<lambda>f. fc_category f = ''database'') files"
  shows "10 \<le> risk_score (assessRisk files d ''fix!: remove deprecated endpoint'' b)"
  using assms endpoint_subject_breaking [of b] by (simp add: assessRisk_score)

subsection \<open>C2: the example commits\<close>

text \<open>
  C2, as stated, fails on the code for the first commit. With two files and 40 changed
  lines no bucket of the complexity score is reached, so the score is 0 and the level is
  \<^verbatim>\<open>minimal\<close>, not \<^verbatim>\<open>low\<close>; and the subject \<^verbatim>\<open>feat(auth): add login\<close> contains the security
  keyword \<^verbatim>\<open>auth\<close>, which adds 3 points of risk, so the risk level is \<^verbatim>\<open>low-medium\<close>, not
  \<^verbatim>\<open>low\<close>.
\<close>

theorem C2_login_commit_counterexample:
  "cx_level (assessOverallComplexity loginFiles loginStats) = ''minimal'' \<and>
   cx_level (assessOverallComplexity loginFiles loginStats) \<noteq> ''low'' \<and>
   risk_level (assessRisk loginFiles loginStats ''feat(auth): add login'' []) = ''low-medium'' \<and>
   risk_level (assessRisk loginFiles loginStats ''feat(auth): add login'' []) \<noteq> ''low''"
  by code_simp

text \<open>
  C2 amended. For every commit with subject \<^verbatim>\<open>feat(auth): add login\<close>, two files and 40 changed
  lines: the complexity score is 0 and the level \<^verbatim>\<open>minimal\<close>; the risk score is at least 3 and
  the risk level is never \<^verbatim>\<open>low\<close>, whatever the body; with an empty body and no file of
  category \<^verbatim>\<open>database\<close> or \<^verbatim>\<open>config\<close> the risk score is 3 and the level \<^verbatim>\<open>low-medium\<close>; the
  model selected is the cheapest tier, \<^verbatim>\<open>nano\<close>. For every commit with subject
  \<^verbatim>\<open>fix!: remove deprecated endpoint\<close>, 120 files, 3000 changed lines and a file of category
  \<^verbatim>\<open>database\<close>: the complexity level is \<^verbatim>\<open>very high\<close>, the risk level \<^verbatim>\<open>critical\<close> and the
  risk score at least 10.
\<close>

theorem C2_example_commits:
  assumes "length files1 = 2" and "ds_insertions d1 + ds_deletions d1 = 40"
    and "length files2 = 120" and "ds_insertions d2 + ds_deletions d2 = 3000"
    and "list_ex (\<lambda>f. fc_category f = ''database'') files2"
  shows "cx_level (assessOverallComplexity files1 d1) = ''minimal'' \<and>
         cx_score (assessOverallComplexity files1 d1) = 0 \<and>
         3 \<le> risk_score (assessRisk files1 d1 ''feat(auth): add login'' body1) \<and>
         risk_level (assessRisk files1 d1 ''feat(auth): add login'' body1) \<noteq> ''low'' \<and>
         (\<not> list_ex (\<lambda>f. fc_category f = ''database'') files1 \<and>
          \<not> list_ex (\<lambda>f. fc_category f = ''config'') files1 \<longrightarrow>
            risk_level (assessRisk files1 d1 ''feat(auth): add login'' []) = ''low-medium'' \<and>
            risk_score (assessRisk files1 d1 ''feat(auth): add login'' []) = 3) \<and>
         selectModelForCommit cfg provider
           (commitInfoOf files1 d1 ''feat(auth): add login'' br cx) = mc_nano cfg \<and>
         cx_level (assessOverallComplexity files2 d2) = ''very high'' \<and>
         risk_level (assessRisk files2 d2 ''fix!: remove deprecated endpoint'' body2) = ''critical'' \<and>
         10 \<le> risk_score (assessRisk files2 d2 ''fix!: remove deprecated endpoint'' body2)"
proof -
  have a: "cx_score (assessOverallComplexity files1 d1) = 0"
    using assms(1,2) by (rule login_commit_complexity)
  have b: "cx_level (assessOverallComplexity files1 d1) = ''minimal''"
    using a by (simp add: assessOverallComplexity_level)
  have c: "3 \<le> risk_score (assessRisk files1 d1 ''feat(auth): add login'' body1)"
    by (rule login_commit_risk_lower)
  have d: "risk_level (assessRisk files1 d1 ''feat(auth): add login'' body1) \<noteq> ''low''"
    using c by (simp add: assessRisk_level Let_def)
  have e: "\<not> list_ex (\<lambda>f. fc_category f = ''database'') files1 \<and>
          \<not> list_ex (\<lambda>f. fc_category f = ''config'') files1 \<longrightarrow>
            risk_level (assessRisk files1 d1 ''feat(auth): add login'' []) = ''low-medium'' \<and>
            risk_score (assessRisk files1 d1 ''feat(auth): add login'' []) = 3"
  proof
    assume h: "\<not> list_ex (\<lambda>f. fc_category f = ''database'') files1 \<and>
          \<not> list_ex (\<lambda>f. fc_category f = ''config'') files1"
    have s: "risk_score (assessRisk files1 d1 ''feat(auth): add login'' []) = 3"
      using assms(1,2) h by (simp add: login_commit_risk_exact)
    then show "risk_level (assessRisk files1 d1 ''feat(auth): add login'' []) = ''low-medium'' \<and>
            risk_score (assessRisk files1 d1 ''feat(auth): add login'' []) = 3"
      by (simp add: assessRisk_level Let_def)
  qed
  have f: "selectModelForCommit cfg provider
           (commitInfoOf files1 d1 ''feat(auth): add login'' br cx) = mc_nano cfg"
    using assms(1,2) by (rule login_commit_model)
  have g: "cx_level (assessOverallComplexity files2 d2) = ''very high''"
    using endpoint_commit_complexity [OF assms(3,4)] by (simp add: assessOverallComplexity_level Let_def)
  have i: "10 \<le> risk_score (assessRisk files2 d2 ''fix!: remove deprecated endpoint'' body2)"
    using assms(3,5) by (rule endpoint_commit_risk)
  have h: "risk_level (assessRisk files2 d2 ''fix!: remove deprecated endpoint'' body2) = ''critical''"
    using i by (simp add: assessRisk_level Let_def)
  show ?thesis using a b c d e f g h i by blast
qed

theorem C2_example_commits_witness:
  "length loginFiles = 2 \<and> ds_insertions loginStats + ds_deletions loginStats = 40 \<and>
   length endpointFiles = 120 \<and> ds_insertions endpointStats + ds_deletions endpointStats = 3000 \<and>
   list_ex (\<lambda>f. fc_category f = ''database'') endpointFiles \<and>
   cx_level (assessOverallComplexity loginFiles loginStats) = ''minimal'' \<and>
   risk_level (assessRisk loginFiles loginStats ''feat(auth): add login'' []) = ''low-medium'' \<and>
   selectModelForCommit defaultModelConfig ''openai''
     (commitInfoOf loginFiles loginStats ''feat(auth): add login'' False False) = ''gpt-4.1-nano'' \<and>
   cx_level (assessOverallComplexity endpointFiles endpointStats) = ''very high'' \<and>
   risk_level (assessRisk endpointFiles endpointStats ''fix!: remove deprecated endpoint'' [])
     = ''critical''"
proof -
  have h1: "length loginFiles = 2" by (simp add: loginFiles_def)
  have h2: "ds_insertions loginStats + ds_deletions loginStats = 40" by (simp add: loginStats_def)
  have h3: "length endpointFiles = 120" by (simp add: endpointFiles_def)
  have h4: "ds_insertions endpointStats + ds_deletions endpointStats = 3000"
    by (simp add: endpointStats_def)
  have h5: "list_ex (\<lambda>f. fc_category f = ''database'') endpointFiles"
    by (simp add: endpointFiles_def scenarioFile_def)
  have h6: "\<not> list_ex (\<lambda>f. fc_category f = ''database'') loginFiles \<and>
            \<not> list_ex (\<lambda>f. fc_category f = ''config'') loginFiles"
    by (simp add: loginFiles_def scenarioFile_def)
  have n: "mc_nano defaultModelConfig = ''gpt-4.1-nano''" by (simp add: defaultModelConfig_def)
  show ?thesis
    using h1 h2 h3 h4 h5 h6 n
      C2_example_commits [OF h1 h2 h3 h4 h5, of "[]" defaultModelConfig "''openai''" False False "[]"]
    by simp
qed

subsection \<open>C6: risk monotonicity\<close>

text \<open>
  C6: with the files and the diff statistics unchanged, a subject and body for which
  \<^verbatim>\<open>isBreakingChange\<close> holds never score less than a subject and body for which it does not
  hold, whatever else differs between the two messages.
\<close>

theorem C6_risk_monotone:
  assumes "\<not> isBreakingChange subject body" and "isBreakingChange subject' body'"
  shows "risk_score (assessRisk files diffStats subject body)
         \<le> risk_score (assessRisk files diffStats subject' body')"
  using assms by (simp add: assessRisk_score)

theorem C6_risk_monotone_witness:
  "\<not> isBreakingChange ''feat(auth): add login'' [] \<and>
   isBreakingChange ''feat(auth)!: add login'' [] \<and>
   risk_score (assessRisk loginFiles loginStats ''feat(auth): add login'' [])
     \<le> risk_score (assessRisk loginFiles loginStats ''feat(auth)!: add login'' [])"
proof -
  have a: "\<not> isBreakingChange ''feat(auth): add login'' []" by code_simp
  have b: "isBreakingChange ''feat(auth)!: add login'' []" by code_simp
  show ?thesis using a b C6_risk_monotone [OF a b, of loginFiles loginStats] by simp
qed

subsection \<open>Settling of promises and the batch loop\<close>

lemma length_settle: "length (settle ps i slots) = length slots"
  by (simp add: settle_def)

lemma nth_settle:
  assumes "j < length slots" and "length slots = length ps"
  shows "settle ps i slots ! j = (if i = j then Some (ps ! j) else slots ! j)"
  using assms by (auto simp: settle_def nth_list_update)

lemma length_fold_settle: "length (fold (settle ps) order slots) = length slots"
  by (induction order arbitrary: slots) (simp_all add: length_settle)

lemma nth_fold_settle:
  assumes "j < length slots" and "length slots = length ps"
  shows "fold (settle ps) order slots ! j = (if j \<in> set order then Some (ps ! j) else slots ! j)"
  using assms
proof (induction order arbitrary: slots rule: rev_induct)
  case Nil
  then show ?case by simp
next
  case (snoc i order)
  let ?mid = "fold (settle ps) order slots"
  have len: "length ?mid = length ps" using snoc.prems by (simp add: length_fold_settle)
  have j: "j < length ?mid" using snoc.prems len by simp
  have "fold (settle ps) (order @ [i]) slots ! j = settle ps i ?mid ! j" by simp
  also have "\<dots> = (if i = j then Some (ps ! j) else ?mid ! j)"
    using j len by (rule nth_settle)
  also have "\<dots> = (if j \<in> set (order @ [i]) then Some (ps ! j) else slots ! j)"
    using snoc.IH [OF snoc.prems] by auto
  finally show ?case .
qed

lemma allSettled_all:
  assumes "{..<length ps} \<subseteq> set order"
  shows "allSettled order ps = Some ps"
proof -
  let ?slots = "fold (settle ps) order (replicate (length ps) None)"
  have len: "length ?slots = length ps" by (simp add: length_fold_settle)
  have nth: "?slots ! j = Some (ps ! j)" if "j < length ps" for j
    using that assms nth_fold_settle [of j "replicate (length ps) None" ps order] by auto
  have eq: "?slots = map Some ps"
    by (rule nth_equalityI) (simp_all add: len nth)
  show ?thesis
    unfolding allSettled_def Let_def eq by (simp add: list_all_iff comp_def)
qed

lemma successfulResults_append:
  "successfulResults (xs @ ys) = successfulResults xs @ successfulResults ys"
  by (simp add: successfulResults_def List.map_filter_def)

lemma batch_split:
  "successfulResults (map g (take n (drop i hs))) @ successfulResults (map g (drop (i + n) hs))
   = successfulResults (map g (drop i hs))"
proof -
  have "drop i hs = take n (drop i hs) @ drop n (drop i hs)"
    by (rule append_take_drop_id [symmetric])
  then have "drop i hs = take n (drop i hs) @ drop (i + n) hs"
    by (simp add: add.commute)
  then have "map g (drop i hs) = map g (take n (drop i hs)) @ map g (drop (i + n) hs)"
    by (metis map_append)
  then show ?thesis by (simp add: successfulResults_append)
qed

lemma batchSizes_step: "10 \<le> m \<Longrightarrow> batchSizes m = 10 # batchSizes (m - 10)"
proof -
  assume h: "10 \<le> m"
  then have d: "m div 10 = Suc ((m - 10) div 10)" by (simp add: le_div_geq)
  have md: "(m - 10) mod 10 = m mod 10" using h by (simp add: le_mod_geq)
  show ?thesis by (simp add: batchSizes_def d md)
qed

lemma batchSizes_small: "0 < m \<Longrightarrow> m < 10 \<Longrightarrow> batchSizes m = [m]"
  by (simp add: batchSizes_def)

lemma batchSizes_0: "batchSizes 0 = []"
  by (simp add: batchSizes_def)

lemma ceil_div_step:
  assumes "i < (n::nat)"
  shows "(n - i + 9) div 10 = Suc ((n - (i + 10) + 9) div 10)"
proof (cases "10 \<le> n - i")
  case True
  define k where "k = n - i - 10"
  have 1: "n - i = k + 10" using True by (simp add: k_def)
  have 2: "n - (i + 10) = k" by (simp add: k_def)
  have "(k + 10 + 9) div 10 = Suc ((k + 9) div 10)" by simp
  then show ?thesis unfolding 1 2 .
next
  case False
  define m where "m = n - i"
  have 1: "n - (i + 10) = 0" using False by simp
  have 2: "0 < m" "m < 10" using assms False by (simp_all add: m_def)
  have "(m + 9) div 10 = Suc 0" using 2 by simp
  then show ?thesis unfolding 1 m_def by simp
qed

lemma loop_result:
  assumes sched: "\<And>i b. {..<length b} \<subseteq> set (sched i b)"
  shows "generateChangelogBatch_loop g sched hs i st =
           Some (st\<lparr>results := results st @ successfulResults (map g (drop i hs)),
                    batchesProcessed := batchesProcessed st + (length hs - i + 9) div 10,
                    batchLog := batchLog st @ batchSizes (length hs - i)\<rparr>)"
proof (induction "length hs - i" arbitrary: i st rule: less_induct)
  case less
  show ?case
  proof (cases "i < length hs")
    case False
    then show ?thesis
      by (subst generateChangelogBatch_loop.simps)
         (simp add: successfulResults_def batchSizes_0)
  next
    case True
    let ?batch = "take batchSize (drop i hs)"
    have settled: "allSettled (sched i ?batch) (map g ?batch) = Some (map g ?batch)"
      by (rule allSettled_all) (use sched [of "take batchSize (drop i hs)" i] in simp)
    let ?st' = "st\<lparr>results := results st @ successfulResults (map g ?batch),
                    batchesProcessed := batchesProcessed st + 1,
                    batchLog := batchLog st @ [length ?batch]\<rparr>"
    have IH: "generateChangelogBatch_loop g sched hs (i + batchSize) ?st' =
           Some (?st'\<lparr>results := results ?st' @ successfulResults (map g (drop (i + batchSize) hs)),
                    batchesProcessed := batchesProcessed ?st' + (length hs - (i + batchSize) + 9) div 10,
                    batchLog := batchLog ?st' @ batchSizes (length hs - (i + batchSize))\<rparr>)"
      using True by (intro less) (simp add: batchSize_def)
    have step: "generateChangelogBatch_loop g sched hs i st =
                generateChangelogBatch_loop g sched hs (i + batchSize) ?st'"
      using True settled by (subst generateChangelogBatch_loop.simps) (simp add: Let_def)
    have r: "results ?st' @ successfulResults (map g (drop (i + batchSize) hs))
             = results st @ successfulResults (map g (drop i hs))"
      using batch_split [of g batchSize i hs] by simp
    have c: "batchesProcessed ?st' + (length hs - (i + batchSize) + 9) div 10
             = batchesProcessed st + (length hs - i + 9) div 10"
    proof -
      have "(length hs - i + 9) div 10 = Suc ((length hs - (i + 10) + 9) div 10)"
        using True by (rule ceil_div_step)
      then show ?thesis by (simp add: batchSize_def)
    qed
    have l: "batchLog ?st' @ batchSizes (length hs - (i + batchSize))
             = batchLog st @ batchSizes (length hs - i)"
    proof (cases "10 \<le> length hs - i")
      case True
      then show ?thesis by (simp add: batchSize_def batchSizes_step)
    next
      case False
      then have "length hs - (i + 10) = 0" by simp
      moreover have "0 < length hs - i" "length hs - i < 10" using \<open>i < length hs\<close> False by auto
      ultimately show ?thesis by (simp add: batchSize_def batchSizes_small batchSizes_0 min_def)
    qed
    show ?thesis unfolding step IH using r c l by simp
  qed
qed

lemma generateChangelogBatch_result:
  assumes "\<And>i b. {..<length b} \<subseteq> set (sched i b)"
  shows "generateChangelogBatch g sched processed hs =
           Some \<lparr>results = successfulResults (map g hs),
                 batchesProcessed = processed + (length hs + 9) div 10,
                 batchLog = batchSizes (length hs)\<rparr>"
  unfolding generateChangelogBatch_def loop_result [of sched, OF assms] by simp

lemma successfulResults_map:
  "successfulResults (map g hs) =
     map (\<lambda>h. the (fulfilledValue (g h))) (filter (\<lambda>h. fulfilledValue (g h) \<noteq> None) hs)"
  by (simp add: successfulResults_def List.map_filter_def filter_map comp_def)

lemma successfulResults_member:
  assumes "k < length hs" and "g (hs ! k) = Fulfilled (Some v)"
  shows "v \<in> set (successfulResults (map g hs))"
proof -
  have "hs ! k \<in> set (filter (\<lambda>h. fulfilledValue (g h) \<noteq> None) hs)"
    using assms by (simp add: fulfilledValue_def)
  then have "the (fulfilledValue (g (hs ! k))) \<in> set (successfulResults (map g hs))"
    unfolding successfulResults_map set_map by (rule imageI)
  then show ?thesis using assms(2) by (simp add: fulfilledValue_def)
qed

subsection \<open>C7: failures stay inside their commit\<close>

text \<open>
  C7: when every analysis of every batch settles, in whatever order, the batch run returns;
  the commits were processed in batches of ten (the last batch taking the remainder), one
  count of \<^verbatim>\<open>batchesProcessed\<close> per batch; the result of every commit whose analysis was
  fulfilled with an analysis object is in the returned list, whether or not other commits of
  its batch were rejected or came back \<^verbatim>\<open>null\<close>; and the list has one entry per such commit.
\<close>

theorem C7_batch_isolation:
  assumes "\<And>i batch. {..<length batch} \<subseteq> set (sched i batch)"
  shows "\<exists>st. generateChangelogBatch getCommitAnalysis sched processed commitHashes = Some st \<and>
           batchLog st = batchSizes (length commitHashes) \<and>
           batchesProcessed st = processed + (length commitHashes + 9) div 10 \<and>
           (\<forall>k v. k < length commitHashes \<and>
                  getCommitAnalysis (commitHashes ! k) = Fulfilled (Some v)
                  \<longrightarrow> v \<in> set (results st)) \<and>
           length (results st) =
             length (filter (\<lambda>h. fulfilledValue (getCommitAnalysis h) \<noteq> None) commitHashes)"
proof -
  let ?st = "\<lparr>results = successfulResults (map getCommitAnalysis commitHashes),
              batchesProcessed = processed + (length commitHashes + 9) div 10,
              batchLog = batchSizes (length commitHashes)\<rparr>"
  have run: "generateChangelogBatch getCommitAnalysis sched processed commitHashes = Some ?st"
    using assms by (rule generateChangelogBatch_result)
  have mem: "\<forall>k v. k < length commitHashes \<and>
                  getCommitAnalysis (commitHashes ! k) = Fulfilled (Some v)
                  \<longrightarrow> v \<in> set (results ?st)"
    using successfulResults_member [of _ commitHashes getCommitAnalysis] by auto
  have len: "length (results ?st) =
             length (filter (\<lambda>h. fulfilledValue (getCommitAnalysis h) \<noteq> None) commitHashes)"
    by (simp add: successfulResults_map)
  show ?thesis using run mem len by simp
qed

lemma lastFirst_settles: "{..<length batch} \<subseteq> set (lastFirst i batch)"
  by (auto simp: lastFirst_def)

lemma firstFirst_settles: "{..<length batch} \<subseteq> set (firstFirst i batch)"
  by (auto simp: firstFirst_def)

lemma example_successes:
  "filter (\<lambda>h. fulfilledValue (exampleAnalysis h) \<noteq> None) exampleHashes =
     [''c01'', ''c02'', ''c04'', ''c05'', ''c06'', ''c07'', ''c08'', ''c09'', ''c10'', ''c11'', ''c12'']"
  by (simp add: exampleHashes_def exampleAnalysis_def fulfilledValue_def)

theorem C7_batch_isolation_witness:
  "\<exists>st. generateChangelogBatch exampleAnalysis lastFirst 0 exampleHashes = Some st \<and>
        batchLog st = [10, 2] \<and> batchesProcessed st = 2 \<and>
        ''c04'' \<in> set (results st) \<and> length (results st) = 11"
proof -
  from C7_batch_isolation [of lastFirst exampleAnalysis 0 exampleHashes, OF lastFirst_settles]
  obtain st where
    run: "generateChangelogBatch exampleAnalysis lastFirst 0 exampleHashes = Some st" and
    log: "batchLog st = batchSizes (length exampleHashes)" and
    cnt: "batchesProcessed st = 0 + (length exampleHashes + 9) div 10" and
    mem: "\<forall>k v. k < length exampleHashes \<and> exampleAnalysis (exampleHashes ! k) = Fulfilled (Some v)
              \<longrightarrow> v \<in> set (results st)" and
    len: "length (results st) =
            length (filter (\<lambda>h. fulfilledValue (exampleAnalysis h) \<noteq> None) exampleHashes)"
    by (elim exE conjE)
  have n: "length exampleHashes = 12" by (simp add: exampleHashes_def)
  have "3 < length exampleHashes \<and> exampleAnalysis (exampleHashes ! 3) = Fulfilled (Some ''c04'')"
    by (simp add: exampleHashes_def exampleAnalysis_def)
  then have m: "''c04'' \<in> set (results st)" using mem by blast
  have l: "batchLog st = [10, 2]" using log n by (simp add: batchSizes_def)
  have c: "batchesProcessed st = 2" using cnt n by simp
  have k: "length (results st) = 11" unfolding len example_successes by simp
  show ?thesis using run l c m k by (intro exI [of _ st] conjI)
qed

subsection \<open>C8: the batch run keeps the input order\<close>

text \<open>
  C8: for any two orders in which the analyses settle, the batch run returns the same list:
  the analysis objects of the commits whose analysis was fulfilled with an object, in the
  order of the input hash list; these commits are a subsequence of the input.
\<close>

theorem C8_order_preserved:
  assumes "\<And>i batch. {..<length batch} \<subseteq> set (sched i batch)"
    and "\<And>i batch. {..<length batch} \<subseteq> set (sched' i batch)"
  shows "\<exists>st st'.
           generateChangelogBatch getCommitAnalysis sched processed commitHashes = Some st \<and>
           generateChangelogBatch getCommitAnalysis sched' processed commitHashes = Some st' \<and>
           results st = results st' \<and>
           results st = map (\<lambda>h. the (fulfilledValue (getCommitAnalysis h)))
                          (filter (\<lambda>h. fulfilledValue (getCommitAnalysis h) \<noteq> None) commitHashes) \<and>
           subseq (filter (\<lambda>h. fulfilledValue (getCommitAnalysis h) \<noteq> None) commitHashes)
                  commitHashes"
proof -
  let ?st = "\<lparr>results = successfulResults (map getCommitAnalysis commitHashes),
              batchesProcessed = processed + (length commitHashes + 9) div 10,
              batchLog = batchSizes (length commitHashes)\<rparr>"
  have 1: "generateChangelogBatch getCommitAnalysis sched processed commitHashes = Some ?st"
    using assms(1) by (rule generateChangelogBatch_result)
  have 2: "generateChangelogBatch getCommitAnalysis sched' processed commitHashes = Some ?st"
    using assms(2) by (rule generateChangelogBatch_result)
  have 3: "results ?st = map (\<lambda>h. the (fulfilledValue (getCommitAnalysis h)))
                          (filter (\<lambda>h. fulfilledValue (getCommitAnalysis h) \<noteq> None) commitHashes)"
    by (simp add: successfulResults_map)
  have 4: "subseq (filter (\<lambda>h. fulfilledValue (getCommitAnalysis h) \<noteq> None) commitHashes)
                  commitHashes"
    by (rule subseq_filter_left)
  show ?thesis using 1 2 3 4 by simp
qed

theorem C8_order_preserved_witness:
  "\<exists>st st'. generateChangelogBatch exampleAnalysis lastFirst 0 exampleHashes = Some st \<and>
        generateChangelogBatch exampleAnalysis firstFirst 0 exampleHashes = Some st' \<and>
        results st = results st' \<and>
        results st = [''c01'', ''c02'', ''c04'', ''c05'', ''c06'', ''c07'', ''c08'', ''c09'',
                      ''c10'', ''c11'', ''c12'']"
proof -
  from C8_order_preserved [of lastFirst firstFirst exampleAnalysis 0 exampleHashes,
      OF lastFirst_settles firstFirst_settles]
  obtain st st' where
    1: "generateChangelogBatch exampleAnalysis lastFirst 0 exampleHashes = Some st" and
    2: "generateChangelogBatch exampleAnalysis firstFirst 0 exampleHashes = Some st'" and
    3: "results st = results st'" and
    4: "results st = map (\<lambda>h. the (fulfilledValue (exampleAnalysis h)))
                      (filter (\<lambda>h. fulfilledValue (exampleAnalysis h) \<noteq> None) exampleHashes)"
    by (elim exE conjE)
  have 5: "results st = [''c01'', ''c02'', ''c04'', ''c05'', ''c06'', ''c07'', ''c08'', ''c09'',
                      ''c10'', ''c11'', ''c12'']"
    unfolding 4 example_successes by (simp add: exampleAnalysis_def fulfilledValue_def)
  show ?thesis using 1 2 3 5 by (intro exI [of _ st] exI [of _ st'] conjI)
qed

subsection \<open>C9: the release-level breaking flag\<close>

lemma insightsStep_breaking:
  "ri_breaking (insightsStep commit insights) = (ri_breaking insights \<or> ca_breaking commit)"
  by (simp add: insightsStep_def Let_def)

lemma fold_insightsStep_breaking:
  "ri_breaking (fold insightsStep commits insights) =
     (ri_breaking insights \<or> list_ex ca_breaking commits)"
  by (induction commits arbitrary: insights) (simp_all add: insightsStep_breaking)

lemma generateReleaseInsights_breaking:
  "ri_breaking (generateReleaseInsights analyzedCommits version) \<longleftrightarrow>
     list_ex ca_breaking analyzedCommits"
  by (simp add: generateReleaseInsights_def Let_def fold_insightsStep_breaking)

lemma example_commit_flags:
  "ca_breaking summarisedLogin = isBreakingChange ''feat(auth): add login'' []"
  "ca_breaking batchBreaking = isBreakingChange ''fix!: remove deprecated endpoint'' []"
  "aiSummary summarisedLogin =
     Some ((generateRuleBasedSummary loginCommit)\<lparr>ai_breaking := JBool True\<rparr>)"
  "aiSummary batchBreaking = None"
  by (simp_all add: summarisedLogin_def batchBreaking_def withSummary_def withoutSummary_def
      analyzedCommit_def loginCommit_def breakingCommit_def getCommitAnalysis_object_def)

text \<open>
  C9, as stated, fails on the code, which reads the flag \<^verbatim>\<open>breaking\<close> of the commit analysis,
  not that of the summary. A commit whose summary is marked breaking while its own flag is
  false leaves the release flag false; and a breaking commit that carries no summary, as the
  batch path returns it, sets the release flag.
\<close>

theorem C9_summary_flag_counterexample:
  "\<not> ri_breaking (generateReleaseInsights [summarisedLogin] ''1.0.0'') \<and>
   specReleaseBreaking [summarisedLogin] \<and>
   ri_breaking (generateReleaseInsights [batchBreaking] ''1.0.0'') \<and>
   \<not> specReleaseBreaking [batchBreaking]"
  using login_subject_not_breaking endpoint_subject_breaking [of "[]"]
  by (simp add: generateReleaseInsights_breaking specReleaseBreaking_def example_commit_flags)

text \<open>
  C9 amended: for every sequence of analyzed commits, the release-level breaking flag is true
  exactly when the flag \<^verbatim>\<open>breaking\<close> of some commit analysis (the value of \<^verbatim>\<open>isBreakingChange\<close>
  on its subject and body) is true, and false when it is true of none.
\<close>

theorem C9_release_breaking:
  "ri_breaking (generateReleaseInsights analyzedCommits version) \<longleftrightarrow>
     list_ex ca_breaking analyzedCommits"
  by (rule generateReleaseInsights_breaking)

theorem C9_release_breaking_witness:
  "ri_breaking (generateReleaseInsights [summarisedLogin, batchBreaking] ''1.0.0'') \<and>
   \<not> ri_breaking (generateReleaseInsights [summarisedLogin] ''1.0.0'')"
proof -
  have a: "list_ex ca_breaking [summarisedLogin, batchBreaking]"
    using endpoint_subject_breaking [of "[]"] by (simp add: example_commit_flags)
  have b: "\<not> list_ex ca_breaking [summarisedLogin]"
    using login_subject_not_breaking by (simp add: example_commit_flags)
  show ?thesis
    using a b C9_release_breaking [of "[summarisedLogin, batchBreaking]" "''1.0.0''"]
      C9_release_breaking [of "[summarisedLogin]" "''1.0.0''"]
    by simp
qed

subsection \<open>C1: the fallback of the summarization\<close>

lemma complete_Let: "(\<And>x. structurallyComplete (g x)) \<Longrightarrow> structurallyComplete (Let a g)"
  by simp

lemma complete_case_prod:
  "(\<And>x y. structurallyComplete (g x y)) \<Longrightarrow> structurallyComplete (case_prod g p)"
  by (cases p) simp

lemma rule_complete: "structurallyComplete (generateRuleBasedSummary commitAnalysis)"
  unfolding generateRuleBasedSummary_def
  by (intro complete_Let complete_case_prod) (simp add: structurallyComplete_def nullish_def)

lemma azure_unavailable:
  "\<not> validateModelAvailability (g_aiProvider azureGenerator) modelName"
  by (simp add: validateModelAvailability_def azureGenerator_def)

lemma generateAISummary_unavailable:
  assumes "g_hasAI gen"
    and "\<not> validateModelAvailability (g_aiProvider gen) (modelToCheck gen commitAnalysis)"
  shows "generateAISummary gen generateCompletion jsonParse commitAnalysis metrics =
           (generateRuleBasedSummary commitAnalysis, metrics)"
  using assms by (simp add: generateAISummary_def)

lemma parseAIResponse_unparseable:
  assumes "jsonParse (stripFences c) = None \<or> jsonParse (stripFences c) = Some JNull"
  shows "parseAIResponse jsonParse c commitAnalysis metrics =
           (generateRuleBasedSummary commitAnalysis, metrics\<lparr>errors := errors metrics + 1\<rparr>)"
  using assms by (auto simp: parseAIResponse_def nullish_def)

text \<open>
  C1, as stated, fails on the code in one of its three cases. When the selected model is not
  available the rule-based summary is returned, but no error is counted: on an Azure
  deployment that offers none of the models the counter \<^verbatim>\<open>errors\<close> keeps its value.
\<close>

theorem C1_unavailable_model_counterexample:
  "g_hasAI azureGenerator \<and>
   \<not> validateModelAvailability (g_aiProvider azureGenerator)
        (modelToCheck azureGenerator loginCommit) \<and>
   fst (generateAISummary azureGenerator throwingService exampleParse loginCommit zeroMetrics)
     = generateRuleBasedSummary loginCommit \<and>
   errors (snd (generateAISummary azureGenerator throwingService exampleParse loginCommit
                  zeroMetrics)) = errors zeroMetrics"
proof -
  have g: "g_hasAI azureGenerator" by (simp add: azureGenerator_def exampleGenerator_def)
  have u: "\<not> validateModelAvailability (g_aiProvider azureGenerator)
              (modelToCheck azureGenerator loginCommit)"
    by (rule azure_unavailable)
  show ?thesis
    using g u generateAISummary_unavailable [OF g u, of throwingService exampleParse zeroMetrics]
    by simp
qed

text \<open>
  C1 amended. The rule-based summary of every commit analysis is structurally complete. With
  an AI provider configured: when the call of the service throws, \<^verbatim>\<open>generateAISummary\<close>
  returns the rule-based summary and raises \<^verbatim>\<open>metrics.errors\<close> by one; when the response has no
  content, or its content is not parseable JSON (or parses to \<^verbatim>\<open>null\<close>), it returns the
  rule-based summary, raises \<^verbatim>\<open>metrics.errors\<close> by one and has counted the call; when the
  selected model is not available, it returns the rule-based summary and leaves the metrics
  as they were. It always returns a summary; no error reaches the caller.
\<close>

theorem C1_fallback:
  assumes "g_hasAI gen"
  shows "structurallyComplete (generateRuleBasedSummary commitAnalysis) \<and>
    (\<not> validateModelAvailability (g_aiProvider gen) (modelToCheck gen commitAnalysis) \<longrightarrow>
       generateAISummary gen generateCompletion jsonParse commitAnalysis metrics =
         (generateRuleBasedSummary commitAnalysis, metrics)) \<and>
    (validateModelAvailability (g_aiProvider gen) (modelToCheck gen commitAnalysis) \<and>
     generateCompletion (serviceRequest gen commitAnalysis) = ServiceThrows \<longrightarrow>
       generateAISummary gen generateCompletion jsonParse commitAnalysis metrics =
         (generateRuleBasedSummary commitAnalysis, metrics\<lparr>errors := errors metrics + 1\<rparr>)) \<and>
    (validateModelAvailability (g_aiProvider gen) (modelToCheck gen commitAnalysis) \<and>
     generateCompletion (serviceRequest gen commitAnalysis) = ServiceResponse content usage \<and>
     (content = None \<or> content = Some [] \<or>
      (\<exists>c. content = Some c \<and>
           (jsonParse (stripFences c) = None \<or> jsonParse (stripFences c) = Some JNull))) \<longrightarrow>
       fst (generateAISummary gen generateCompletion jsonParse commitAnalysis metrics) =
         generateRuleBasedSummary commitAnalysis \<and>
       errors (snd (generateAISummary gen generateCompletion jsonParse commitAnalysis metrics)) =
         errors metrics + 1 \<and>
       apiCalls (snd (generateAISummary gen generateCompletion jsonParse commitAnalysis metrics)) =
         apiCalls metrics + 1)"
proof (intro conjI impI)
  show "structurallyComplete (generateRuleBasedSummary commitAnalysis)"
    by (rule rule_complete)
next
  assume "\<not> validateModelAvailability (g_aiProvider gen) (modelToCheck gen commitAnalysis)"
  with assms show "generateAISummary gen generateCompletion jsonParse commitAnalysis metrics =
         (generateRuleBasedSummary commitAnalysis, metrics)"
    by (rule generateAISummary_unavailable)
next
  assume "validateModelAvailability (g_aiProvider gen) (modelToCheck gen commitAnalysis) \<and>
     generateCompletion (serviceRequest gen commitAnalysis) = ServiceThrows"
  then show "generateAISummary gen generateCompletion jsonParse commitAnalysis metrics =
         (generateRuleBasedSummary commitAnalysis, metrics\<lparr>errors := errors metrics + 1\<rparr>)"
    using assms by (simp add: generateAISummary_def)
next
  assume h: "validateModelAvailability (g_aiProvider gen) (modelToCheck gen commitAnalysis) \<and>
     generateCompletion (serviceRequest gen commitAnalysis) = ServiceResponse content usage \<and>
     (content = None \<or> content = Some [] \<or>
      (\<exists>c. content = Some c \<and>
           (jsonParse (stripFences c) = None \<or> jsonParse (stripFences c) = Some JNull)))"
  let ?m2 = "countCall metrics usage"
  have m2: "errors ?m2 = errors metrics" "apiCalls ?m2 = apiCalls metrics + 1"
    by (simp_all add: countCall_def Let_def split: option.split)
  have run: "generateAISummary gen generateCompletion jsonParse commitAnalysis metrics =
          (case content of
             None \<Rightarrow> (generateRuleBasedSummary commitAnalysis, ?m2\<lparr>errors := errors ?m2 + 1\<rparr>)
           | Some c \<Rightarrow>
               if c = []
               then (generateRuleBasedSummary commitAnalysis, ?m2\<lparr>errors := errors ?m2 + 1\<rparr>)
               else parseAIResponse jsonParse c commitAnalysis ?m2)"
    using assms h by (simp add: generateAISummary_def Let_def)
  have res: "generateAISummary gen generateCompletion jsonParse commitAnalysis metrics =
          (generateRuleBasedSummary commitAnalysis, ?m2\<lparr>errors := errors ?m2 + 1\<rparr>)"
  proof (cases content)
    case None
    then show ?thesis unfolding run by simp
  next
    case (Some c)
    show ?thesis
    proof (cases "c = []")
      case True
      then show ?thesis unfolding run Some by simp
    next
      case False
      then have "jsonParse (stripFences c) = None \<or> jsonParse (stripFences c) = Some JNull"
        using h Some by simp
      then have "parseAIResponse jsonParse c commitAnalysis ?m2 =
           (generateRuleBasedSummary commitAnalysis, ?m2\<lparr>errors := errors ?m2 + 1\<rparr>)"
        by (rule parseAIResponse_unparseable)
      then show ?thesis unfolding run Some using False by simp
    qed
  qed
  show "fst (generateAISummary gen generateCompletion jsonParse commitAnalysis metrics) =
         generateRuleBasedSummary commitAnalysis"
    unfolding res by simp
  show "errors (snd (generateAISummary gen generateCompletion jsonParse commitAnalysis metrics)) =
         errors metrics + 1"
    unfolding res using m2 by simp
  show "apiCalls (snd (generateAISummary gen generateCompletion jsonParse commitAnalysis metrics)) =
         apiCalls metrics + 1"
    unfolding res using m2 by simp
qed

theorem C1_fallback_witness:
  "g_hasAI exampleGenerator \<and> g_hasAI azureGenerator \<and>
   structurallyComplete (generateRuleBasedSummary loginCommit) \<and>
   generateAISummary azureGenerator throwingService exampleParse loginCommit zeroMetrics =
     (generateRuleBasedSummary loginCommit, zeroMetrics) \<and>
   generateAISummary exampleGenerator throwingService exampleParse loginCommit zeroMetrics =
     (generateRuleBasedSummary loginCommit, zeroMetrics\<lparr>errors := errors zeroMetrics + 1\<rparr>) \<and>
   fst (generateAISummary exampleGenerator proseService exampleParse loginCommit zeroMetrics) =
     generateRuleBasedSummary loginCommit \<and>
   errors (snd (generateAISummary exampleGenerator proseService exampleParse loginCommit
                  zeroMetrics)) = errors zeroMetrics + 1"
proof -
  have g1: "g_hasAI exampleGenerator" by (simp add: exampleGenerator_def)
  have g2: "g_hasAI azureGenerator" by (simp add: azureGenerator_def exampleGenerator_def)
  have u: "\<not> validateModelAvailability (g_aiProvider azureGenerator)
              (modelToCheck azureGenerator loginCommit)"
    by (rule azure_unavailable)
  have a: "validateModelAvailability (g_aiProvider exampleGenerator)
              (modelToCheck exampleGenerator loginCommit)"
    by code_simp
  have t: "throwingService (serviceRequest exampleGenerator loginCommit) = ServiceThrows"
    by (simp add: throwingService_def)
  have p: "proseService (serviceRequest exampleGenerator loginCommit) =
             ServiceResponse (Some ''I cannot summarise this commit.'') (Some 12)"
    by (simp add: proseService_def)
  have q: "exampleParse (stripFences ''I cannot summarise this commit.'') = None"
    by code_simp
  show ?thesis
    using g1 g2 u a t p q
      C1_fallback [OF g2, of loginCommit throwingService exampleParse zeroMetrics]
      C1_fallback [OF g1, of loginCommit throwingService exampleParse zeroMetrics]
      C1_fallback [OF g1, of loginCommit proseService exampleParse zeroMetrics
        "Some ''I cannot summarise this commit.''" "Some 12"]
    by simp
qed

subsection \<open>C5: files without a diff\<close>

lemma analyzeFileChange_diff:
  "fc_diff (analyzeFileChange execGitSafe rx rxAll commitHash status filePath) =
     (case execGitSafe (diffCommand commitHash filePath) of Some out \<Rightarrow> out | None \<Rightarrow> unavailable)"
  by (simp add: analyzeFileChange_def Let_def)

lemma analyzeFileChange_complexity:
  "fc_complexity (analyzeFileChange execGitSafe rx rxAll commitHash status filePath) =
     assessChangeComplexity (fc_diff (analyzeFileChange execGitSafe rx rxAll commitHash status filePath))"
  by (simp add: analyzeFileChange_def Let_def)

lemma analyzeFileChange_semantic:
  "fc_semanticChanges (analyzeFileChange execGitSafe rx rxAll commitHash status filePath) =
     analyzeSemanticChanges rx rxAll
       (fc_diff (analyzeFileChange execGitSafe rx rxAll commitHash status filePath)) filePath"
  by (simp add: analyzeFileChange_def Let_def)

lemma analyzeFileChange_path:
  "fc_filePath (analyzeFileChange execGitSafe rx rxAll commitHash status filePath) = filePath"
  "fc_status (analyzeFileChange execGitSafe rx rxAll commitHash status filePath) = status"
  by (simp_all add: analyzeFileChange_def Let_def)

lemma noDiff_results:
  assumes "noDiff diff"
  shows "assessChangeComplexity diff = 1"
    and "analyzeSemanticChanges rx rxAll diff filePath = emptyAnalysis"
  using assms by (simp_all add: assessChangeComplexity_def analyzeSemanticChanges_def)

lemma noDiff_of_git:
  assumes "execGitSafe (diffCommand commitHash filePath) \<in> {None, Some [], Some unavailable}"
  shows "noDiff (fc_diff (analyzeFileChange execGitSafe rx rxAll commitHash status filePath))"
  using assms by (auto simp: analyzeFileChange_diff noDiff_def)

lemma files_paths:
  "map fc_filePath (getCommitAnalysis_files execGitSafe rx rxAll commitHash filesOutput) =
     map (\<lambda>line. split_js tab line ! 1)
       (filter (\<lambda>line. 2 \<le> length (split_js tab line))
          (filter (\<lambda>line. line \<noteq> []) (split_js newline filesOutput)))"
proof -
  have "map fc_filePath (List.map_filter
       (\<lambda>line. let parts = split_js tab line
               in if length parts < 2 then None
                  else Some (analyzeFileChange execGitSafe rx rxAll commitHash
                               (parts ! 0) (parts ! 1))) ls) =
     map (\<lambda>line. split_js tab line ! 1) (filter (\<lambda>line. 2 \<le> length (split_js tab line)) ls)"
    for ls
    by (induction ls) (simp_all add: List.map_filter_simps Let_def analyzeFileChange_path not_less)
  then show ?thesis by (simp add: getCommitAnalysis_files_def)
qed

text \<open>
  C5, as stated, fails on the code: for a file whose diff is absent or carries the marker of
  an unavailable diff, the complexity is 1, the lowest level of the scale from 1 to 5, not 0.
\<close>

theorem C5_complexity_counterexample:
  "fc_diff (analyzeFileChange throwingGit noMatch noMatches ''1f3c5a7'' ''M'' ''assets/logo.png'')
     = unavailable \<and>
   fc_complexity (analyzeFileChange throwingGit noMatch noMatches ''1f3c5a7'' ''M''
                    ''assets/logo.png'') = 1 \<and>
   fc_complexity (analyzeFileChange throwingGit noMatch noMatches ''1f3c5a7'' ''M''
                    ''assets/logo.png'') \<noteq> 0 \<and>
   fc_diff (analyzeFileChange failingGit noMatch noMatches ''1f3c5a7'' ''M'' ''assets/logo.png'')
     = [] \<and>
   fc_complexity (analyzeFileChange failingGit noMatch noMatches ''1f3c5a7'' ''M''
                    ''assets/logo.png'') \<noteq> 0"
  by (simp add: analyzeFileChange_complexity analyzeFileChange_diff throwingGit_def failingGit_def
      noDiff_results noDiff_def)

text \<open>
  C5 amended. For every file change whose diff text is absent (the diff command gives the
  empty string) or is the marker \<^verbatim>\<open>Binary file or diff unavailable\<close> (also set when the call of
  the git manager throws), the classifier returns a file-change object for the file, with
  its status and path, whose semantic analysis is the empty one (no pattern) and whose
  complexity is 1. And the files of a commit are classified one by one: the result lists one
  object for every line of the name-status output that has a status and a path, in order,
  whatever the diffs of the other files are.
\<close>

theorem C5_unavailable_diff:
  assumes "execGitSafe (diffCommand commitHash filePath) \<in> {None, Some [], Some unavailable}"
  shows "fc_status (analyzeFileChange execGitSafe rx rxAll commitHash status filePath) = status \<and>
         fc_filePath (analyzeFileChange execGitSafe rx rxAll commitHash status filePath) = filePath \<and>
         noDiff (fc_diff (analyzeFileChange execGitSafe rx rxAll commitHash status filePath)) \<and>
         fc_semanticChanges (analyzeFileChange execGitSafe rx rxAll commitHash status filePath)
           = emptyAnalysis \<and>
         sc_patterns (fc_semanticChanges
           (analyzeFileChange execGitSafe rx rxAll commitHash status filePath)) = [] \<and>
         fc_complexity (analyzeFileChange execGitSafe rx rxAll commitHash status filePath) = 1 \<and>
         map fc_filePath (getCommitAnalysis_files execGitSafe rx rxAll commitHash filesOutput) =
           map (\<lambda>line. split_js tab line ! 1)
             (filter (\<lambda>line. 2 \<le> length (split_js tab line))
                (filter (\<lambda>line. line \<noteq> []) (split_js newline filesOutput)))"
proof -
  have n: "noDiff (fc_diff (analyzeFileChange execGitSafe rx rxAll commitHash status filePath))"
    using assms by (rule noDiff_of_git)
  have s: "fc_semanticChanges (analyzeFileChange execGitSafe rx rxAll commitHash status filePath)
           = emptyAnalysis"
    unfolding analyzeFileChange_semantic using n by (rule noDiff_results(2))
  have c: "fc_complexity (analyzeFileChange execGitSafe rx rxAll commitHash status filePath) = 1"
    unfolding analyzeFileChange_complexity using n by (rule noDiff_results(1))
  have p: "sc_patterns emptyAnalysis = []" by (simp add: emptyAnalysis_def)
  show ?thesis using n s c p by (simp add: analyzeFileChange_path files_paths)
qed

theorem C5_unavailable_diff_witness:
  "throwingGit (diffCommand ''1f3c5a7'' ''assets/logo.png'') \<in> {None, Some [], Some unavailable} \<and>
   fc_filePath (analyzeFileChange throwingGit noMatch noMatches ''1f3c5a7'' ''M''
                  ''assets/logo.png'') = ''assets/logo.png'' \<and>
   sc_patterns (fc_semanticChanges
     (analyzeFileChange throwingGit noMatch noMatches ''1f3c5a7'' ''M'' ''assets/logo.png'')) = [] \<and>
   fc_complexity (analyzeFileChange throwingGit noMatch noMatches ''1f3c5a7'' ''M''
                    ''assets/logo.png'') = 1"
proof -
  have h: "throwingGit (diffCommand ''1f3c5a7'' ''assets/logo.png'')
             \<in> {None, Some [], Some unavailable}"
    by (simp add: throwingGit_def)
  show ?thesis
    using h C5_unavailable_diff [where execGitSafe = throwingGit and commitHash = "''1f3c5a7''"
        and filePath = "''assets/logo.png''" and rx = noMatch and rxAll = noMatches
        and status = "''M''" and filesOutput = "[]"]
    by (simp add: emptyAnalysis_def)
qed

subsection \<open>Splitting and joining\<close>

lemma split_js_not_Nil: "split_js sep s \<noteq> []"
  by (induction s) (auto split: list.split)

lemma split_js_no_sep: "sep \<notin> set r \<Longrightarrow> split_js sep r = [r]"
  by (induction r) auto

lemma split_js_append:
  "sep \<notin> set r \<Longrightarrow> split_js sep (r @ sep # rest) = r # split_js sep rest"
  by (induction r) auto

lemma split_js_join:
  assumes "records \<noteq> []" and "\<forall>r \<in> set records. sep \<notin> set r"
  shows "split_js sep (join_js [sep] records) = records"
  using assms
proof (induction "[sep]" records rule: join_js.induct)
  case 1
  then show ?case by simp
next
  case (2 x)
  then show ?case by (simp add: split_js_no_sep)
next
  case (3 x y ys)
  then show ?case by (simp add: split_js_append)
qed

lemma length_split_js:
  "length (split_js sep s) = Suc (length (filter (\<lambda>c. c = sep) s))"
proof (induction s)
  case Nil
  show ?case by simp
next
  case (Cons c s)
  obtain w ws where "split_js sep s = w # ws"
    using split_js_not_Nil [of sep s] by (cases "split_js sep s") auto
  then show ?case using Cons by auto
qed

lemma filter_dropWhile_le: "length (filter P (dropWhile Q s)) \<le> length (filter P s)"
  by (induction s) auto

lemma filter_trim_le: "length (filter P (trim_js s)) \<le> length (filter P s)"
proof -
  have "length (filter P (trim_js s)) = length (filter P (dropWhile isWhitespace (rev (dropWhile isWhitespace s))))"
    unfolding trim_js_def by (simp add: rev_filter [symmetric])
  also have "\<dots> \<le> length (filter P (rev (dropWhile isWhitespace s)))"
    by (rule filter_dropWhile_le)
  also have "\<dots> = length (filter P (dropWhile isWhitespace s))"
    by (simp add: rev_filter [symmetric])
  also have "\<dots> \<le> length (filter P s)"
    by (rule filter_dropWhile_le)
  finally show ?thesis .
qed

lemma length_map_filter_le: "length (List.map_filter f xs) \<le> length xs"
  by (simp add: List.map_filter_def)

lemma length_recordLines:
  "length (recordLines output format)
     \<le> Suc (length (filter (\<lambda>c. c = recordSeparator format) output))"
proof -
  have "length (recordLines output format)
          \<le> length (split_js (recordSeparator format) (trim_js output))"
    by (simp add: recordLines_def recordSeparator_def)
  also have "\<dots> = Suc (length (filter (\<lambda>c. c = recordSeparator format) (trim_js output)))"
    by (rule length_split_js)
  also have "\<dots> \<le> Suc (length (filter (\<lambda>c. c = recordSeparator format) output))"
    using filter_trim_le [of "\<lambda>c. c = recordSeparator format" "output"] by simp
  finally show ?thesis .
qed

lemma length_parseCommitOutput:
  "length (parseCommitOutput output format) \<le> length (recordLines output format)"
  by (simp add: parseCommitOutput_def Let_def length_map_filter_le)

subsection \<open>C4: the commit record parser\<close>

lemma not_whitespace_pipe: "\<not> isWhitespace pipe"
  by (simp add: isWhitespace_def pipe_def)

lemma mem_dropWhile: "x \<in> set xs \<Longrightarrow> \<not> P x \<Longrightarrow> x \<in> set (dropWhile P xs)"
  by (induction xs) auto

lemma mem_not_Nil: "x \<in> set xs \<Longrightarrow> xs \<noteq> []"
  by auto

lemma trim_js_not_Nil:
  assumes "pipe \<in> set r"
  shows "trim_js r \<noteq> []"
proof -
  have "pipe \<in> set (dropWhile isWhitespace r)"
    using assms not_whitespace_pipe by (rule mem_dropWhile)
  then have "pipe \<in> set (rev (dropWhile isWhitespace r))" by simp
  then have "pipe \<in> set (dropWhile isWhitespace (rev (dropWhile isWhitespace r)))"
    using not_whitespace_pipe by (rule mem_dropWhile)
  then have "dropWhile isWhitespace (rev (dropWhile isWhitespace r)) \<noteq> []"
    by (rule mem_not_Nil)
  then show ?thesis unfolding trim_js_def by (simp only: rev_is_Nil_conv not_False_eq_True)
qed

lemma wellFormed_pipe:
  assumes "wellFormed format r"
  shows "pipe \<in> set r"
proof (rule ccontr)
  assume "pipe \<notin> set r"
  then have "split_js pipe r = [r]" by (rule split_js_no_sep)
  then show False using assms by (simp add: wellFormed_def expectedFields_def split: if_splits)
qed

lemma parseRecord_None:
  assumes "format = ''simple'' \<or> format = ''full'' \<or> format = ''detailed''"
  shows "parseRecord format r = None \<longleftrightarrow> \<not> wellFormed format r"
proof -
  consider (s) "format = ''simple''" | (f) "format = ''full''" | (d) "format = ''detailed''"
    using assms(1) by blast
  then show ?thesis
  proof cases
    case s
    then show ?thesis
      by (simp add: parseRecord_def parseSimpleLine_def wellFormed_def expectedFields_def
          Let_def not_le)
  next
    case f
    then show ?thesis
      by (simp add: parseRecord_def parseFullLine_def wellFormed_def expectedFields_def
          Let_def not_le)
  next
    case d
    then show ?thesis
      by (simp add: parseRecord_def parseFullLine_def wellFormed_def expectedFields_def
          Let_def not_le)
  qed
qed

lemma parseRecord_simple: "parseRecord ''simple'' = parseSimpleLine"
  by (rule ext) (simp add: parseRecord_def)

lemma parseRecord_full: "parseRecord ''full'' = parseFullLine ''full''"
  by (rule ext) (simp add: parseRecord_def)

lemma parseRecord_detailed: "parseRecord ''detailed'' = parseFullLine ''detailed''"
  by (rule ext) (simp add: parseRecord_def)

lemma parseCommitOutput_lines:
  assumes "format = ''simple'' \<or> format = ''full'' \<or> format = ''detailed''"
    and "trim_js raw \<noteq> []"
  shows "parseCommitOutput raw format = List.map_filter (parseRecord format) (recordLines raw format)"
proof -
  consider (s) "format = ''simple''" | (f) "format = ''full''" | (d) "format = ''detailed''"
    using assms(1) by blast
  then show ?thesis
  proof cases
    case s
    then show ?thesis using assms(2) by (simp add: parseCommitOutput_def parseRecord_simple)
  next
    case f
    then show ?thesis using assms(2) by (simp add: parseCommitOutput_def parseRecord_full)
  next
    case d
    then show ?thesis using assms(2) by (simp add: parseCommitOutput_def parseRecord_detailed)
  qed
qed

lemma trim_js_Cons_ws: "isWhitespace c \<Longrightarrow> trim_js (c # s) = trim_js s"
  by (simp add: trim_js_def)

lemma trim_js_snoc_ws:
  assumes "isWhitespace c"
  shows "trim_js (s @ [c]) = trim_js s"
proof (cases "\<forall>x \<in> set s. isWhitespace x")
  case True
  have a: "dropWhile isWhitespace (s @ [c]) = []"
    unfolding dropWhile_eq_Nil_conv using True assms by simp
  have b: "dropWhile isWhitespace s = []"
    unfolding dropWhile_eq_Nil_conv using True by simp
  show ?thesis unfolding trim_js_def a b by simp
next
  case False
  then obtain x where "x \<in> set s" and "\<not> isWhitespace x" by blast
  then have "dropWhile isWhitespace (s @ [c]) = dropWhile isWhitespace s @ [c]"
    by (rule dropWhile_append1)
  then show ?thesis using assms by (simp add: trim_js_def)
qed

lemma split_js_Cons:
  assumes "c \<noteq> sep"
  shows "split_js sep (c # w) = (c # hd (split_js sep w)) # tl (split_js sep w)"
  using assms split_js_not_Nil [of sep w] by (cases "split_js sep w") simp_all

lemma split_js_snoc_sep: "split_js sep (w @ [sep]) = split_js sep w @ [[]]"
proof (induction w)
  case Nil
  show ?case by simp
next
  case (Cons a w)
  show ?case
  proof (cases "a = sep")
    case True
    then show ?thesis using Cons by simp
  next
    case False
    obtain x xs where x: "split_js sep w = x # xs"
      using split_js_not_Nil [of sep w] by (cases "split_js sep w") auto
    show ?thesis using False Cons x by simp
  qed
qed

lemma split_js_snoc:
  assumes "c \<noteq> sep"
  shows "split_js sep (w @ [c]) = butlast (split_js sep w) @ [last (split_js sep w) @ [c]]"
proof (induction w)
  case Nil
  show ?case using assms by simp
next
  case (Cons a w)
  obtain x xs where x: "split_js sep w = x # xs"
    using split_js_not_Nil [of sep w] by (cases "split_js sep w") auto
  obtain y ys where y: "split_js sep (w @ [c]) = y # ys"
    using split_js_not_Nil [of sep "w @ [c]"] by (cases "split_js sep (w @ [c])") auto
  show ?case
  proof (cases "a = sep")
    case True
    then show ?thesis using Cons x by simp
  next
    case False
    show ?thesis
    proof (cases xs)
      case Nil
      then show ?thesis using False Cons x y by simp
    next
      case (Cons z zs)
      then show ?thesis using False Cons.IH x y by simp
    qed
  qed
qed

text \<open>
  Two records whose fields agree up to white space at the ends of the first and of the last
  field, and after trimming everywhere, give the same commit.
\<close>

lemma parseSimpleLine_similar:
  assumes len: "length (split_js pipe w') = length (split_js pipe w)"
    and tr: "\<And>i. i < length (split_js pipe w) \<Longrightarrow>
               trim_js (split_js pipe w' ! i) = trim_js (split_js pipe w ! i)"
    and eq: "\<And>i. 0 < i \<Longrightarrow> Suc i < length (split_js pipe w) \<Longrightarrow>
               split_js pipe w' ! i = split_js pipe w ! i"
  shows "parseSimpleLine w' = parseSimpleLine w"
proof (cases "length (split_js pipe w) < 4")
  case True
  then show ?thesis using len by (simp add: parseSimpleLine_def)
next
  case False
  then have n: "4 \<le> length (split_js pipe w)" by simp
  have e1: "split_js pipe w' ! Suc 0 = split_js pipe w ! Suc 0" using eq [of 1] n by simp
  have e2: "split_js pipe w' ! 2 = split_js pipe w ! 2" using eq [of 2] n by simp
  have ne: "split_js pipe w \<noteq> []" by (rule split_js_not_Nil)
  have t0: "trim_js (split_js pipe w' ! 0) = trim_js (split_js pipe w ! 0)"
    using tr [of 0] ne by simp
  have t3: "trim_js (split_js pipe w' ! 3) = trim_js (split_js pipe w ! 3)"
    using tr [of 3] n by simp
  show ?thesis using False len by (simp add: parseSimpleLine_def Let_def e1 e2 t0 t3)
qed

lemma parseFullLine_similar:
  assumes len: "length (split_js pipe w') = length (split_js pipe w)"
    and tr: "\<And>i. i < length (split_js pipe w) \<Longrightarrow>
               trim_js (split_js pipe w' ! i) = trim_js (split_js pipe w ! i)"
    and eq: "\<And>i. 0 < i \<Longrightarrow> Suc i < length (split_js pipe w) \<Longrightarrow>
               split_js pipe w' ! i = split_js pipe w ! i"
  shows "parseFullLine format w' = parseFullLine format w"
proof (cases "length (split_js pipe w) < 8")
  case True
  then show ?thesis using len by (simp add: parseFullLine_def)
next
  case False
  then have n: "8 \<le> length (split_js pipe w)" by simp
  have e1: "split_js pipe w' ! Suc 0 = split_js pipe w ! Suc 0" using eq [of 1] n by simp
  have e2: "split_js pipe w' ! 2 = split_js pipe w ! 2" using eq [of 2] n by simp
  have e3: "split_js pipe w' ! 3 = split_js pipe w ! 3" using eq [of 3] n by simp
  have e4: "split_js pipe w' ! 4 = split_js pipe w ! 4" using eq [of 4] n by simp
  have e5: "split_js pipe w' ! 5 = split_js pipe w ! 5" using eq [of 5] n by simp
  have e6: "split_js pipe w' ! 6 = split_js pipe w ! 6" using eq [of 6] n by simp
  have ne: "split_js pipe w \<noteq> []" by (rule split_js_not_Nil)
  have t0: "trim_js (split_js pipe w' ! 0) = trim_js (split_js pipe w ! 0)"
    using tr [of 0] ne by simp
  have t7: "trim_js (split_js pipe w' ! 7) = trim_js (split_js pipe w ! 7)"
    using tr [of 7] n by simp
  have t8: "8 < length (split_js pipe w) \<Longrightarrow>
              trim_js (split_js pipe w' ! 8) = trim_js (split_js pipe w ! 8)"
    using tr [of 8] by simp
  have t9: "9 < length (split_js pipe w) \<Longrightarrow>
              trim_js (split_js pipe w' ! 9) = trim_js (split_js pipe w ! 9)"
    using tr [of 9] by simp
  show ?thesis
    using False len t8 t9
    by (simp add: parseFullLine_def Let_def e1 e2 e3 e4 e5 e6 t0 t7)
qed

lemma parseRecord_similar:
  assumes "length (split_js pipe w') = length (split_js pipe w)"
    and "\<And>i. i < length (split_js pipe w) \<Longrightarrow>
               trim_js (split_js pipe w' ! i) = trim_js (split_js pipe w ! i)"
    and "\<And>i. 0 < i \<Longrightarrow> Suc i < length (split_js pipe w) \<Longrightarrow>
               split_js pipe w' ! i = split_js pipe w ! i"
  shows "parseRecord format w' = parseRecord format w"
  unfolding parseRecord_def
  using parseSimpleLine_similar [OF assms] parseFullLine_similar [OF assms] by simp

lemma ws_not_pipe: "isWhitespace c \<Longrightarrow> c \<noteq> pipe"
  using not_whitespace_pipe by auto

lemma parseRecord_Cons_ws:
  assumes "isWhitespace c"
  shows "parseRecord format (c # w) = parseRecord format w"
proof (rule parseRecord_similar)
  obtain x xs where x: "split_js pipe w = x # xs"
    using split_js_not_Nil [of pipe w] by (cases "split_js pipe w") auto
  have s: "split_js pipe (c # w) = (c # x) # xs"
    using ws_not_pipe [OF assms] x by simp
  show "length (split_js pipe (c # w)) = length (split_js pipe w)" using s x by simp
  show "trim_js (split_js pipe (c # w) ! i) = trim_js (split_js pipe w ! i)"
    if "i < length (split_js pipe w)" for i
    using s x assms by (cases i) (simp_all add: trim_js_Cons_ws)
  show "split_js pipe (c # w) ! i = split_js pipe w ! i"
    if "0 < i" and "Suc i < length (split_js pipe w)" for i
    using s x that by (cases i) simp_all
qed

lemma parseRecord_snoc_ws:
  assumes "isWhitespace c"
  shows "parseRecord format (w @ [c]) = parseRecord format w"
proof (rule parseRecord_similar)
  let ?ps = "split_js pipe w"
  have ne: "?ps \<noteq> []" by (rule split_js_not_Nil)
  have s: "split_js pipe (w @ [c]) = butlast ?ps @ [last ?ps @ [c]]"
    using ws_not_pipe [OF assms] by (rule split_js_snoc)
  have len: "length (split_js pipe (w @ [c])) = length ?ps"
    using s ne by (simp add: Suc_pred)
  show "length (split_js pipe (w @ [c])) = length ?ps" by (rule len)
  show "trim_js (split_js pipe (w @ [c]) ! i) = trim_js (?ps ! i)" if "i < length ?ps" for i
  proof (cases "Suc i = length ?ps")
    case True
    then have "i = length (butlast ?ps)" by simp
    then have "split_js pipe (w @ [c]) ! i = last ?ps @ [c]"
      unfolding s by (simp add: nth_append)
    moreover have "last ?ps = ?ps ! (length ?ps - 1)" using ne by (rule last_conv_nth)
    moreover have "length ?ps - 1 = i" using True by simp
    ultimately show ?thesis using assms by (simp add: trim_js_snoc_ws)
  next
    case False
    then have "i < length (butlast ?ps)" using that by simp
    then have "split_js pipe (w @ [c]) ! i = ?ps ! i"
      unfolding s by (simp add: nth_append nth_butlast)
    then show ?thesis by simp
  qed
  show "split_js pipe (w @ [c]) ! i = ?ps ! i" if "0 < i" and "Suc i < length ?ps" for i
  proof -
    have "i < length (butlast ?ps)" using that by simp
    then show ?thesis unfolding s by (simp add: nth_append nth_butlast)
  qed
qed

lemma parseRecord_Nil:
  assumes "format = ''simple'' \<or> format = ''full'' \<or> format = ''detailed''"
  shows "parseRecord format [] = None"
proof -
  have "\<not> wellFormed format []" using wellFormed_pipe [of format "[]"] by auto
  then show ?thesis using parseRecord_None [OF assms] by simp
qed

text \<open>White space at either end of the raw output does not change what is parsed from it.\<close>

lemma records_Cons_ws:
  assumes "format = ''simple'' \<or> format = ''full'' \<or> format = ''detailed''" and "isWhitespace c"
  shows "List.map_filter (parseRecord format) (split_js sep (c # s)) =
         List.map_filter (parseRecord format) (split_js sep s)"
proof (cases "c = sep")
  case True
  then show ?thesis using parseRecord_Nil [OF assms(1)] by (simp add: List.map_filter_simps)
next
  case False
  obtain x xs where x: "split_js sep s = x # xs"
    using split_js_not_Nil [of sep s] by (cases "split_js sep s") auto
  show ?thesis
    using False x parseRecord_Cons_ws [OF assms(2), of format x]
    by (simp add: List.map_filter_simps)
qed

lemma map_filter_append:
  "List.map_filter f (xs @ ys) = List.map_filter f xs @ List.map_filter f ys"
  by (simp add: List.map_filter_def)

lemma records_snoc_ws:
  assumes "format = ''simple'' \<or> format = ''full'' \<or> format = ''detailed''" and "isWhitespace c"
  shows "List.map_filter (parseRecord format) (split_js sep (s @ [c])) =
         List.map_filter (parseRecord format) (split_js sep s)"
proof (cases "c = sep")
  case True
  then show ?thesis
    using parseRecord_Nil [OF assms(1)]
    by (simp add: split_js_snoc_sep map_filter_append List.map_filter_simps)
next
  case False
  let ?ps = "split_js sep s"
  have ne: "?ps \<noteq> []" by (rule split_js_not_Nil)
  have "List.map_filter (parseRecord format) (split_js sep (s @ [c])) =
          List.map_filter (parseRecord format) (butlast ?ps) @
          List.map_filter (parseRecord format) [last ?ps @ [c]]"
    using False by (simp add: split_js_snoc map_filter_append)
  also have "List.map_filter (parseRecord format) [last ?ps @ [c]] =
               List.map_filter (parseRecord format) [last ?ps]"
    using parseRecord_snoc_ws [OF assms(2), of format "last ?ps"]
    by (simp add: List.map_filter_simps)
  also have "List.map_filter (parseRecord format) (butlast ?ps) @
               List.map_filter (parseRecord format) [last ?ps] =
             List.map_filter (parseRecord format) (butlast ?ps @ [last ?ps])"
    by (simp only: map_filter_append)
  also have "butlast ?ps @ [last ?ps] = ?ps" using ne by (rule append_butlast_last_id)
  finally show ?thesis .
qed

lemma records_dropWhile:
  assumes "format = ''simple'' \<or> format = ''full'' \<or> format = ''detailed''"
  shows "List.map_filter (parseRecord format) (split_js sep (dropWhile isWhitespace s)) =
         List.map_filter (parseRecord format) (split_js sep s)"
proof (induction s)
  case Nil
  show ?case by simp
next
  case (Cons c s)
  show ?case
  proof (cases "isWhitespace c")
    case True
    then show ?thesis using Cons records_Cons_ws [OF assms True, of sep s] by simp
  next
    case False
    then show ?thesis by simp
  qed
qed

lemma records_rev_dropWhile:
  assumes "format = ''simple'' \<or> format = ''full'' \<or> format = ''detailed''"
  shows "List.map_filter (parseRecord format) (split_js sep (rev (dropWhile isWhitespace t))) =
         List.map_filter (parseRecord format) (split_js sep (rev t))"
proof (induction t)
  case Nil
  show ?case by simp
next
  case (Cons c t)
  show ?case
  proof (cases "isWhitespace c")
    case True
    then show ?thesis using Cons records_snoc_ws [OF assms True, of sep "rev t"] by simp
  next
    case False
    then show ?thesis by simp
  qed
qed

lemma records_trim:
  assumes "format = ''simple'' \<or> format = ''full'' \<or> format = ''detailed''"
  shows "List.map_filter (parseRecord format) (split_js sep (trim_js s)) =
         List.map_filter (parseRecord format) (split_js sep s)"
proof -
  have "List.map_filter (parseRecord format) (split_js sep (trim_js s)) =
        List.map_filter (parseRecord format)
          (split_js sep (rev (rev (dropWhile isWhitespace s))))"
    unfolding trim_js_def by (rule records_rev_dropWhile [OF assms])
  also have "\<dots> = List.map_filter (parseRecord format) (split_js sep s)"
    by (simp add: records_dropWhile [OF assms])
  finally show ?thesis .
qed

lemma map_filter_filter_keep:
  assumes "\<And>x. \<not> keep x \<Longrightarrow> f x = None"
  shows "List.map_filter f (filter keep xs) = List.map_filter f xs"
proof (induction xs)
  case Nil
  show ?case by simp
next
  case (Cons x xs)
  then show ?case
    using assms [of x]
    by (cases "keep x") (simp_all add: List.map_filter_simps split: option.splits)
qed

lemma parseRecord_blank:
  assumes "format = ''simple'' \<or> format = ''full'' \<or> format = ''detailed''"
    and "trim_js r = []"
  shows "parseRecord format r = None"
proof -
  have "\<not> wellFormed format r"
    using wellFormed_pipe [of format r] trim_js_not_Nil [of r] assms(2) by auto
  then show ?thesis using parseRecord_None [OF assms(1)] by simp
qed

lemma recordLines_parse:
  assumes "format = ''simple'' \<or> format = ''full'' \<or> format = ''detailed''"
  shows "List.map_filter (parseRecord format) (recordLines raw format) =
         List.map_filter (parseRecord format) (split_js (recordSeparator format) raw)"
proof (cases "format = ''full'' \<or> format = ''detailed''")
  case True
  have "List.map_filter (parseRecord format) (filter (\<lambda>line. line \<noteq> []) xs) =
        List.map_filter (parseRecord format) xs" for xs
    by (rule map_filter_filter_keep) (simp add: parseRecord_Nil [OF assms])
  then have "List.map_filter (parseRecord format) (recordLines raw format) =
        List.map_filter (parseRecord format) (split_js nul (trim_js raw))"
    using True by (simp add: recordLines_def)
  then show ?thesis using True by (simp add: recordSeparator_def records_trim [OF assms])
next
  case False
  have "List.map_filter (parseRecord format) (filter (\<lambda>line. trim_js line \<noteq> []) xs) =
        List.map_filter (parseRecord format) xs" for xs
    by (rule map_filter_filter_keep) (simp add: parseRecord_blank [OF assms])
  then have "List.map_filter (parseRecord format) (recordLines raw format) =
        List.map_filter (parseRecord format) (split_js newline (trim_js raw))"
    using False by (simp add: recordLines_def)
  then show ?thesis using False by (simp add: recordSeparator_def records_trim [OF assms])
qed

lemma parseCommitOutput_records:
  assumes "format = ''simple'' \<or> format = ''full'' \<or> format = ''detailed''"
  shows "parseCommitOutput raw format =
         List.map_filter (parseRecord format) (split_js (recordSeparator format) raw)"
proof (cases "trim_js raw = []")
  case True
  have "List.map_filter (parseRecord format) (split_js (recordSeparator format) (trim_js raw)) = []"
    using True parseRecord_Nil [OF assms] by (simp add: List.map_filter_simps)
  then have "List.map_filter (parseRecord format) (split_js (recordSeparator format) raw) = []"
    by (simp add: records_trim [OF assms])
  then show ?thesis using True by (simp add: parseCommitOutput_def)
next
  case False
  then show ?thesis
    using parseCommitOutput_lines [OF assms False] recordLines_parse [OF assms, of raw] by simp
qed

text \<open>
  C4: for the formats with fields (simple, full and detailed) and any raw output made
  of records joined by the separator of the format, \<^verbatim>\<open>parseCommitOutput\<close> returns, in the order
  of the input, the commits of exactly the well-formed records, those with at least the
  expected number of fields: \<open>K\<close> commits when \<open>K\<close> records are well-formed, and as many commits
  as records when all are. A record with fewer fields is dropped and the others are still
  parsed. The function is total, so nothing is raised.
\<close>

theorem C4_parser_totality:
  assumes "format = ''simple'' \<or> format = ''full'' \<or> format = ''detailed''"
    and "\<forall>r \<in> set records. recordSeparator format \<notin> set r"
  shows "parseCommitOutput (join_js [recordSeparator format] records) format =
           map (\<lambda>r. the (parseRecord format r)) (filter (wellFormed format) records) \<and>
         length (parseCommitOutput (join_js [recordSeparator format] records) format) =
           length (filter (wellFormed format) records) \<and>
         ((\<forall>r \<in> set records. wellFormed format r) \<longrightarrow>
            length (parseCommitOutput (join_js [recordSeparator format] records) format) =
              length records)"
proof -
  let ?sep = "recordSeparator format"
  let ?raw = "join_js [?sep] records"
  have parsed: "parseCommitOutput ?raw format = List.map_filter (parseRecord format) records"
  proof (cases "records = []")
    case True
    then show ?thesis
      using parseRecord_Nil [OF assms(1)]
      by (simp add: parseCommitOutput_records [OF assms(1)] List.map_filter_simps)
  next
    case False
    then have "split_js ?sep ?raw = records" using assms(2) by (rule split_js_join)
    then show ?thesis by (simp add: parseCommitOutput_records [OF assms(1)])
  qed
  have main: "parseCommitOutput ?raw format =
           map (\<lambda>r. the (parseRecord format r)) (filter (wellFormed format) records)"
    unfolding parsed using parseRecord_None [OF assms(1)]
    by (simp add: List.map_filter_def comp_def)
  have len: "length (parseCommitOutput ?raw format) = length (filter (wellFormed format) records)"
    unfolding main by simp
  have all: "(\<forall>r \<in> set records. wellFormed format r) \<longrightarrow>
            length (parseCommitOutput ?raw format) = length records"
    unfolding len by simp
  show ?thesis using main len all by blast
qed

theorem C4_parser_totality_witness:
  "list_all (\<lambda>r. recordSeparator ''simple'' \<notin> set r) threeRecords \<and>
   length (parseCommitOutput (join_js [recordSeparator ''simple''] threeRecords) ''simple'') = 2 \<and>
   map (\<lambda>c. case c of SimpleC s \<Rightarrow> s_shortHash s | _ \<Rightarrow> [])
     (parseCommitOutput (join_js [recordSeparator ''simple''] threeRecords) ''simple'')
     = [''1f3c5a7'', ''2e4d6f8'']"
proof -
  have f: "''simple'' = ''simple'' \<or> ''simple'' = ''full'' \<or> ''simple'' = ''detailed''" by simp
  have n: "\<forall>r \<in> set threeRecords. recordSeparator ''simple'' \<notin> set r" by code_simp
  have w: "filter (wellFormed ''simple'') threeRecords =
             [''1f3c5a7|feat(auth): add login|dev|2025-06-01'',
              ''2e4d6f8|fix!: remove deprecated endpoint|dev|2025-06-02'']"
    by code_simp
  have h: "map (\<lambda>c. case c of SimpleC s \<Rightarrow> s_shortHash s | _ \<Rightarrow> [])
             (map (\<lambda>r. the (parseRecord ''simple'' r))
                [''1f3c5a7|feat(auth): add login|dev|2025-06-01'',
                 ''2e4d6f8|fix!: remove deprecated endpoint|dev|2025-06-02''])
           = [''1f3c5a7'', ''2e4d6f8'']"
    by code_simp
  have l: "list_all (\<lambda>r. recordSeparator ''simple'' \<notin> set r) threeRecords"
    using n by (simp add: list_all_iff)
  show ?thesis
    using l w h C4_parser_totality [OF f n]
    by simp
qed

subsection \<open>C10: the limit of the commit listing\<close>

lemma countArg_positive:
  assumes "o_count options = Some n" and "0 < n"
  shows "countArg options = '' -'' @ decimal (nat (min n 1000))"
  using assms by (simp add: countArg_def countOption_def Let_def)

lemma getCommitsCommand_limit:
  assumes "o_count options = Some n" and "0 < n"
  shows "getCommitsCommand branchExists isValidGitDate options =
         commandWithLimit branchExists isValidGitDate options (nat (min n 1000))"
  unfolding getCommitsCommand_def commandWithLimit_def countArg_positive [OF assms]
  by (simp only: append_assoc)

lemma count_separators_join:
  assumes "\<forall>p \<in> set printed. sep \<notin> set p"
  shows "length (filter (\<lambda>c. c = sep) (join_js [sep] printed)) = length printed - 1"
  using assms
proof (induction "[sep]" printed rule: join_js.induct)
  case 1
  show ?case by simp
next
  case (2 x)
  then have "filter (\<lambda>c. c = sep) x = []" by (auto simp add: filter_empty_conv)
  then show ?case by simp
next
  case (3 x y ys)
  then have "filter (\<lambda>c. c = sep) x = []" by (auto simp add: filter_empty_conv)
  then show ?case using 3 by simp
qed

lemma listing_bound:
  assumes "\<forall>p \<in> set printed. recordSeparator format \<notin> set p"
  shows "length (parseCommitOutput (join_js [recordSeparator format] printed) format)
           \<le> length printed"
proof (cases "printed = []")
  case True
  then show ?thesis by (simp add: parseCommitOutput_def trim_js_def)
next
  case False
  let ?out = "join_js [recordSeparator format] printed"
  have "length (parseCommitOutput ?out format)
          \<le> Suc (length (filter (\<lambda>c. c = recordSeparator format) ?out))"
    using length_parseCommitOutput [of ?out format] length_recordLines [of ?out format] by simp
  also have "\<dots> = Suc (length printed - 1)"
    using count_separators_join [OF assms] by simp
  also have "\<dots> = length printed" using False by (simp add: Suc_pred)
  finally show ?thesis .
qed

lemma parseCommitOutput_join:
  assumes "format = ''simple'' \<or> format = ''full'' \<or> format = ''detailed''"
    and "\<forall>r \<in> set records. recordSeparator format \<notin> set r"
  shows "parseCommitOutput (join_js [recordSeparator format] records) format =
           map (\<lambda>r. the (parseRecord format r)) (filter (wellFormed format) records)"
proof -
  let ?sep = "recordSeparator format"
  let ?raw = "join_js [?sep] records"
  have parsed: "parseCommitOutput ?raw format = List.map_filter (parseRecord format) records"
  proof (cases "records = []")
    case True
    then show ?thesis
      using parseRecord_Nil [OF assms(1)]
      by (simp add: parseCommitOutput_records [OF assms(1)] List.map_filter_simps)
  next
    case False
    then have "split_js ?sep ?raw = records" using assms(2) by (rule split_js_join)
    then show ?thesis by (simp add: parseCommitOutput_records [OF assms(1)])
  qed
  show ?thesis
    unfolding parsed using parseRecord_None [OF assms(1)]
    by (simp add: List.map_filter_def comp_def)
qed

text \<open>
  The fallback for a format that the git manager does not know: one entry for every line of
  the output that is not blank.
\<close>

lemma trimmedLines_Cons_ws:
  assumes "isWhitespace c"
  shows "trimmedLines (c # s) = trimmedLines s"
proof (cases "c = newline")
  case True
  then show ?thesis by (simp add: trimmedLines_def trim_js_def)
next
  case False
  obtain x xs where x: "split_js newline s = x # xs"
    using split_js_not_Nil [of newline s] by (cases "split_js newline s") auto
  show ?thesis
    using False x trim_js_Cons_ws [OF assms, of x] by (simp add: trimmedLines_def)
qed

lemma trimmedLines_snoc_ws:
  assumes "isWhitespace c"
  shows "trimmedLines (s @ [c]) = trimmedLines s"
proof (cases "c = newline")
  case True
  then show ?thesis by (simp add: trimmedLines_def split_js_snoc_sep trim_js_def)
next
  case False
  let ?ps = "split_js newline s"
  have ne: "?ps \<noteq> []" by (rule split_js_not_Nil)
  have "map trim_js (split_js newline (s @ [c])) =
          map trim_js (butlast ?ps) @ [trim_js (last ?ps @ [c])]"
    using False by (simp add: split_js_snoc)
  also have "\<dots> = map trim_js (butlast ?ps) @ [trim_js (last ?ps)]"
    using assms by (simp add: trim_js_snoc_ws)
  also have "\<dots> = map trim_js (butlast ?ps @ [last ?ps])" by simp
  also have "butlast ?ps @ [last ?ps] = ?ps" using ne by (rule append_butlast_last_id)
  finally show ?thesis by (simp add: trimmedLines_def)
qed

lemma trimmedLines_dropWhile: "trimmedLines (dropWhile isWhitespace s) = trimmedLines s"
  by (induction s) (simp_all add: trimmedLines_Cons_ws)

lemma trimmedLines_rev_dropWhile:
  "trimmedLines (rev (dropWhile isWhitespace t)) = trimmedLines (rev t)"
  by (induction t) (simp_all add: trimmedLines_snoc_ws)

lemma trimmedLines_trim: "trimmedLines (trim_js s) = trimmedLines s"
proof -
  have "trimmedLines (trim_js s) = trimmedLines (rev (rev (dropWhile isWhitespace s)))"
    unfolding trim_js_def by (rule trimmedLines_rev_dropWhile)
  then show ?thesis by (simp add: trimmedLines_dropWhile)
qed

lemma parseCommitOutput_fallback:
  assumes "\<not> knownFormat format"
  shows "parseCommitOutput output format = map MessageOnly (trimmedLines output)"
proof -
  have f: "format \<noteq> ''oneline''" "format \<noteq> ''simple''" "format \<noteq> ''full''"
    "format \<noteq> ''detailed''"
    using assms by (auto simp add: knownFormat_def)
  have lines: "map (\<lambda>line. MessageOnly (trim_js line))
                 (filter (\<lambda>line. trim_js line \<noteq> []) (split_js newline (trim_js output))) =
               map MessageOnly (trimmedLines output)"
    unfolding trimmedLines_trim [of "output", symmetric]
    by (simp add: trimmedLines_def filter_map comp_def)
  show ?thesis
  proof (cases "trim_js output = []")
    case True
    have "trimmedLines (trim_js output) = []" unfolding True by (simp add: trimmedLines_def trim_js_def)
    then have "trimmedLines output = []" by (simp add: trimmedLines_trim)
    then show ?thesis using True by (simp add: parseCommitOutput_def)
  next
    case False
    then show ?thesis
      using f lines by (simp add: parseCommitOutput_def recordLines_def)
  qed
qed

text \<open>A log of commits that are printed on several lines, and its lines.\<close>

lemma digit_not_newline: "d < 10 \<Longrightarrow> digit d \<noteq> newline"
  by (simp add: digit_def newline_def char_of_eq_iff take_bit_eq_mod)

lemma newline_notin_decimal: "newline \<notin> set (decimal i)"
proof (induction i rule: decimal.induct)
  case (1 n)
  show ?case
  proof (cases "n < 10")
    case True
    then show ?thesis using digit_not_newline [of n] by (subst decimal.simps) simp
  next
    case False
    then show ?thesis
      using 1 digit_not_newline [of "n mod 10"] by (subst decimal.simps) simp
  qed
qed

lemma split_js_separator:
  "split_js sep (a @ sep # b) = split_js sep a @ split_js sep b"
proof (induction a)
  case Nil
  show ?case by simp
next
  case (Cons x a)
  obtain w ws where w: "split_js sep a = w # ws"
    using split_js_not_Nil [of sep a] by (cases "split_js sep a") auto
  show ?case using Cons w by simp
qed

lemma split_printedCommit: "split_js newline (printedCommit i) = printedLines i"
proof -
  have n: "newline \<notin> set ''|c''" "newline \<notin> set ''c''"
    "newline \<notin> set ''|feat: change|feat: change''"
    "newline \<notin> set ''details of the change''"
    "newline \<notin> set ''|dev|dev@example.org|2025-06-01|2025-06-01''"
    by code_simp+
  have "\<forall>r \<in> set (printedLines i). newline \<notin> set r"
    using n newline_notin_decimal [of i] by (simp add: printedLines_def)
  moreover have "printedLines i \<noteq> []" by (simp add: printedLines_def)
  ultimately show ?thesis unfolding printedCommit_def by (intro split_js_join)
qed

lemma split_printed_log:
  assumes "commits \<noteq> []"
  shows "split_js newline (join_js [newline] (map printedCommit commits)) =
         concat (map printedLines commits)"
  using assms
proof (induction commits)
  case Nil
  then show ?case by simp
next
  case (Cons i commits)
  show ?case
  proof (cases commits)
    case Nil
    then show ?thesis by (simp add: split_printedCommit)
  next
    case (Cons j rest)
    then have "split_js newline (join_js [newline] (map printedCommit commits)) =
               concat (map printedLines commits)"
      using Cons.IH by simp
    then show ?thesis using Cons by (simp add: split_js_separator split_printedCommit)
  qed
qed

lemma trimmed_printedLines:
  "length (filter (\<lambda>line. line \<noteq> []) (map trim_js (printedLines i))) = 3"
proof -
  have a: "trim_js (''c'' @ decimal i @ ''|c'' @ decimal i @ ''|feat: change|feat: change'') \<noteq> []"
    by (rule trim_js_not_Nil) (simp add: pipe_def)
  have b: "trim_js [] = []" by (simp add: trim_js_def)
  have c: "trim_js ''details of the change'' \<noteq> []" by code_simp
  have d: "trim_js ''|dev|dev@example.org|2025-06-01|2025-06-01'' \<noteq> []" by code_simp
  show ?thesis unfolding printedLines_def using a b c d by simp
qed

lemma trimmedLines_printed_log:
  assumes "commits \<noteq> []"
  shows "length (trimmedLines (join_js [newline] (map printedCommit commits))) = 3 * length commits"
proof -
  have "length (filter (\<lambda>line. line \<noteq> []) (map trim_js (concat (map printedLines cs)))) =
          3 * length cs" for cs
  proof (induction cs)
    case Nil
    show ?case by simp
  next
    case (Cons i cs)
    then show ?case using trimmed_printedLines [of i] by simp
  qed
  then show ?thesis unfolding trimmedLines_def split_printed_log [OF assms] .
qed

lemma custom_unknown: "\<not> knownFormat ''custom''"
  by (simp add: knownFormat_def)

lemma custom_command:
  "getCommitsCommand acceptAll acceptAll customOptions =
     ''git log -3 --no-merges --pretty=format:'' @ dq @ ''%H|%h|%s|%B|%an|%ae|%ad|%cd'' @ dq @
     '' --date=iso''"
  by code_simp

lemma large_command:
  "getCommitsCommand acceptAll acceptAll largeOptions =
     ''git log -1000 --no-merges --pretty=format:'' @ dq @ ''%H|%h|%s|%B|%an|%ae|%ad|%cd'' @ dq @
     '' --date=iso''"
  by code_simp

text \<open>
  C10, as stated, fails on the code for a format that the git manager does not know. The
  command carries the limit, here \<^verbatim>\<open>-3\<close> and \<^verbatim>\<open>-1000\<close>, and git honours it; but the command
  asks for the format string of the full format without \<^verbatim>\<open>-z\<close>, git prints every commit on
  several lines, and the fallback of the parser makes an entry of every line that is not
  blank. Three commits give 9 entries, and for a requested count of 5000 the 1000 commits
  that git lists give 3000 entries, more than 1000.
\<close>

theorem C10_unknown_format_counterexample:
  "getCommitsCommand acceptAll acceptAll customOptions =
     ''git log -3 --no-merges --pretty=format:'' @ dq @ ''%H|%h|%s|%B|%an|%ae|%ad|%cd'' @ dq @
     '' --date=iso'' \<and>
   customGit (getCommitsCommand acceptAll acceptAll customOptions) =
     Some (join_js [newline] (map printedCommit [0..<3])) \<and>
   length (map printedCommit [0..<3]) = 3 \<and>
   length (getCommits acceptAll acceptAll customGit customOptions) = 9 \<and>
   getCommitsCommand acceptAll acceptAll largeOptions =
     ''git log -1000 --no-merges --pretty=format:'' @ dq @ ''%H|%h|%s|%B|%an|%ae|%ad|%cd'' @ dq @
     '' --date=iso'' \<and>
   largeGit (getCommitsCommand acceptAll acceptAll largeOptions) =
     Some (join_js [newline] (map printedCommit [0..<1000])) \<and>
   length (map printedCommit [0..<1000]) = 1000 \<and>
   length (getCommits acceptAll acceptAll largeGit largeOptions) = 3000 \<and>
   1000 < length (getCommits acceptAll acceptAll largeGit largeOptions)"
proof -
  have f3: "formatOption customOptions = ''custom''"
    by (simp add: formatOption_def customOptions_def)
  have f1000: "formatOption largeOptions = ''custom''"
    by (simp add: formatOption_def largeOptions_def customOptions_def)
  have n3: "[0..<3::nat] \<noteq> []" by (simp del: upt_rec_numeral)
  have n1000: "[0..<1000::nat] \<noteq> []" by (simp del: upt_rec_numeral)
  have l3: "length [0..<3::nat] = 3" by (simp del: upt_rec_numeral)
  have l1000: "length [0..<1000::nat] = 1000" by (simp del: upt_rec_numeral)
  have a: "length (getCommits acceptAll acceptAll customGit customOptions) = 9"
    unfolding getCommits_def customGit_def f3 option.case
      parseCommitOutput_fallback [OF custom_unknown] length_map
      trimmedLines_printed_log [OF n3] l3
    by simp
  have b: "length (getCommits acceptAll acceptAll largeGit largeOptions) = 3000"
    unfolding getCommits_def largeGit_def f1000 option.case
      parseCommitOutput_fallback [OF custom_unknown] length_map
      trimmedLines_printed_log [OF n1000] l1000
    by simp
  have c: "length (map printedCommit [0..<3]) = 3" unfolding length_map l3 ..
  have d: "length (map printedCommit [0..<1000]) = 1000" unfolding length_map l1000 ..
  have e: "customGit (getCommitsCommand acceptAll acceptAll customOptions) =
     Some (join_js [newline] (map printedCommit [0..<3]))"
    by (simp only: customGit_def)
  have f: "largeGit (getCommitsCommand acceptAll acceptAll largeOptions) =
     Some (join_js [newline] (map printedCommit [0..<1000]))"
    by (simp only: largeGit_def)
  have g: "1000 < length (getCommits acceptAll acceptAll largeGit largeOptions)"
    unfolding b by simp
  show ?thesis
    by (intro conjI custom_command e c a large_command f d b g)
qed

text \<open>
  C10 amended. For every call of \<^verbatim>\<open>getCommits\<close> with a positive requested count \<open>n\<close>, the
  command is \<^verbatim>\<open>git log\<close>, the branch when it is given and exists, the limit \<^verbatim>\<open>-min(n, 1000)\<close>,
  which is at most 1000, and then the filters and the format. When git honours the limit of
  the command, that is, answers the command with any limit \<open>L\<close> by at most \<open>L\<close> records joined
  by the separator at which the parser splits, none of them containing it (so git prints the
  formats simple, oneline, full and detailed), the list that \<^verbatim>\<open>getCommits\<close> returns has at most
  \<open>min(n, 1000)\<close> entries, hence never more than 1000. For the formats simple, full and
  detailed it holds the commits of exactly the well-formed records of such an answer, in
  their order. For a format that the git manager does not know, it holds one entry for every
  line of the answer that is not blank, however many commits these lines print.
\<close>

theorem C10_commit_limit:
  assumes "o_count options = Some n" and "0 < n"
  shows "getCommitsCommand branchExists isValidGitDate options =
           commandWithLimit branchExists isValidGitDate options (nat (min n 1000)) \<and>
         nat (min n 1000) \<le> 1000 \<and>
         ((\<forall>L out. execGit (commandWithLimit branchExists isValidGitDate options L) = Some out \<longrightarrow>
             (\<exists>printed. length printed \<le> L \<and>
                out = join_js [recordSeparator (formatOption options)] printed \<and>
                (\<forall>p \<in> set printed. recordSeparator (formatOption options) \<notin> set p))) \<longrightarrow>
          length (getCommits branchExists isValidGitDate execGit options) \<le> nat (min n 1000) \<and>
          length (getCommits branchExists isValidGitDate execGit options) \<le> 1000) \<and>
         (\<forall>printed.
            (formatOption options = ''simple'' \<or> formatOption options = ''full'' \<or>
             formatOption options = ''detailed'') \<and>
            execGit (getCommitsCommand branchExists isValidGitDate options) =
              Some (join_js [recordSeparator (formatOption options)] printed) \<and>
            (\<forall>p \<in> set printed. recordSeparator (formatOption options) \<notin> set p) \<longrightarrow>
            getCommits branchExists isValidGitDate execGit options =
              map (\<lambda>r. the (parseRecord (formatOption options) r))
                (filter (wellFormed (formatOption options)) printed)) \<and>
         (\<forall>out.
            \<not> knownFormat (formatOption options) \<and>
            execGit (getCommitsCommand branchExists isValidGitDate options) = Some out \<longrightarrow>
            getCommits branchExists isValidGitDate execGit options =
              map MessageOnly (trimmedLines out))"
proof -
  let ?format = "formatOption options"
  let ?sep = "recordSeparator ?format"
  let ?command = "getCommitsCommand branchExists isValidGitDate options"
  let ?commits = "getCommits branchExists isValidGitDate execGit options"
  have command: "?command =
      commandWithLimit branchExists isValidGitDate options (nat (min n 1000))"
    using assms by (rule getCommitsCommand_limit)
  have limit: "nat (min n 1000) \<le> 1000" by simp
  have bound: "length ?commits \<le> nat (min n 1000) \<and> length ?commits \<le> 1000"
    if git: "\<forall>L out. execGit (commandWithLimit branchExists isValidGitDate options L) = Some out \<longrightarrow>
             (\<exists>printed. length printed \<le> L \<and> out = join_js [?sep] printed \<and>
                (\<forall>p \<in> set printed. ?sep \<notin> set p))"
  proof -
    have "length ?commits \<le> nat (min n 1000)"
    proof (cases "execGit ?command")
      case None
      then show ?thesis by (simp add: getCommits_def)
    next
      case (Some out)
      then have "execGit (commandWithLimit branchExists isValidGitDate options (nat (min n 1000)))
                   = Some out"
        unfolding command .
      with git obtain printed where p: "length printed \<le> nat (min n 1000)"
        "out = join_js [?sep] printed" "\<forall>p \<in> set printed. ?sep \<notin> set p"
        by blast
      have "length (parseCommitOutput out ?format) \<le> length printed"
        unfolding p(2) using p(3) by (rule listing_bound)
      then show ?thesis using Some p(1) by (simp add: getCommits_def)
    qed
    then show ?thesis using limit by simp
  qed
  have exact: "?commits = map (\<lambda>r. the (parseRecord ?format r)) (filter (wellFormed ?format) printed)"
    if "(?format = ''simple'' \<or> ?format = ''full'' \<or> ?format = ''detailed'') \<and>
        execGit ?command = Some (join_js [?sep] printed) \<and>
        (\<forall>p \<in> set printed. ?sep \<notin> set p)" for printed
  proof -
    from that have f: "?format = ''simple'' \<or> ?format = ''full'' \<or> ?format = ''detailed''"
      and g: "execGit ?command = Some (join_js [?sep] printed)"
      and s: "\<forall>p \<in> set printed. ?sep \<notin> set p"
      by blast+
    show ?thesis
      unfolding getCommits_def g option.case using f s by (rule parseCommitOutput_join)
  qed
  have fallback: "?commits = map MessageOnly (trimmedLines out)"
    if "\<not> knownFormat ?format \<and> execGit ?command = Some out" for out
  proof -
    from that have u: "\<not> knownFormat ?format" and g: "execGit ?command = Some out" by blast+
    show ?thesis
      unfolding getCommits_def g option.case using u by (rule parseCommitOutput_fallback)
  qed
  show ?thesis using command limit bound exact fallback by blast
qed

lemma commandWithLimit_oneOptions:
  "commandWithLimit branchExists isValidGitDate oneOptions L =
   commandWithLimit branchExists isValidGitDate manyOptions L"
  by (simp add: commandWithLimit_def oneOptions_def branchArg_def formatArgs_def formatOption_def)

lemma simple_separator:
  "recordSeparator (formatOption manyOptions) = newline"
  "recordSeparator (formatOption oneOptions) = newline"
  by (simp_all add: recordSeparator_def formatOption_def manyOptions_def oneOptions_def)

lemma twoCommitGit_honours_limit:
  assumes "twoCommitGit (commandWithLimit acceptAll acceptAll manyOptions L) = Some out"
  shows "\<exists>printed. length printed \<le> L \<and> out = join_js [newline] printed \<and>
           (\<forall>p \<in> set printed. newline \<notin> set p)"
proof -
  let ?first = "''1f3c5a7|feat(auth): add login|dev|2025-06-01''"
  let ?second = "''2e4d6f8|fix!: remove deprecated endpoint|dev|2025-06-02''"
  have n: "newline \<notin> set ?first" "newline \<notin> set ?second" by code_simp+
  have zero: "\<exists>printed. length printed \<le> L \<and> [] = join_js [newline] printed \<and>
           (\<forall>p \<in> set printed. newline \<notin> set p)"
    by (rule exI [of _ "[]"]) simp
  have one: "\<exists>printed. length printed \<le> L \<and> ?first = join_js [newline] printed \<and>
           (\<forall>p \<in> set printed. newline \<notin> set p)" if "1 \<le> L"
    using that n by (intro exI [of _ "[?first]"]) simp
  have two: "\<exists>printed. length printed \<le> L \<and> twoCommitLog = join_js [newline] printed \<and>
           (\<forall>p \<in> set printed. newline \<notin> set p)" if "2 \<le> L"
    using that n by (intro exI [of _ "[?first, ?second]"]) (simp add: twoCommitLog_def)
  have d: "commandWithLimit acceptAll acceptAll manyOptions 1 \<noteq>
           commandWithLimit acceptAll acceptAll manyOptions 0"
    by code_simp
  consider (z) "L = 0" | (o) "L = 1" | (m) "2 \<le> L" by linarith
  then show ?thesis
  proof cases
    case z
    then have "out = []" using assms by (simp add: twoCommitGit_def)
    then show ?thesis using zero by simp
  next
    case o
    then have "out = ?first" using assms d by (simp add: twoCommitGit_def)
    then show ?thesis using one o by simp
  next
    case m
    then have "1 \<le> L" by simp
    have "out = [] \<or> out = ?first \<or> out = twoCommitLog"
      using assms by (auto simp add: twoCommitGit_def split: if_splits)
    then show ?thesis using zero one [OF \<open>1 \<le> L\<close>] two [OF m] by blast
  qed
qed

lemma twoCommitGit_answers:
  "twoCommitGit (getCommitsCommand acceptAll acceptAll manyOptions) =
     Some (join_js [newline] [''1f3c5a7|feat(auth): add login|dev|2025-06-01'',
                              ''2e4d6f8|fix!: remove deprecated endpoint|dev|2025-06-02''])"
  "twoCommitGit (getCommitsCommand acceptAll acceptAll oneOptions) =
     Some (join_js [newline] [''1f3c5a7|feat(auth): add login|dev|2025-06-01''])"
  by code_simp+

theorem C10_commit_limit_witness:
  "o_count manyOptions = Some 5000 \<and> o_count oneOptions = Some 1 \<and>
   getCommitsCommand acceptAll acceptAll manyOptions =
     ''git log -1000 --no-merges --pretty=format:'' @ dq @ ''%h|%s|%an|%ad'' @ dq @ '' --date=iso'' \<and>
   length (getCommits acceptAll acceptAll twoCommitGit manyOptions) \<le> 1000 \<and>
   length (getCommits acceptAll acceptAll twoCommitGit oneOptions) \<le> 1 \<and>
   map (\<lambda>c. case c of SimpleC s \<Rightarrow> s_shortHash s | _ \<Rightarrow> [])
     (getCommits acceptAll acceptAll twoCommitGit manyOptions) = [''1f3c5a7'', ''2e4d6f8''] \<and>
   map (\<lambda>c. case c of SimpleC s \<Rightarrow> s_shortHash s | _ \<Rightarrow> [])
     (getCommits acceptAll acceptAll twoCommitGit oneOptions) = [''1f3c5a7''] \<and>
   getCommits acceptAll acceptAll customGit customOptions =
     map MessageOnly (trimmedLines (join_js [newline] (map printedCommit [0..<3])))"
proof -
  let ?first = "''1f3c5a7|feat(auth): add login|dev|2025-06-01''"
  let ?second = "''2e4d6f8|fix!: remove deprecated endpoint|dev|2025-06-02''"
  have c: "o_count manyOptions = Some 5000" by (simp add: manyOptions_def)
  have c1: "o_count oneOptions = Some 1" by (simp add: oneOptions_def)
  have c3: "o_count customOptions = Some 3" by (simp add: customOptions_def)
  have p: "(0::int) < 5000" "(0::int) < 1" "(0::int) < 3" by simp_all
  have f: "formatOption manyOptions = ''simple''" "formatOption oneOptions = ''simple''"
    by (simp_all add: formatOption_def manyOptions_def oneOptions_def)
  have fc: "formatOption customOptions = ''custom''"
    by (simp add: formatOption_def customOptions_def)
  have n: "newline \<notin> set ?first" "newline \<notin> set ?second" by code_simp+
  have w: "wellFormed ''simple'' ?first" "wellFormed ''simple'' ?second" by code_simp+
  have h: "map (\<lambda>c. case c of SimpleC s \<Rightarrow> s_shortHash s | _ \<Rightarrow> [])
             (map (\<lambda>r. the (parseRecord ''simple'' r)) [?first, ?second])
           = [''1f3c5a7'', ''2e4d6f8'']"
    by code_simp
  have cmd: "commandWithLimit acceptAll acceptAll manyOptions 1000 =
     ''git log -1000 --no-merges --pretty=format:'' @ dq @ ''%h|%s|%an|%ad'' @ dq @ '' --date=iso''"
    by code_simp
  have g: "\<forall>L out. twoCommitGit (commandWithLimit acceptAll acceptAll manyOptions L) = Some out \<longrightarrow>
             (\<exists>printed. length printed \<le> L \<and>
                out = join_js [recordSeparator (formatOption manyOptions)] printed \<and>
                (\<forall>p \<in> set printed. recordSeparator (formatOption manyOptions) \<notin> set p))"
    unfolding simple_separator using twoCommitGit_honours_limit by blast
  have g1: "\<forall>L out. twoCommitGit (commandWithLimit acceptAll acceptAll oneOptions L) = Some out \<longrightarrow>
             (\<exists>printed. length printed \<le> L \<and>
                out = join_js [recordSeparator (formatOption oneOptions)] printed \<and>
                (\<forall>p \<in> set printed. recordSeparator (formatOption oneOptions) \<notin> set p))"
    unfolding simple_separator commandWithLimit_oneOptions using twoCommitGit_honours_limit by blast
  note many = C10_commit_limit [OF c p(1), of acceptAll acceptAll twoCommitGit]
  note one = C10_commit_limit [OF c1 p(2), of acceptAll acceptAll twoCommitGit]
  note custom = C10_commit_limit [OF c3 p(3), of acceptAll acceptAll customGit]
  have m1: "getCommitsCommand acceptAll acceptAll manyOptions =
     ''git log -1000 --no-merges --pretty=format:'' @ dq @ ''%h|%s|%an|%ad'' @ dq @ '' --date=iso''"
    using many cmd by simp
  have m2: "length (getCommits acceptAll acceptAll twoCommitGit manyOptions) \<le> 1000"
    using many g by blast
  have o2: "length (getCommits acceptAll acceptAll twoCommitGit oneOptions) \<le> 1"
    using one g1 by simp
  have m3: "getCommits acceptAll acceptAll twoCommitGit manyOptions =
              map (\<lambda>r. the (parseRecord ''simple'' r)) [?first, ?second]"
  proof -
    have "getCommits acceptAll acceptAll twoCommitGit manyOptions =
            map (\<lambda>r. the (parseRecord (formatOption manyOptions) r))
              (filter (wellFormed (formatOption manyOptions)) [?first, ?second])"
      using many twoCommitGit_answers(1) n f(1) simple_separator(1)
      by (elim conjE allE [of _ "[?first, ?second]"]) simp
    then show ?thesis using w f by simp
  qed
  have o3: "getCommits acceptAll acceptAll twoCommitGit oneOptions =
              map (\<lambda>r. the (parseRecord ''simple'' r)) [?first]"
  proof -
    have "getCommits acceptAll acceptAll twoCommitGit oneOptions =
            map (\<lambda>r. the (parseRecord (formatOption oneOptions) r))
              (filter (wellFormed (formatOption oneOptions)) [?first])"
      using one twoCommitGit_answers(2) n f(2) simple_separator(2)
      by (elim conjE allE [of _ "[?first]"]) simp
    then show ?thesis using w f by simp
  qed
  have k: "getCommits acceptAll acceptAll customGit customOptions =
     map MessageOnly (trimmedLines (join_js [newline] (map printedCommit [0..<3])))"
    using custom custom_unknown fc by (simp add: customGit_def)
  have h1: "map (\<lambda>c. case c of SimpleC s \<Rightarrow> s_shortHash s | _ \<Rightarrow> [])
             (map (\<lambda>r. the (parseRecord ''simple'' r)) [?first]) = [''1f3c5a7'']"
    by code_simp
  show ?thesis
    unfolding m3 o3 h h1 using c c1 m1 m2 o2 k unfolding m3 o3 by simp
qed

end
